(* ===== verification/Prelude.thy ===== *)
theory Prelude
  imports Main "HOL-Library.Word" "HOL-Library.Sublist"
begin

text \<open>
  Shared material of the development: the width of the machine integers, the faults that stand
  for undefined behaviour of the C++ code, the collections of rewrite rules the component
  theories feed and use, and generic lemmas on lists, options and sums.

  \<^item> \<open>size_t\<close>, \<open>uint64_t\<close> and \<open>unsigned long\<close> are 64 bits wide (LP64 Linux, the only platform
    the build supports), \<open>std::string\<close> is a list of bytes (\<open>char list\<close>).
  \<^item> Time points of the C++ clocks are integers in nanoseconds since the epoch of the clock.
\<close>

section \<open>Types shared by all components\<close>

type_synonym size_t = "64 word"
type_synonym u64 = "64 word"
type_synonym u32 = "32 word"
type_synonym u16 = "16 word"
type_synonym sock = int
type_synonym nanos = int

text \<open>
  A fault is a step whose meaning the C++ standard does not define, or a loop that does not
  return. The model stops with the fault instead of inventing a result.
\<close>

datatype fault =
    PastEndIterator   \<comment> \<open>an iterator moved past \<open>end()\<close>\<close>
  | FdSetRange        \<comment> \<open>\<open>FD_SET\<close> outside \<open>[0, FD_SETSIZE)\<close>\<close>
  | Diverges          \<comment> \<open>a loop that does not return\<close>
  | OutOfBounds       \<comment> \<open>an access outside of a buffer\<close>
  | NullDeref         \<comment> \<open>a null pointer followed\<close>
  | SelfJoin          \<comment> \<open>a thread joined by itself, in a destructor\<close>

section \<open>Collections of rewrite rules\<close>

named_theorems frame_simps "fields an operation leaves alone"
named_theorems trace_simps "the calls an operation adds to the trace"
named_theorems eval_simps "definitions unfolded to evaluate a concrete run"

section \<open>Sums as results with an error\<close>

definition bind_sum :: "'e + 'a \<Rightarrow> ('a \<Rightarrow> 'e + 'b) \<Rightarrow> 'e + 'b" where
  "bind_sum m f = (case m of Inl e \<Rightarrow> Inl e | Inr a \<Rightarrow> f a)"

lemma bind_sum_simps [simp]:
  "bind_sum (Inl e) f = Inl e"
  "bind_sum (Inr a) f = f a"
  by (simp_all add: bind_sum_def)

lemma bind_sum_InrE [elim!]:
  assumes "bind_sum m f = Inr b"
  obtains a where "m = Inr a" and "f a = Inr b"
  using assms by (cases m) auto

lemma bind_sum_Inl_iff:
  "bind_sum m f = Inl e \<longleftrightarrow> m = Inl e \<or> (\<exists>a. m = Inr a \<and> f a = Inl e)"
  by (cases m) auto

section \<open>Generic lemmas\<close>

lemma take_drop_middle:
  "take (length p) (drop i s) = p \<Longrightarrow> s = take i s @ p @ drop (i + length p) s"
  by (metis add.commute append_take_drop_id drop_drop)

lemma count_list_append_single [simp]:
  "count_list (xs @ ys) x = count_list xs x + count_list ys x"
  by (induction xs) auto

lemma count_list_take_drop:
  "count_list (take n xs) x + count_list (drop n xs) x = count_list xs x"
  by (metis append_take_drop_id count_list_append_single)

lemma distinct_adj_snoc:
  "distinct_adj (xs @ [x]) \<longleftrightarrow> distinct_adj xs \<and> (xs = [] \<or> last xs \<noteq> x)"
  by (cases xs rule: rev_cases) (auto simp: distinct_adj_append_iff)

lemma distinct_adj_tl: "distinct_adj xs \<Longrightarrow> distinct_adj (tl xs)"
  by (cases xs) (auto dest: distinct_adj_ConsD)

end
