(* ===== verification/CppString.thy ===== *)
theory CppString
  imports Prelude
begin

text \<open>
  The operations of \<open>std::string\<close>, \<open>std::format\<close> and the stream manipulators that the sources
  use, on byte lists. A search returns \<open>None\<close> where C++ returns \<open>npos\<close>; the loops that compute
  with \<open>npos\<close> itself use the \<open>size_t\<close> versions at the end.
\<close>

section \<open>Searching\<close>

fun str_find :: "'a list \<Rightarrow> 'a list \<Rightarrow> nat option" where
  "str_find pat [] = (if pat = [] then Some 0 else None)"
| "str_find pat (c # s) =
     (if take (length pat) (c # s) = pat then Some 0 else map_option Suc (str_find pat s))"

fun str_find_char :: "'a \<Rightarrow> 'a list \<Rightarrow> nat option" where
  "str_find_char c [] = None"
| "str_find_char c (d # s) = (if d = c then Some 0 else map_option Suc (str_find_char c s))"

definition str_find_last :: "'a \<Rightarrow> 'a list \<Rightarrow> nat option" where
  "str_find_last c s = map_option (\<lambda>i. length s - 1 - i) (str_find_char c (rev s))"

definition str_contains :: "'a list \<Rightarrow> 'a list \<Rightarrow> bool" where
  "str_contains pat s \<longleftrightarrow> str_find pat s \<noteq> None"

definition starts_with :: "'a list \<Rightarrow> 'a list \<Rightarrow> bool" where
  "starts_with s pre \<longleftrightarrow> take (length pre) s = pre"

lemma str_find_Some:
  "str_find pat s = Some i \<Longrightarrow> take (length pat) (drop i s) = pat \<and> i + length pat \<le> length s"
proof (induction pat s arbitrary: i rule: str_find.induct)
  case (2 pat c s)
  show ?case
  proof (cases "take (length pat) (c # s) = pat")
    case True
    then have "length pat \<le> length (c # s)"
      by (metis length_take min.absorb_iff2 min.commute)
    with True 2 show ?thesis by (simp split: if_splits)
  next
    case False
    with 2 show ?thesis by (auto split: if_splits)
  qed
qed (auto split: if_splits)

lemma str_find_split:
  "str_find pat s = Some i \<Longrightarrow> s = take i s @ pat @ drop (i + length pat) s"
  by (rule take_drop_middle) (simp add: str_find_Some)

lemma str_find_None: "str_find pat s = None \<longleftrightarrow> \<not> sublist pat s"
proof (induction pat s rule: str_find.induct)
  case (2 pat c s)
  have "take (length pat) (c # s) = pat \<longleftrightarrow> prefix pat (c # s)"
    by (metis append_eq_conv_conj append_take_drop_id prefix_def)
  with 2 show ?case by (auto simp: sublist_Cons_right)
qed auto

lemma str_contains_sublist: "str_contains pat s \<longleftrightarrow> sublist pat s"
  by (simp add: str_contains_def str_find_None)

text \<open>The match found is the first one: nothing matches across an earlier position.\<close>

lemma str_find_least:
  "str_find pat s = Some i \<Longrightarrow> j < i \<Longrightarrow> take (length pat) (drop j s) \<noteq> pat"
proof (induction pat s arbitrary: i j rule: str_find.induct)
  case (2 pat c s)
  then show ?case by (cases j) (auto split: if_splits)
qed (auto split: if_splits)

lemma str_find_char_Some:
  "str_find_char c s = Some i \<Longrightarrow>
     i < length s \<and> s ! i = c \<and> c \<notin> set (take i s) \<and> s = take i s @ c # drop (Suc i) s"
  by (induction s arbitrary: i) (auto split: if_splits)

lemma str_find_char_None: "str_find_char c s = None \<longleftrightarrow> c \<notin> set s"
  by (induction s) auto

lemma str_find_char_notin [simp]: "c \<notin> set s \<Longrightarrow> str_find_char c s = None"
  by (simp add: str_find_char_None)

lemma str_find_char_in: "str_find_char c s = Some i \<Longrightarrow> c \<in> set s"
  using str_find_char_None [of c s] by (cases "c \<in> set s") auto

lemma str_find_char_append:
  "c \<notin> set u \<Longrightarrow> str_find_char c (u @ c # v) = Some (length u)"
  by (induction u) auto

section \<open>Modifying\<close>

definition str_erase :: "nat \<Rightarrow> nat \<Rightarrow> 'a list \<Rightarrow> 'a list" where
  "str_erase pos n s = take pos s @ drop (pos + n) s"

definition str_substr :: "nat \<Rightarrow> nat \<Rightarrow> 'a list \<Rightarrow> 'a list" where
  "str_substr pos n s = take n (drop pos s)"

lemma length_str_erase: "pos + n \<le> length s \<Longrightarrow> length (str_erase pos n s) = length s - n"
  by (simp add: str_erase_def)

lemma length_str_erase_less: "pos < length s \<Longrightarrow> 0 < n \<Longrightarrow> length (str_erase pos n s) < length s"
  by (simp add: str_erase_def)

lemma set_str_erase: "set (str_erase pos n s) \<subseteq> set s"
  by (auto simp: str_erase_def dest: in_set_takeD in_set_dropD)

lemma str_erase_middle [simp]: "str_erase (length u) n (u @ v) = u @ drop n v"
  by (simp add: str_erase_def)

lemma subseq_str_erase: "subseq (str_erase pos n s) s"
proof -
  have "subseq (drop n (drop pos s)) (drop pos s)"
    by (rule suffix_imp_subseq) (rule suffix_drop)
  then have "subseq (take pos s @ drop n (drop pos s)) (take pos s @ drop pos s)"
    by (simp only: subseq_append')
  then show ?thesis by (simp add: str_erase_def add.commute)
qed

section \<open>Formatting\<close>

text \<open>\<open>{:<w}\<close>, \<open>{:f<w}\<close>, \<open>{:f>w}\<close> of \<open>std::format\<close> and \<open>std::setw(w)\<close> of a stream.\<close>

definition pad_right :: "char \<Rightarrow> nat \<Rightarrow> string \<Rightarrow> string" where
  "pad_right f w s = s @ replicate (w - length s) f"

definition pad_left :: "char \<Rightarrow> nat \<Rightarrow> string \<Rightarrow> string" where
  "pad_left f w s = replicate (w - length s) f @ s"

fun dec_digits :: "nat \<Rightarrow> string" where
  "dec_digits n = (if n < 10 then [char_of (48 + n)]
                   else dec_digits (n div 10) @ [char_of (48 + n mod 10)])"

declare dec_digits.simps [simp del]

definition dec_of_nat :: "nat \<Rightarrow> string" where
  "dec_of_nat n = dec_digits n"

definition dec_of_int :: "int \<Rightarrow> string" where
  "dec_of_int i = (if i < 0 then CHR ''-'' # dec_of_nat (nat (- i)) else dec_of_nat (nat i))"

text \<open>The texts of a list with a separator between them.\<close>

fun join_with :: "string \<Rightarrow> string list \<Rightarrow> string" where
  "join_with sep [] = []"
| "join_with sep [x] = x"
| "join_with sep (x # y # xs) = x @ sep @ join_with sep (y # xs)"

definition c_str :: "string \<Rightarrow> string" where
  "c_str s = takeWhile (\<lambda>c. c \<noteq> CHR 0x00) s"

lemma length_pad [simp]:
  "length (pad_right f w s) = max w (length s)"
  "length (pad_left f w s) = max w (length s)"
  by (simp_all add: pad_right_def pad_left_def)

lemma c_str_no_nul [simp]: "CHR 0x00 \<notin> set s \<Longrightarrow> c_str s = s"
  by (induction s) (auto simp: c_str_def)

lemma nul_c_str [simp]: "CHR 0x00 \<notin> set (c_str s)"
  by (auto simp: c_str_def dest: set_takeWhileD)

section \<open>Searching with \<open>npos\<close>\<close>

definition npos :: size_t where
  "npos = - 1"

definition sz_find_char :: "'a \<Rightarrow> 'a list \<Rightarrow> size_t" where
  "sz_find_char c s = (case str_find_char c s of None \<Rightarrow> npos | Some i \<Rightarrow> of_nat i)"

definition sz_length :: "'a list \<Rightarrow> size_t" where
  "sz_length s = of_nat (length s)"

section \<open>Integers in memory\<close>

text \<open>The bytes of a 32-bit integer, least significant first, and the number they stand for.\<close>

fun le_nat :: "string \<Rightarrow> nat" where
  "le_nat [] = 0"
| "le_nat (c # cs) = of_char c + 256 * le_nat cs"

definition le_bytes :: "u32 \<Rightarrow> string" where
  "le_bytes x = map (\<lambda>i. char_of (unat (drop_bit (8 * i) x) mod 256)) [0..<4]"

lemma le_bytes_unfold:
  "le_bytes x = [char_of (unat x mod 256), char_of (unat x div 2 ^ 8 mod 256),
     char_of (unat x div 2 ^ 16 mod 256), char_of (unat x div 2 ^ 24 mod 256)]"
  by (simp add: le_bytes_def upt_rec drop_bit_eq_div unat_div)

lemma length_le_bytes [simp]: "length (le_bytes x) = 4"
  by (simp add: le_bytes_def)

lemma base_256:
  fixes n :: nat
  assumes "n < 2 ^ 32"
  shows "n mod 256 + 256 * (n div 2 ^ 8 mod 256 + 256 * (n div 2 ^ 16 mod 256 + 256 * (n div 2 ^ 24 mod 256))) = n"
proof -
  have "n div 2 ^ 24 < 256" using assms by (simp add: less_mult_imp_div_less)
  then have a: "n div 2 ^ 24 mod 256 = n div 2 ^ 24" by simp
  have b: "n div 2 ^ 24 = n div 2 ^ 16 div 256" "n div 2 ^ 16 = n div 2 ^ 8 div 256" "n div 2 ^ 8 = n div 256"
    by (simp_all add: div_mult2_eq [symmetric])
  have "n div 2 ^ 16 mod 256 + 256 * (n div 2 ^ 24) = n div 2 ^ 16"
    unfolding b(1) by (metis add.commute mult_div_mod_eq)
  moreover have "n div 2 ^ 8 mod 256 + 256 * (n div 2 ^ 16) = n div 2 ^ 8"
    unfolding b(2) by (metis add.commute mult_div_mod_eq)
  moreover have "n mod 256 + 256 * (n div 2 ^ 8) = n"
    unfolding b(3) by (metis add.commute mult_div_mod_eq)
  ultimately show ?thesis using a by simp
qed

lemma le_nat_le_bytes [simp]: "le_nat (le_bytes x) = unat x"
proof -
  have "unat x < 2 ^ LENGTH(32)" by (rule unsigned_less)
  then show ?thesis using base_256 [of "unat x"] by (simp add: le_bytes_unfold)
qed

end
