(* ===== verification/ErrorHelpers.thy ===== *)
theory ErrorHelpers
  imports CppString
begin

text \<open>
  \<open>include/utils/ErrorHelpers.hpp\<close>, \<open>src/utils/ErrorHelpers.cpp\<close>: the text of an \<open>errno\<close>. There are
  two \<open>strerror_r\<close>: the one of POSIX returns a code and writes into the buffer, the one of GNU returns
  the text, which may be elsewhere. \<open>strerror_answer\<close> is what the library gave, \<open>checkError\<close> the overload
  its type selects. (\<open>vCheckFlag\<close>, declared in the same header, is a field of the world.)
\<close>

datatype strerror_answer =
    XsiAnswer int string       \<comment> \<open>the code returned, the buffer\<close>
  | GnuAnswer string string    \<comment> \<open>the text returned, the buffer\<close>

fun checkError :: "strerror_answer \<Rightarrow> string" where
  "checkError (XsiAnswer code buffer) = buffer"
| "checkError (GnuAnswer result buffer) = result"

definition getErrnoString :: "strerror_answer \<Rightarrow> string" where
  "getErrnoString answer = c_str (checkError answer)"

text \<open>Both forms end at the first null byte, as \<open>std::string\<close> copies a C string.\<close>

lemma getErrnoString_simps [simp]:
  "getErrnoString (XsiAnswer code buffer) = c_str buffer"
  "getErrnoString (GnuAnswer result buffer) = c_str result"
  by (simp_all add: getErrnoString_def)

end
