(* ===== verification/World.thy ===== *)
theory World
  imports ErrorHelpers
begin

text \<open>
  The outside of the program. What the sources call but do not define (the kernel, the clocks,
  spdlog, prometheus-cpp, the constants of the generated \<open>Version.h\<close>) is not modelled: a call
  is recorded in a trace, and what it returns is a parameter of the model, a function of the
  trace up to that point. So every definition holds for every behaviour of that code.
\<close>

section \<open>spdlog levels\<close>

text \<open>The enumeration \<open>spdlog::level::level_enum\<close>, in its order (\<open>trace\<close> is 0, \<open>off\<close> is 6).\<close>

datatype log_level = trace | debug | info | warn | err | critical | off

fun level_num :: "log_level \<Rightarrow> nat" where
  "level_num trace = 0"
| "level_num debug = 1"
| "level_num info = 2"
| "level_num warn = 3"
| "level_num err = 4"
| "level_num critical = 5"
| "level_num off = 6"

lemma level_num_inject [simp]: "level_num a = level_num b \<longleftrightarrow> a = b"
  by (cases a; cases b) simp_all

instantiation log_level :: linorder
begin

definition less_eq_log_level :: "log_level \<Rightarrow> log_level \<Rightarrow> bool" where
  "less_eq_log_level a b \<longleftrightarrow> level_num a \<le> level_num b"

definition less_log_level :: "log_level \<Rightarrow> log_level \<Rightarrow> bool" where
  "less_log_level a b \<longleftrightarrow> level_num a < level_num b"

instance
  by standard (auto simp: less_eq_log_level_def less_log_level_def)

end

section \<open>Metrics\<close>

text \<open>
  The calls on prometheus-cpp objects. A metric is named by its full registered name. The values
  are integers converted to \<open>double\<close>: \<open>dbl\<close> rounds to 53 significant bits, ties to even.
\<close>

fun excess_bits :: "nat \<Rightarrow> nat" where
  "excess_bits n = (if n < 2 ^ 53 then 0 else Suc (excess_bits (n div 2)))"

declare excess_bits.simps [simp del]

definition dbl_nat :: "nat \<Rightarrow> nat" where
  "dbl_nat n =
     (let e = excess_bits n; q = n div 2 ^ e; r = n mod 2 ^ e in
      (if e \<noteq> 0 \<and> (r > 2 ^ (e - 1) \<or> (r = 2 ^ (e - 1) \<and> odd q)) then q + 1 else q) * 2 ^ e)"

definition dbl :: "int \<Rightarrow> int" where
  "dbl x = sgn x * int (dbl_nat (nat \<bar>x\<bar>))"

lemma dbl_exact: "\<bar>x\<bar> < 2 ^ 53 \<Longrightarrow> dbl x = x"
  by (subst dbl_def, subst dbl_nat_def, subst excess_bits.simps)
    (auto simp: nat_less_iff sgn_if)

datatype metric_kind = KCounter | KGauge | KSummary | KInfo

datatype metric_call =
    Register metric_kind string string             \<comment> \<open>kind, name, help text\<close>
  | InfoAdd string "(string \<times> string) list"         \<comment> \<open>labels of an info metric\<close>
  | CounterIncrement string int
  | GaugeIncrement string
  | GaugeDecrement string
  | GaugeSet string int
  | GaugeSetQuotient string int int             \<comment> \<open>the \<open>double\<close> \<open>100 * a / b\<close>\<close>
  | GaugeSetNow string                          \<comment> \<open>\<open>SetToCurrentTime\<close>\<close>
  | SummaryObserve string int

section \<open>Calls\<close>

text \<open>The calls of cppzmq; the flag says whether the call returned, an exception otherwise.\<close>

datatype zmq_call =
    ZSocket string bool               \<comment> \<open>type of the socket\<close>
  | ZOption string int
  | ZBind string bool
  | ZConnect string bool
  | ZUnbind string bool
  | ZDisconnect string bool
  | ZRecv "string list"
  | ZSend "string list" nat           \<comment> \<open>parts handed over, parts reported sent\<close>
  | ZMonitorInit string bool
  | ZMonitorAbort

text \<open>Crashpad, inotify, signals and libcurl's global state.\<close>

datatype sys_call =
    CrashDatabase string bool
  | CrashUploads
  | CrashHandler string string bool   \<comment> \<open>executable, report directory\<close>
  | InotifyInit int
  | InotifyAdd int int                \<comment> \<open>descriptor, watch\<close>
  | InotifyRemove int int bool
  | NonBlocking int bool
  | CloseFd int bool
  | InotifyRead int int               \<comment> \<open>descriptor, result of \<open>read\<close>\<close>
  | Notify                            \<comment> \<open>the callback of a file monitor\<close>
  | ThreadStart
  | Signal string bool
  | Alarm nat
  | CurlInit int
  | CurlCleanup
  | IfNameToIndex string int
  | BindDevice int string int         \<comment> \<open>\<open>SO_BINDTODEVICE\<close>: socket, interface, result\<close>
  | RawWrite int string int           \<comment> \<open>socket, bytes, result\<close>
  | RawRead int nat int               \<comment> \<open>socket, buffer size, result\<close>

text \<open>The handle of a libcurl easy session.\<close>

datatype curl_call =
    CurlHandle bool                   \<comment> \<open>\<open>curl_easy_init\<close>, whether it returned a handle\<close>
  | CurlLong string int               \<comment> \<open>an option with a number\<close>
  | CurlUrl string
  | CurlPostFields string
  | CurlWriteFunction
  | CurlWriteData
  | CurlPerform int                   \<comment> \<open>result\<close>
  | CurlInfo string
  | CurlFree

text \<open>The logger registry of spdlog and the Sentry client.\<close>

datatype sink_call =
    AddSink string
  | DefaultLogger string
  | FlushEvery nat
  | FlushLogger
  | DropLogger string
  | SentryInit string string          \<comment> \<open>release, address\<close>
  | SentryTag string string
  | SentryContext string "(string \<times> string) list"
  | SentryEvent string string         \<comment> \<open>level, text\<close>
  | SentryClose

datatype call =
    Recv sock nat int             \<comment> \<open>socket, buffer size, result\<close>
  | Send sock string int          \<comment> \<open>socket, bytes, result\<close>
  | Shutdown sock
  | Close sock
  | SetNonBlocking sock
  | Accept sock int
  | Select sock int
  | GetAddrInfo string int
  | FreeAddrInfo
  | Socket int                    \<comment> \<open>result: the descriptor or -1\<close>
  | SetSockOpt sock int
  | Bind sock int
  | Listen sock int
  | Join                          \<comment> \<open>a \<open>std::jthread\<close> asked to stop and joined\<close>
  | Clock nanos                   \<comment> \<open>a clock was read\<close>
  | Log log_level string          \<comment> \<open>a log line\<close>
  | SetLevel log_level
  | Metric metric_call
  | Zmq zmq_call
  | Sys sys_call
  | Curl curl_call
  | Sink sink_call
  | FlagSet nat                   \<comment> \<open>\<open>test_and_set\<close> on a runtime check flag\<close>

datatype recv_result =
    RecvData string               \<comment> \<open>bytes, at most as many as the buffer holds\<close>
  | RecvClosed                    \<comment> \<open>0: the peer closed its side\<close>
  | RecvAgain                     \<comment> \<open>-1 with \<open>EAGAIN\<close>\<close>
  | RecvError                     \<comment> \<open>-1 with any other \<open>errno\<close>\<close>

record env =
  e_send :: "call list \<Rightarrow> sock \<Rightarrow> string \<Rightarrow> int"
  e_recv :: "call list \<Rightarrow> sock \<Rightarrow> recv_result"
  e_accept :: "call list \<Rightarrow> sock \<Rightarrow> int"
  e_select :: "call list \<Rightarrow> sock \<Rightarrow> int"
  e_getaddrinfo :: "call list \<Rightarrow> string \<Rightarrow> int"
  e_socket :: "call list \<Rightarrow> int"
  e_setsockopt :: "call list \<Rightarrow> sock \<Rightarrow> int"
  e_bind :: "call list \<Rightarrow> sock \<Rightarrow> int"
  e_listen :: "call list \<Rightarrow> sock \<Rightarrow> int"
  e_clock :: "call list \<Rightarrow> nanos"
  e_getpeername :: "call list \<Rightarrow> sock \<Rightarrow> (8 word \<times> 8 word \<times> 8 word \<times> 8 word) option"
    \<comment> \<open>the four bytes of the IPv4 address, None when the call fails\<close>
  e_gauge :: "call list \<Rightarrow> string \<Rightarrow> int"
  e_time_iso :: "call list \<Rightarrow> string"    \<comment> \<open>the current time as \<open>date::format\<close> prints it\<close>
  e_version :: string             \<comment> \<open>\<open>PROJECT_FULL_VERSION_STRING\<close>\<close>
  e_ndebug :: bool                \<comment> \<open>\<open>NDEBUG\<close> defined\<close>

text \<open>
  The state of the process the components share: the trace of calls and the table \<open>vCheckFlag\<close>
  (\<open>utils/ErrorHelpers.cpp\<close>) of service names and their flags.
\<close>

record world =
  calls :: "call list"
  vCheckFlag :: "(string \<times> bool) list"

definition emit :: "call \<Rightarrow> world \<Rightarrow> world" where
  "emit c w = w\<lparr>calls := calls w @ [c]\<rparr>"

definition emits :: "call list \<Rightarrow> world \<Rightarrow> world" where
  "emits cs w = w\<lparr>calls := calls w @ cs\<rparr>"

definition read_clock :: "env \<Rightarrow> world \<Rightarrow> nanos \<times> world" where
  "read_clock E w = (let t = e_clock E (calls w) in (t, emit (Clock t) w))"

text \<open>\<open>test_and_set\<close> on the flag a component was given; a null pointer is skipped.\<close>

definition set_flag :: "nat option \<Rightarrow> world \<Rightarrow> world" where
  "set_flag flag w = (case flag of
     None \<Rightarrow> w
   | Some i \<Rightarrow>
       (if i < length (vCheckFlag w)
        then emit (FlagSet i) (w\<lparr>vCheckFlag := (vCheckFlag w)[i := (fst (vCheckFlag w ! i), True)]\<rparr>)
        else w))"

text \<open>\<open>alarmFunc\<close> of \<open>src/main.cpp\<close> clears every flag.\<close>

definition clear_flags :: "world \<Rightarrow> world" where
  "clear_flags w = w\<lparr>vCheckFlag := map (\<lambda>(name, flag). (name, False)) (vCheckFlag w)\<rparr>"

lemma emit_simps [simp]:
  "calls (emit c w) = calls w @ [c]"
  "vCheckFlag (emit c w) = vCheckFlag w"
  "calls (emits cs w) = calls w @ cs"
  "vCheckFlag (emits cs w) = vCheckFlag w"
  by (simp_all add: emit_def emits_def)

lemma emits_Nil [simp]: "emits [] w = w"
  by (simp add: emits_def)

lemma emits_emits [simp]: "emits ds (emits cs w) = emits (cs @ ds) w"
  by (simp add: emits_def)

lemma emit_emits: "emit c w = emits [c] w"
  by (simp add: emits_def emit_def)

text \<open>The time \<open>duration_cast\<close> to seconds truncates towards zero.\<close>

definition trunc_div :: "int \<Rightarrow> int \<Rightarrow> int" where
  "trunc_div a b = sgn a * (\<bar>a\<bar> div b)"

definition seconds :: "nanos \<Rightarrow> int" where
  "seconds d = trunc_div d 1000000000"

lemma abs_seconds: "\<bar>seconds d\<bar> = \<bar>d\<bar> div 1000000000"
  by (cases "d = 0")
    (simp_all add: seconds_def trunc_div_def abs_mult abs_sgn_eq pos_imp_zdiv_nonneg_iff)

section \<open>Sockets a call touches, bytes sent\<close>

fun call_sock :: "call \<Rightarrow> sock option" where
  "call_sock (Recv s n r) = Some s"
| "call_sock (Send s b r) = Some s"
| "call_sock (Shutdown s) = Some s"
| "call_sock (Close s) = Some s"
| "call_sock (SetNonBlocking s) = Some s"
| "call_sock (Accept s r) = Some s"
| "call_sock (Select s r) = Some s"
| "call_sock (SetSockOpt s r) = Some s"
| "call_sock (Bind s r) = Some s"
| "call_sock (Listen s r) = Some s"
| "call_sock _ = None"

definition only_sock :: "sock \<Rightarrow> call list \<Rightarrow> bool" where
  "only_sock s cs \<longleftrightarrow> (\<forall>c \<in> set cs. call_sock c = None \<or> call_sock c = Some s)"

lemma only_sock_simps [simp]:
  "only_sock s []"
  "only_sock s (c # cs) \<longleftrightarrow> (call_sock c = None \<or> call_sock c = Some s) \<and> only_sock s cs"
  "only_sock s (cs @ ds) \<longleftrightarrow> only_sock s cs \<and> only_sock s ds"
  by (auto simp: only_sock_def)

text \<open>The bytes the successful sends of a trace report.\<close>

fun sent_bytes :: "call list \<Rightarrow> int" where
  "sent_bytes [] = 0"
| "sent_bytes (Send s b r # cs) = max 0 r + sent_bytes cs"
| "sent_bytes (_ # cs) = sent_bytes cs"

lemma sent_bytes_append [simp]: "sent_bytes (cs @ ds) = sent_bytes cs + sent_bytes ds"
  by (induction cs rule: sent_bytes.induct) auto

text \<open>The sockets a trace closes, in order.\<close>

fun closes :: "call list \<Rightarrow> sock list" where
  "closes [] = []"
| "closes (Close s # cs) = s # closes cs"
| "closes (_ # cs) = closes cs"

lemma closes_append [simp]: "closes (cs @ ds) = closes cs @ closes ds"
  by (induction cs rule: closes.induct) auto

text \<open>The sockets a trace opens: the results of \<open>socket\<close> and \<open>accept\<close> that are not -1.\<close>

fun opens :: "call list \<Rightarrow> sock list" where
  "opens [] = []"
| "opens (Socket fd # cs) = (if fd = - 1 then opens cs else fd # opens cs)"
| "opens (Accept s fd # cs) = (if fd = - 1 then opens cs else fd # opens cs)"
| "opens (_ # cs) = opens cs"

lemma opens_append [simp]: "opens (cs @ ds) = opens cs @ opens ds"
  by (induction cs rule: opens.induct) auto

lemma metric_calls [simp]:
  "closes (map Metric ms) = []"
  "opens (map Metric ms) = []"
  "only_sock s (map Metric ms)"
  "sent_bytes (map Metric ms) = 0"
  by (induction ms) auto

section \<open>What gauges and counters hold\<close>

text \<open>
  The value a trace leaves in a gauge and in a counter, as prometheus-cpp documents them: both
  start at 0, \<open>Set\<close> stores, \<open>Increment\<close> and \<open>Decrement\<close> add. \<open>gauge_law\<close> says that \<open>Value()\<close>
  reads this; it is a hypothesis of the theorems that depend on it, never built into a definition.
\<close>

fun gauge_after :: "string \<Rightarrow> int \<Rightarrow> call \<Rightarrow> int" where
  "gauge_after g v (Metric (GaugeSet h x)) = (if g = h then x else v)"
| "gauge_after g v (Metric (GaugeIncrement h)) = (if g = h then v + 1 else v)"
| "gauge_after g v (Metric (GaugeDecrement h)) = (if g = h then v - 1 else v)"
| "gauge_after g v _ = v"

definition gauge_of :: "string \<Rightarrow> call list \<Rightarrow> int" where
  "gauge_of g cs = foldl (gauge_after g) 0 cs"

fun counter_after :: "string \<Rightarrow> int \<Rightarrow> call \<Rightarrow> int" where
  "counter_after g v (Metric (CounterIncrement h x)) = (if g = h then v + x else v)"
| "counter_after g v _ = v"

definition counter_of :: "string \<Rightarrow> call list \<Rightarrow> int" where
  "counter_of g cs = foldl (counter_after g) 0 cs"

definition gauge_law :: "env \<Rightarrow> bool" where
  "gauge_law E \<longleftrightarrow> (\<forall>cs g. e_gauge E cs g = gauge_of g cs)"

lemma gauge_of_simps [simp]:
  "gauge_of g [] = 0"
  "gauge_of g (cs @ ds) = foldl (gauge_after g) (gauge_of g cs) ds"
  by (simp_all add: gauge_of_def)

lemma counter_of_simps [simp]:
  "counter_of g [] = 0"
  "counter_of g (cs @ ds) = foldl (counter_after g) (counter_of g cs) ds"
  by (simp_all add: counter_of_def)

lemma gauge_lawD: "gauge_law E \<Longrightarrow> e_gauge E cs g = gauge_of g cs"
  by (simp add: gauge_law_def)

end
