(* ===== verification/BaseStats.thy ===== *)
theory BaseStats
  imports World
begin

text \<open>
  \<open>src/utils/BaseServerStats.cpp\<close>: the command counters and the processing time metrics both
  servers report, and the contract of a pair of minimum/maximum gauges that
  \<open>BaseServerStats\<close>, \<open>TelnetStats\<close> and \<open>PerformanceTracker\<close> share.
\<close>

section \<open>A pair of minimum and maximum gauges\<close>

text \<open>
  \<open>observe\<close> feeds one value. Where the value counts (\<open>counts v\<close>), the minimum gauge becomes the
  smaller and the maximum gauge the larger of what it held and the value; otherwise both stay.
\<close>

locale minmax_gauges =
  fixes observe :: "env \<Rightarrow> int \<Rightarrow> world \<Rightarrow> world"
    and counts :: "int \<Rightarrow> bool"
    and min_name :: string
    and max_name :: string
  assumes observe_min: "gauge_law E \<Longrightarrow>
      gauge_of min_name (calls (observe E v w)) =
        (if counts v then min (gauge_of min_name (calls w)) v else gauge_of min_name (calls w))"
    and observe_max: "gauge_law E \<Longrightarrow>
      gauge_of max_name (calls (observe E v w)) =
        (if counts v then max (gauge_of max_name (calls w)) v else gauge_of max_name (calls w))"
begin

lemma fold_min:
  "gauge_law E \<Longrightarrow>
    gauge_of min_name (calls (fold (observe E) vs w)) =
      fold min (filter counts vs) (gauge_of min_name (calls w))"
  by (induction vs arbitrary: w) (auto simp: observe_min min.commute)

lemma fold_max:
  "gauge_law E \<Longrightarrow>
    gauge_of max_name (calls (fold (observe E) vs w)) =
      fold max (filter counts vs) (gauge_of max_name (calls w))"
  by (induction vs arbitrary: w) (auto simp: observe_max max.commute)

lemma range:
  assumes "gauge_law E"
  shows "gauge_of min_name (calls (fold (observe E) vs w)) =
      Min (insert (gauge_of min_name (calls w)) (set (filter counts vs)))"
    and "gauge_of max_name (calls (fold (observe E) vs w)) =
      Max (insert (gauge_of max_name (calls w)) (set (filter counts vs)))"
proof -
  have "fold min (filter counts vs) a = Min (insert a (set (filter counts vs)))" for a
    by (metis Min.set_eq_fold list.simps(15))
  moreover have "fold max (filter counts vs) a = Max (insert a (set (filter counts vs)))" for a
    by (metis Max.set_eq_fold list.simps(15))
  ultimately show
    "gauge_of min_name (calls (fold (observe E) vs w)) =
      Min (insert (gauge_of min_name (calls w)) (set (filter counts vs)))"
    "gauge_of max_name (calls (fold (observe E) vs w)) =
      Max (insert (gauge_of max_name (calls w)) (set (filter counts vs)))"
    by (simp_all only: fold_min [OF assms] fold_max [OF assms])
qed

end

section \<open>\<open>BaseServerStats\<close>\<close>

definition INT_MAX :: int where [eval_simps]: "INT_MAX = 2147483647"

definition metric :: "metric_call \<Rightarrow> world \<Rightarrow> world" where
  "metric m w = emit (Metric m) w"

lemma metric_simps [simp]:
  "calls (metric m w) = calls w @ [Metric m]"
  "vCheckFlag (metric m w) = vCheckFlag w"
  by (simp_all add: metric_def)

definition initBaseStats :: "string \<Rightarrow> world \<Rightarrow> world" where
  "initBaseStats name w =
     (let w = metric (Register KCounter (name @ ''succeeded_commands'') ''Number of succeeded commands'') w;
          w = metric (Register KCounter (name @ ''failed_commands'') ''Number of failed commands'') w;
          w = metric (Register KCounter (name @ ''received_commands'') ''Number of received commands'') w;
          w = metric (Register KSummary (name @ ''processing_time'') ''Command processing performance'') w;
          w = metric (Register KGauge (name @ ''maximum_processing_time'')
                ''Maximum value of the command processing performance'') w;
          w = metric (Register KGauge (name @ ''minimum_processing_time'')
                ''Minimum value of the command processing performance'') w
      in metric (GaugeSet (name @ ''minimum_processing_time'') INT_MAX) w)"

definition consumeBaseStats ::
    "env \<Rightarrow> string \<Rightarrow> u64 \<Rightarrow> u64 \<Rightarrow> int \<Rightarrow> world \<Rightarrow> world" where
  "consumeBaseStats E name succeeded failed processingTime w =
     (let w = metric (CounterIncrement (name @ ''succeeded_commands'') (dbl (uint succeeded))) w;
          w = metric (CounterIncrement (name @ ''failed_commands'') (dbl (uint failed))) w;
          w = metric (CounterIncrement (name @ ''received_commands'') (dbl (uint (succeeded + failed)))) w
      in if processingTime > 0
         then let w = metric (SummaryObserve (name @ ''processing_time'') processingTime) w;
                  w = metric (GaugeSet (name @ ''maximum_processing_time'')
                        (max (e_gauge E (calls w) (name @ ''maximum_processing_time'')) processingTime)) w
              in metric (GaugeSet (name @ ''minimum_processing_time'')
                   (min (e_gauge E (calls w) (name @ ''minimum_processing_time'')) processingTime)) w
         else w)"

interpretation base: minmax_gauges
  "\<lambda>E v. consumeBaseStats E name ok bad v" "\<lambda>v. 0 < v"
  "name @ ''minimum_processing_time''" "name @ ''maximum_processing_time''"
  for name ok bad
  by unfold_locales (auto simp: consumeBaseStats_def Let_def gauge_lawD)

lemma consumeBaseStats_counters:
  "counter_of (name @ ''succeeded_commands'') (calls (consumeBaseStats E name ok bad v w)) =
     counter_of (name @ ''succeeded_commands'') (calls w) + dbl (uint ok)"
  "counter_of (name @ ''failed_commands'') (calls (consumeBaseStats E name ok bad v w)) =
     counter_of (name @ ''failed_commands'') (calls w) + dbl (uint bad)"
  "counter_of (name @ ''received_commands'') (calls (consumeBaseStats E name ok bad v w)) =
     counter_of (name @ ''received_commands'') (calls w) + dbl (uint (ok + bad))"
  by (simp_all add: consumeBaseStats_def Let_def)

lemma consumeBaseStats_flags [simp]:
  "vCheckFlag (consumeBaseStats E name ok bad v w) = vCheckFlag w"
  by (simp add: consumeBaseStats_def Let_def)

section \<open>Reports\<close>

text \<open>A report never sends or touches a socket, and adds to the trace.\<close>

definition metrics_only :: "world \<Rightarrow> world \<Rightarrow> bool" where
  "metrics_only w w' \<longleftrightarrow> vCheckFlag w' = vCheckFlag w \<and>
     (\<exists>ms. calls w' = calls w @ map Metric ms)"

lemma metrics_only_refl [simp]: "metrics_only w w"
  unfolding metrics_only_def by (metis append_Nil2 list.map(1))

lemma metrics_only_metric: "metrics_only w v \<Longrightarrow> metrics_only w (metric m v)"
proof -
  assume "metrics_only w v"
  then obtain ms where "calls v = calls w @ map Metric ms" "vCheckFlag v = vCheckFlag w"
    by (auto simp: metrics_only_def)
  then have "calls (metric m v) = calls w @ map Metric (ms @ [m])" "vCheckFlag (metric m v) = vCheckFlag w"
    by simp_all
  then show ?thesis unfolding metrics_only_def by blast
qed

lemma metrics_only_trans: "metrics_only u v \<Longrightarrow> metrics_only v w \<Longrightarrow> metrics_only u w"
  unfolding metrics_only_def by (metis append.assoc map_append)

lemma metrics_only_base: "metrics_only w (consumeBaseStats E name ok bad v w)"
  by (simp add: consumeBaseStats_def Let_def metrics_only_metric)

lemma metrics_only_fold:
  "(\<And>x w. metrics_only w (f x w)) \<Longrightarrow> metrics_only w (fold f xs w)"
  by (induction xs arbitrary: w) (auto intro: metrics_only_trans)

lemma metrics_only_init: "metrics_only w (initBaseStats name w)"
  by (simp add: initBaseStats_def Let_def metrics_only_metric)

end
