(* ===== verification/Hasher.thy ===== *)
theory Hasher
  imports CppString
begin

unbundle bit_operations_syntax

text \<open>
  \<open>include/utils/Hasher.hpp\<close>: the string hash the command dispatchers switch on, and the
  compile-time seeder. \<open>char\<close> is signed (the x86-64 ABI the project builds for), so a byte above
  127 is sign-extended before it is added or combined.
\<close>

section \<open>\<open>constHasher\<close>\<close>

definition char_sz :: "char \<Rightarrow> size_t" where
  "char_sz c = scast (of_char c :: 8 word)"

fun constHasher :: "string \<Rightarrow> size_t" where
  "constHasher [] = 5381"
| "constHasher (c # s) = (if c \<noteq> CHR 0x00 then char_sz c + 33 * constHasher s else 5381)"

text \<open>The closed form the recursion computes: a polynomial in 33, from the first character up.\<close>

fun hash_poly :: "string \<Rightarrow> int" where
  "hash_poly [] = 5381"
| "hash_poly (c # s) = sint (of_char c :: 8 word) + 33 * hash_poly s"

lemma constHasher_c_str [simp]: "constHasher (c_str s) = constHasher s"
  by (induction s) (auto simp: c_str_def)

lemma constHasher_poly: "CHR 0x00 \<notin> set s \<Longrightarrow> constHasher s = of_int (hash_poly s)"
  by (induction s) (auto simp: char_sz_def)

text \<open>
  Two neighbouring characters can be exchanged for others without changing the hash: adding
  one to the second and taking 33 from the first cancels out.
\<close>

lemma constHasher_swap:
  assumes "char_sz c' = char_sz c - 33" and "char_sz d' = char_sz d + 1"
    and "c \<noteq> CHR 0x00" "d \<noteq> CHR 0x00" "c' \<noteq> CHR 0x00" "d' \<noteq> CHR 0x00"
  shows "constHasher (c' # d' # s) = constHasher (c # d # s)"
  using assms by (simp add: algebra_simps)

lemma constHasher_cong_prefix:
  "constHasher s = constHasher t \<Longrightarrow> CHR 0x00 \<notin> set p \<Longrightarrow> constHasher (p @ s) = constHasher (p @ t)"
  by (induction p) auto

section \<open>\<open>constSeeder\<close>\<close>

text \<open>
  One round of the loop. \<open>unsigned(~0) << 8\<close> is the 32-bit value \<open>0xFFFFFF00\<close>, which is
  zero-extended when it is combined with the 64-bit \<open>value\<close>.
\<close>

definition seed_round :: "u64 \<Rightarrow> char \<Rightarrow> u64" where
  "seed_round value c =
     (let value = (value AND ucast (push_bit 8 (- 1 :: u32))) OR ((value AND 0xFF) XOR char_sz c)
      in push_bit 8 value OR drop_bit 56 value)"

text \<open>\<open>entropy\<close> is the array of \<open>N\<close> characters, the terminating null included.\<close>

definition constSeeder :: "string \<Rightarrow> u64 \<Rightarrow> u64" where
  "constSeeder entropy iv = fold (\<lambda>c value. seed_round value c) entropy iv XOR iv"

definition ascii :: "char \<Rightarrow> bool" where
  "ascii c \<longleftrightarrow> of_char c < (128 :: nat)"

lemma ascii_iff: "ascii c \<longleftrightarrow> \<not> digit7 c"
  by (cases c) (auto simp: ascii_def of_char_def)

lemma bit_char_sz: "ascii c \<Longrightarrow> 7 \<le> n \<Longrightarrow> \<not> bit (char_sz c) n"
  unfolding ascii_iff char_sz_def
  by (auto simp: bit_signed_iff not_less of_char_def bit_horner_sum_bit_iff nth_Cons min_def
      split: nat.splits)

text \<open>The mask clears bits 32 to 63 of the running value, so a round leaves 40 bits at most.\<close>

lemma seed_round_low:
  assumes "ascii c" and "40 \<le> n"
  shows "\<not> bit (seed_round v c) n"
proof -
  have mask: "(65280 :: 64 word) = take_bit 16 65280" by simp
  have "\<not> bit (65280 :: 64 word) n"
    using assms(2) by (subst mask) (simp only: bit_take_bit_iff, simp)
  with assms bit_char_sz [OF assms(1), of "n - 8"] bit_char_sz [OF assms(1), of "56 + n"]
  show ?thesis by (auto simp: seed_round_def Let_def bit_simps)
qed

lemma fold_seed_low:
  "entropy \<noteq> [] \<Longrightarrow> ascii (last entropy) \<Longrightarrow> 40 \<le> n \<Longrightarrow>
     \<not> bit (fold (\<lambda>c value. seed_round value c) entropy iv) n"
  by (cases entropy rule: rev_cases) (simp_all add: seed_round_low)

text \<open>
  C40. The seeder never touches the upper 24 bits of the initial value: whatever text is given
  as entropy (a null-terminated array), bits 40 to 63 of the seed are those of \<open>iv\<close>, because the
  mask \<open>unsigned(~0) << 8\<close> is 32 bits wide.
\<close>

theorem constSeeder_keeps_upper_bits:
  "drop_bit 40 (constSeeder (s @ [CHR 0x00]) iv) = drop_bit 40 iv"
  by (rule bit_word_eqI)
    (simp add: constSeeder_def bit_simps seed_round_low ascii_def)

end
