(* ===== verification/ZeroMQ.thy ===== *)
theory ZeroMQ
  imports BaseStats Hasher
begin

text \<open>
  \<open>src/zeromq\<close>: the socket wrapper \<open>ZeroMQ\<close>, the event monitor \<open>ZeroMQMonitor\<close>, the statistics
  \<open>ZeroMQStats\<close> and the request server \<open>ZeroMQServer\<close> with its message callback. cppzmq and libzmq
  are parameters: what their calls return, whether they throw, and the numeric event codes.
  A message is its bytes.
\<close>

unbundle bit_operations_syntax

section \<open>The library below\<close>

datatype z_recv_result =
    ZMsgs "string list"                    \<comment> \<open>a complete multipart message\<close>
  | ZTimeout                               \<comment> \<open>nothing within the receive timeout\<close>
  | ZRecvThrow string

datatype z_send_result =
    ZSent "nat option" "string list"       \<comment> \<open>result, and the messages as the call leaves them\<close>
  | ZSendThrow string

record zmq_env =
  z_socket :: "call list \<Rightarrow> bool"
  z_bind :: "call list \<Rightarrow> string \<Rightarrow> bool"
  z_connect :: "call list \<Rightarrow> string \<Rightarrow> bool"
  z_unbind :: "call list \<Rightarrow> string \<Rightarrow> bool"
  z_disconnect :: "call list \<Rightarrow> string \<Rightarrow> bool"
  z_recv :: "call list \<Rightarrow> z_recv_result"
  z_send :: "call list \<Rightarrow> string list \<Rightarrow> z_send_result"
  z_monitor :: "call list \<Rightarrow> string \<Rightarrow> bool"
  z_failed :: u32                          \<comment> \<open>\<open>ZMQ_EVENT_HANDSHAKE_FAILED_NO_DETAIL\<close>\<close>
  z_succeeded :: u32                       \<comment> \<open>\<open>ZMQ_EVENT_HANDSHAKE_SUCCEEDED\<close>\<close>

definition zcall :: "zmq_call \<Rightarrow> world \<Rightarrow> world" where
  "zcall c w = emit (Zmq c) w"

definition logging :: "log_level \<Rightarrow> string \<Rightarrow> world \<Rightarrow> world" where
  "logging l msg w = emit (Log l msg) w"

lemma zcall_simps [simp]:
  "calls (zcall c w) = calls w @ [Zmq c]"
  "vCheckFlag (zcall c w) = vCheckFlag w"
  "calls (logging l m w) = calls w @ [Log l m]"
  "vCheckFlag (logging l m w) = vCheckFlag w"
  by (simp_all add: zcall_def logging_def)

section \<open>\<open>ZeroMQ\<close>\<close>

record zmq_socket =
  zIsActive :: bool
  zIsBinded :: bool
  zSocketAddr :: string

definition ZEROMQ_MSG_TIMEOUT_MS :: int where [eval_simps]: "ZEROMQ_MSG_TIMEOUT_MS = 1000"
definition ZEROMQ_HEARTBEAT_TIMEOUT_MS :: int where [eval_simps]: "ZEROMQ_HEARTBEAT_TIMEOUT_MS = 1000"

definition zmq_init ::
    "zmq_env \<Rightarrow> string \<Rightarrow> string \<Rightarrow> bool \<Rightarrow> world \<Rightarrow> (string + zmq_socket) \<times> world" where
  "zmq_init Z type addr isBind w =
     (let ok = z_socket Z (calls w);
          w = zcall (ZSocket type ok) w
      in if \<not> ok then (Inl ''zmq_socket'', w)
         else
           let w = zcall (ZOption ''linger'' 0) w;
               w = zcall (ZOption ''sndtimeo'' ZEROMQ_MSG_TIMEOUT_MS) w;
               w = zcall (ZOption ''rcvtimeo'' ZEROMQ_MSG_TIMEOUT_MS) w;
               w = zcall (ZOption ''heartbeat_ivl'' ZEROMQ_HEARTBEAT_TIMEOUT_MS) w;
               w = zcall (ZOption ''heartbeat_ttl'' (ZEROMQ_HEARTBEAT_TIMEOUT_MS * 3)) w;
               w = zcall (ZOption ''heartbeat_timeout'' ZEROMQ_HEARTBEAT_TIMEOUT_MS) w
           in (Inr \<lparr>zIsActive = False, zIsBinded = isBind, zSocketAddr = addr\<rparr>, w))"

definition zmq_start :: "zmq_env \<Rightarrow> zmq_socket \<Rightarrow> world \<Rightarrow> (string + bool) \<times> zmq_socket \<times> world" where
  "zmq_start Z s w =
     (if zIsActive s then (Inr False, s, w)
      else
        let addr = zSocketAddr s;
            (ok, w) = (if zIsBinded s
                       then let ok = z_bind Z (calls w) addr in (ok, zcall (ZBind addr ok) w)
                       else let ok = z_connect Z (calls w) addr in (ok, zcall (ZConnect addr ok) w))
        in if ok then (Inr True, s\<lparr>zIsActive := True\<rparr>, w) else (Inl ''zmq_start'', s, w))"

definition zmq_stop :: "zmq_env \<Rightarrow> zmq_socket \<Rightarrow> world \<Rightarrow> (string + unit) \<times> zmq_socket \<times> world" where
  "zmq_stop Z s w =
     (if \<not> zIsActive s then (Inr (), s, w)
      else
        let addr = zSocketAddr s;
            (ok, w) = (if zIsBinded s
                       then let ok = z_unbind Z (calls w) addr in (ok, zcall (ZUnbind addr ok) w)
                       else let ok = z_disconnect Z (calls w) addr in (ok, zcall (ZDisconnect addr ok) w))
        in if ok then (Inr (), s\<lparr>zIsActive := False\<rparr>, w) else (Inl ''zmq_stop'', s, w))"

definition recvMessages :: "zmq_env \<Rightarrow> zmq_socket \<Rightarrow> world \<Rightarrow> (string + string list) \<times> world" where
  "recvMessages Z s w =
     (if \<not> zIsActive s then (Inr [], logging warn ''Connection needs to starting'' w)
      else case z_recv Z (calls w) of
             ZRecvThrow e \<Rightarrow> (Inl e, zcall (ZRecv []) w)
           | ZTimeout \<Rightarrow> (Inr [], logging trace ''Received 0 messages'' (zcall (ZRecv []) w))
           | ZMsgs msgs \<Rightarrow>
               (Inr msgs, logging trace (''Received '' @ dec_of_nat (length msgs) @ '' messages'')
                  (zcall (ZRecv msgs) w)))"

definition sendMessages ::
    "zmq_env \<Rightarrow> zmq_socket \<Rightarrow> string list \<Rightarrow> world \<Rightarrow> (string + nat \<times> string list) \<times> world" where
  "sendMessages Z s msg w =
     (if \<not> zIsActive s then (Inr (0, msg), logging warn ''Connection needs to starting'' w)
      else case z_send Z (calls w) msg of
             ZSendThrow e \<Rightarrow> (Inl e, zcall (ZSend msg 0) w)
           | ZSent res left \<Rightarrow>
               (let n = (case res of None \<Rightarrow> 0 | Some n \<Rightarrow> n)
                in (Inr (n, left), zcall (ZSend msg n) w)))"

text \<open>The destructor: \<open>stop\<close>, an exception is logged.\<close>

definition zmq_destroy :: "zmq_env \<Rightarrow> zmq_socket \<Rightarrow> world \<Rightarrow> world" where
  "zmq_destroy Z s w =
     (case zmq_stop Z s w of
        (Inl e, s, w) \<Rightarrow> logging err (''Error while stopping ZeroMQ connection '' @ zSocketAddr s @ '' ('' @ e @ '')'') w
      | (Inr _, s, w) \<Rightarrow> w)"

section \<open>\<open>ZeroMQStats\<close>\<close>

record zmq_stats =
  zs_name :: string

definition ZeroMQStats :: "env \<Rightarrow> bool \<Rightarrow> string \<Rightarrow> world \<Rightarrow> string + zmq_stats \<times> world" where
  "ZeroMQStats E reg prependName w =
     (if \<not> reg then Inl ''Can't init ZeroMQ statistics. Registry is null''
      else
        let name = (if prependName = [] then ''zeromq_'' else prependName @ ''_zeromq_'');
            w = initBaseStats name w;
            info = take (length name - 1) name;
            w = metric (Register KInfo info ''ZeroMQ server information'') w;
            w = metric (InfoAdd info [(''init_time'', e_time_iso E (calls w))]) w;
            w = metric (InfoAdd info [(''performance_unit'', ''nanoseconds'')]) w;
            w = metric (Register KCounter (name @ ''succeeded_command_parts'')
                  ''Number of received succeeded message parts'') w;
            w = metric (Register KCounter (name @ ''failed_command_parts'')
                  ''Number of received failed message parts'') w;
            w = metric (Register KCounter (name @ ''total_command_parts'')
                  ''Number of received total message parts'') w;
            w = metric (Register KCounter (name @ ''uploaded_bytes'') ''Total uploaded bytes'') w;
            w = metric (Register KCounter (name @ ''downloaded_bytes'') ''Total downloaded bytes'') w
        in Inr (\<lparr>zs_name = name\<rparr>, w))"

definition count_part :: "string \<Rightarrow> bool \<Rightarrow> string \<Rightarrow> world \<Rightarrow> world" where
  "count_part name ok entry w =
     (let w = metric (CounterIncrement (name @ ''total_command_parts'') 1) w;
          w = metric (CounterIncrement (name @ ''downloaded_bytes'') (dbl (int (length entry)))) w
      in if ok then metric (CounterIncrement (name @ ''succeeded_command_parts'') 1) w
         else metric (CounterIncrement (name @ ''failed_command_parts'') 1) w)"

definition count_reply :: "string \<Rightarrow> string \<Rightarrow> world \<Rightarrow> world" where
  "count_reply name entry w =
     metric (CounterIncrement (name @ ''uploaded_bytes'') (dbl (int (length entry)))) w"

definition consumeZmqStats ::
    "env \<Rightarrow> zmq_stats \<Rightarrow> string list \<Rightarrow> string list \<Rightarrow> bool \<Rightarrow> int \<Rightarrow> world \<Rightarrow> world" where
  "consumeZmqStats E zs recvMsgs sendMsgs isSuccessful processingTime w =
     (let w = consumeBaseStats E (zs_name zs) (of_bool isSuccessful) (of_bool (\<not> isSuccessful))
                (dbl processingTime) w;
          w = fold (count_part (zs_name zs) isSuccessful) recvMsgs w
      in fold (count_reply (zs_name zs)) sendMsgs w)"

end
