(* ===== verification/ZeroMQServer.thy ===== *)
theory ZeroMQServer
  imports ZeroMQ
begin

text \<open>
  The event monitor (\<open>src/zeromq/ZeroMQMonitor.cpp\<close>) and the request server
  (\<open>src/zeromq/ZeroMQServer.cpp\<close>): the events it logs and counts, the message callback, one round
  of the server, its thread, start and shutdown.
\<close>

unbundle bit_operations_syntax

section \<open>\<open>ZeroMQMonitor\<close>\<close>

datatype zmq_event =
    MonitorStarted | Connected | ConnectDelayed | ConnectRetried | Listening | BindFailed
  | Accepted | AcceptFailed | Closed | CloseFailed | Disconnected
  | HandshakeFailedNoDetail | HandshakeFailedProtocol | HandshakeFailedAuth | HandshakeSucceeded
  | UnknownEvent

text \<open>\<open>on_event\<close>: a level other than the three it knows is ignored, no address prints as nothing.\<close>

definition on_event :: "string \<Rightarrow> log_level \<Rightarrow> string option \<Rightarrow> world \<Rightarrow> world" where
  "on_event messageStr level addr w =
     (if level \<in> {debug, info, warn}
      then logging level (messageStr @ '' '' @ (case addr of None \<Rightarrow> [] | Some a \<Rightarrow> a)) w
      else w)"

fun event_text :: "zmq_event \<Rightarrow> string \<times> log_level" where
  "event_text MonitorStarted = (''Monitor started'', info)"
| "event_text Connected = (''Connected'', info)"
| "event_text ConnectDelayed = (''Connect delayed'', debug)"
| "event_text ConnectRetried = (''Connect retried'', debug)"
| "event_text Listening = (''Listening'', debug)"
| "event_text BindFailed = (''Bind failed'', warn)"
| "event_text Accepted = (''Accepted'', info)"
| "event_text AcceptFailed = (''Accept failed'', warn)"
| "event_text Closed = (''Closed'', debug)"
| "event_text CloseFailed = (''Close failed'', warn)"
| "event_text Disconnected = (''Disconnected'', info)"
| "event_text HandshakeFailedNoDetail = (''Handshake failed (no detail)'', warn)"
| "event_text HandshakeFailedProtocol = (''Handshake failed (protocol)'', warn)"
| "event_text HandshakeFailedAuth = (''Handshake failed (auth)'', warn)"
| "event_text HandshakeSucceeded = (''Handshake succeeded'', info)"
| "event_text UnknownEvent = (''Unknown event'', warn)"

text \<open>The monitor is its peer counter, an \<open>atomic_int\<close>, which wraps.\<close>

definition monitor_event :: "zmq_event \<Rightarrow> string \<Rightarrow> u32 \<times> world \<Rightarrow> u32 \<times> world" where
  "monitor_event ev addr m =
     (case m of (peerCount, w) \<Rightarrow>
        ((case ev of Connected \<Rightarrow> peerCount + 1 | Disconnected \<Rightarrow> peerCount - 1 | _ \<Rightarrow> peerCount),
         on_event (fst (event_text ev)) (snd (event_text ev))
           (if ev = MonitorStarted then None else Some addr) w))"

definition getPeerCount :: "u32 \<Rightarrow> int" where
  "getPeerCount peerCount = sint peerCount"

definition startMonitoring :: "zmq_env \<Rightarrow> bool \<Rightarrow> string \<Rightarrow> world \<Rightarrow> (string + unit) \<times> world" where
  "startMonitoring Z socket_null monitorAddress w =
     (if socket_null then (Inl ''ZeroMQ socket to monitor is nullptr'', w)
      else let ok = z_monitor Z (calls w) monitorAddress;
               w = zcall (ZMonitorInit monitorAddress ok) w
           in if ok then (Inr (), emit (Sys ThreadStart) w) else (Inl ''zmq_monitor'', w))"

definition stopMonitoring :: "world \<Rightarrow> world" where
  "stopMonitoring w = logging info ''Monitor stopped'' (zcall ZMonitorAbort w)"

text \<open>
  The thread: one \<open>check_event\<close> for every test of the stop token, which handles an event or none.
\<close>

definition EVENT_CHECK_TIMEOUT_MS :: nat where [eval_simps]: "EVENT_CHECK_TIMEOUT_MS = 100"

fun monitor_thread :: "(zmq_event \<times> string) option list \<Rightarrow> u32 \<times> world \<Rightarrow> u32 \<times> world" where
  "monitor_thread [] m = m"
| "monitor_thread (None # answers) m = monitor_thread answers m"
| "monitor_thread (Some (ev, addr) # answers) m = monitor_thread answers (monitor_event ev addr m)"

text \<open>\<open>testInternals\<close> calls every handler but the first, with the handlers libzmq has since 4.3.\<close>

definition testInternals :: "u32 \<times> world \<Rightarrow> u32 \<times> world" where
  "testInternals m =
     fold (\<lambda>ev. monitor_event ev ''test_address'')
       [Connected, ConnectDelayed, ConnectRetried, Listening, BindFailed, Accepted, AcceptFailed, Closed,
        CloseFailed, Disconnected, HandshakeFailedNoDetail, HandshakeFailedProtocol, HandshakeFailedAuth,
        HandshakeSucceeded, UnknownEvent] m"

lemma monitor_thread_fold:
  "monitor_thread answers m = fold (\<lambda>(ev, addr). monitor_event ev addr) (map the (filter (\<lambda>a. a \<noteq> None) answers)) m"
  by (induction answers m rule: monitor_thread.induct) simp_all

text \<open>The counter is the difference of the two kinds of events it reacts to.\<close>

lemma monitor_events_count:
  "fst (fold (\<lambda>(ev, addr). monitor_event ev addr) evs (n, w)) =
     n + of_nat (count_list (map fst evs) Connected) - of_nat (count_list (map fst evs) Disconnected)"
  by (induction evs arbitrary: n w) (auto simp: monitor_event_def split: zmq_event.splits)

text \<open>What the thread leaves in the counter, and that the test hook leaves it as it was.\<close>

lemma monitor_thread_count:
  "fst (monitor_thread answers (n, w)) =
     n + of_nat (count_list (map fst (map the (filter (\<lambda>a. a \<noteq> None) answers))) Connected) -
     of_nat (count_list (map fst (map the (filter (\<lambda>a. a \<noteq> None) answers))) Disconnected)"
  unfolding monitor_thread_fold monitor_events_count ..

lemma testInternals_count: "fst (testInternals (n, w)) = n"
  by (simp add: testInternals_def monitor_event_def)

section \<open>The message callback\<close>

definition four_cc :: "char \<Rightarrow> char \<Rightarrow> char \<Rightarrow> char \<Rightarrow> u32" where
  "four_cc a b c d = of_char a OR push_bit 8 (of_char b) OR push_bit 16 (of_char c) OR push_bit 24 (of_char d)"

definition LOG_LEVEL_ID :: u32 where "LOG_LEVEL_ID = four_cc (CHR ''L'') (CHR ''O'') (CHR ''G'') (CHR ''L'')"
definition VERSION_INFO_ID :: u32 where "VERSION_INFO_ID = four_cc (CHR ''V'') (CHR ''E'') (CHR ''R'') (CHR ''I'')"
definition PING_PONG_ID :: u32 where "PING_PONG_ID = four_cc (CHR ''P'') (CHR ''I'') (CHR ''N'') (CHR ''G'')"
definition STATUS_CHECK_ID :: u32 where "STATUS_CHECK_ID = four_cc (CHR ''S'') (CHR ''C'') (CHR ''H'') (CHR ''K'')"

text \<open>A 32-bit integer in memory (little endian), read from a message.\<close>

definition read_u32 :: "string \<Rightarrow> fault + u32" where
  "read_u32 bytes = (if length bytes < 4 then Inl OutOfBounds else Inr (of_nat (le_nat (take 4 bytes))))"

definition log_request :: "env \<Rightarrow> string \<Rightarrow> world \<Rightarrow> world" where
  "log_request E receivedMsg w =
     (let w = (if receivedMsg = ''v'' then emit (SetLevel info) w else w);
          w = (if receivedMsg = ''vv'' then emit (SetLevel debug) w else w);
          w = (if receivedMsg = ''vvv'' then emit (SetLevel trace) w else w)
      in if receivedMsg = ''r'' then emit (SetLevel (if e_ndebug E then warn else info)) w else w)"

definition status_reply :: "(string \<times> bool) list \<Rightarrow> string" where
  "status_reply flags =
     (let replyBody = ''{'' @ concat (map (\<lambda>(process, statusFlag).
            CHR 0x22 # process @ [CHR 0x22, CHR '':''] @ (if statusFlag then ''1,'' else ''0,'')) flags)
      in take (length replyBody - 1) replyBody @ ''}'')"

type_synonym zmq_callback =
  "env \<Rightarrow> zmq_env \<Rightarrow> string list \<Rightarrow> world \<Rightarrow> fault + bool \<times> string list \<times> world"

definition ZeroMQServerMessageCallback :: zmq_callback where
  "ZeroMQServerMessageCallback E Z recvMsgs w =
     (let w = logging trace (''Received '' @ dec_of_nat (length recvMsgs) @ '' messages'') w;
          n = length recvMsgs
      in if recvMsgs = [] then Inl OutOfBounds
      else bind_sum (read_u32 (hd recvMsgs)) (\<lambda>cmd.
        let (reply, replyBody, w) =
              (if cmd = LOG_LEVEL_ID
               then if n \<noteq> 2
                    then (z_failed Z, [], logging err ''Received unknown number of messages for log level change'' w)
                    else (z_succeeded Z, [],
                          log_request E (recvMsgs ! 1) (logging warn ''Log level change request received'' w))
               else if cmd = VERSION_INFO_ID
               then if n \<noteq> 1
                    then (z_failed Z, [], logging err ''Received unknown number of messages for version information'' w)
                    else (z_succeeded Z, e_version E, w)
               else if cmd = PING_PONG_ID
               then if n \<noteq> 1
                    then (z_failed Z, [], logging err ''Received unknown number of messages for ping'' w)
                    else (z_succeeded Z, ''PONG'', w)
               else if cmd = STATUS_CHECK_ID
               then if n \<noteq> 1
                    then (z_failed Z, [], logging err ''Received unknown number of messages for status check'' w)
                    else (z_succeeded Z, status_reply (vCheckFlag w), w)
               else (z_failed Z, [], logging err ''Unknown command received from control'' w))
        in Inr (reply = z_succeeded Z, [le_bytes reply, replyBody], w)))"

section \<open>\<open>ZeroMQServer\<close>\<close>

record zmq_server =
  zsock :: zmq_socket
  zCheckFlag :: "nat option"
  zStats :: "zmq_stats option"
  zCallback :: "zmq_callback option"
  zThread :: bool

definition ZeroMQServer ::
    "env \<Rightarrow> zmq_env \<Rightarrow> string \<Rightarrow> nat option \<Rightarrow> bool \<Rightarrow> string \<Rightarrow> world \<Rightarrow> (string + zmq_server) \<times> world" where
  "ZeroMQServer E Z hostAddr checkFlag reg prependName w =
     (case zmq_init Z ''rep'' hostAddr True w of
        (Inl e, w) \<Rightarrow> (Inl e, w)
      | (Inr s, w) \<Rightarrow>
          (let (stats, w) = (if reg
                 then case ZeroMQStats E reg prependName w of
                        Inl e \<Rightarrow> (None, w) | Inr (zs, w) \<Rightarrow> (Some zs, w)
                 else (None, w))
           in case startMonitoring Z False
                     (''inproc://'' @ dec_of_nat (unat (constHasher hostAddr)) @ ''.rep'') w of
                (Inl e, w) \<Rightarrow> (Inl e, w)
              | (Inr _, w) \<Rightarrow> (Inr \<lparr>zsock = s, zCheckFlag = checkFlag, zStats = stats, zCallback = None,
                                  zThread = False\<rparr>, w)))"

definition zmq_initialise :: "zmq_env \<Rightarrow> zmq_server \<Rightarrow> world \<Rightarrow> (string + bool) \<times> zmq_server \<times> world" where
  "zmq_initialise Z srv w =
     (case zmq_start Z (zsock srv) w of
        (Inl e, s, w) \<Rightarrow> (Inl e, srv\<lparr>zsock := s\<rparr>, w)
      | (Inr True, s, w) \<Rightarrow> (Inr True, srv\<lparr>zsock := s, zThread := True\<rparr>, emit (Sys ThreadStart) w)
      | (Inr False, s, w) \<Rightarrow> (Inr False, srv\<lparr>zsock := s\<rparr>, w))"

definition zmq_shutdown :: "zmq_env \<Rightarrow> zmq_server \<Rightarrow> world \<Rightarrow> (string + unit) \<times> zmq_server \<times> world" where
  "zmq_shutdown Z srv w =
     (let w = (if zThread srv then emit Join w else w);
          (r, s, w) = zmq_stop Z (zsock srv) w
      in (r, srv\<lparr>zsock := s, zThread := False\<rparr>, w))"

definition handle_request ::
    "env \<Rightarrow> zmq_env \<Rightarrow> zmq_callback option \<Rightarrow> string list \<Rightarrow> world \<Rightarrow> fault + bool \<times> string list \<times> world" where
  "handle_request E Z cb recvMsgs w =
     (if length (hd recvMsgs) \<noteq> 4 then Inr (False, [le_bytes (z_failed Z), []], w)
      else case cb of None \<Rightarrow> Inr (False, [], w) | Some f \<Rightarrow> f E Z recvMsgs w)"

text \<open>The rest of a round: send the reply, complain if part of it is missing, report the statistics.\<close>

definition send_reply ::
    "env \<Rightarrow> zmq_env \<Rightarrow> zmq_server \<Rightarrow> string list \<Rightarrow> nanos \<Rightarrow> bool \<Rightarrow> string list \<Rightarrow> world
     \<Rightarrow> (string + unit) \<times> world" where
  "send_reply E Z srv recvMsgs start ok replyMsgs w =
     (case sendMessages Z (zsock srv) replyMsgs w of
        (Inl e, w) \<Rightarrow> (Inl e, w)
      | (Inr (nSentMsg, replyMsgs), w) \<Rightarrow>
          (let w = (if nSentMsg \<noteq> length replyMsgs
                    then logging warn (''Can't send whole reply: Sent messages '' @
                           dec_of_nat nSentMsg @ '' / '' @ dec_of_nat (length replyMsgs)) w
                    else w);
               (now, w) = read_clock E w
           in (Inr (), case zStats srv of None \<Rightarrow> w
                       | Some zs \<Rightarrow> consumeZmqStats E zs recvMsgs replyMsgs ok (now - start) w)))"

text \<open>
  One round. \<open>Inl\<close> of the outer sum is undefined behaviour of a callback, of the inner one an
  exception, which the thread catches.
\<close>

definition zmq_update ::
    "env \<Rightarrow> zmq_env \<Rightarrow> zmq_server \<Rightarrow> world \<Rightarrow> fault + (string + unit) \<times> world" where
  "zmq_update E Z srv w =
     (case recvMessages Z (zsock srv) w of
        (Inl e, w) \<Rightarrow> Inr (Inl e, w)
      | (Inr recvMsgs, w) \<Rightarrow>
          (if recvMsgs = [] then Inr (Inr (), w)
           else
             let (start, w) = read_clock E w
             in bind_sum (handle_request E Z (zCallback srv) recvMsgs w) (\<lambda>(ok, replyMsgs, w).
                  Inr (send_reply E Z srv recvMsgs start ok replyMsgs w))))"

fun zmq_rounds :: "env \<Rightarrow> zmq_env \<Rightarrow> nat \<Rightarrow> zmq_server \<Rightarrow> world \<Rightarrow> fault + world" where
  "zmq_rounds E Z 0 srv w = Inr w"
| "zmq_rounds E Z (Suc n) srv w =
     bind_sum (zmq_update E Z srv w) (\<lambda>(r, w).
       zmq_rounds E Z n srv
         (case r of Inl e \<Rightarrow> logging err (''ZeroMQ server failed: '' @ e) w
          | Inr _ \<Rightarrow> set_flag (zCheckFlag srv) w))"

definition zmq_threadFunc :: "env \<Rightarrow> zmq_env \<Rightarrow> nat \<Rightarrow> zmq_server \<Rightarrow> world \<Rightarrow> fault + world" where
  "zmq_threadFunc E Z n srv w =
     bind_sum (zmq_rounds E Z n srv (logging info ''ZeroMQ server started'' w))
       (\<lambda>w. Inr (logging info ''ZeroMQ server stopped'' w))"

text \<open>The destructor: \<open>shutdown\<close>, the monitor's \<open>stopMonitoring\<close>, the socket's own destructor.\<close>

definition zmq_server_destroy :: "zmq_env \<Rightarrow> zmq_server \<Rightarrow> world \<Rightarrow> (string + unit) \<times> world" where
  "zmq_server_destroy Z srv w =
     (case zmq_shutdown Z srv w of
        (Inl e, srv, w) \<Rightarrow> (Inl e, w)
      | (Inr _, srv, w) \<Rightarrow> (Inr (), zmq_destroy Z (zsock srv) (stopMonitoring w)))"

end
