(* ===== verification/ZeroMQSpec.thy ===== *)
theory ZeroMQSpec
  imports ZeroMQServer
begin

text \<open>
  What the request server promises: the replies of its callback, one reply for every request, the
  counters it reports, and the life of its socket.
\<close>

unbundle bit_operations_syntax

section \<open>Numbers in messages\<close>

lemma read_le_bytes: "read_u32 (le_bytes x @ rest) = Inr x"
  by (simp add: read_u32_def)

lemma read_u32_short: "length b = 4 \<Longrightarrow> \<exists>x. read_u32 b = Inr x"
  by (simp add: read_u32_def)

lemma command_ids:
  "read_u32 ''LOGL'' = Inr LOG_LEVEL_ID" "read_u32 ''VERI'' = Inr VERSION_INFO_ID"
  "read_u32 ''PING'' = Inr PING_PONG_ID" "read_u32 ''SCHK'' = Inr STATUS_CHECK_ID"
  by (simp_all add: read_u32_def LOG_LEVEL_ID_def VERSION_INFO_ID_def PING_PONG_ID_def
      STATUS_CHECK_ID_def four_cc_def)

lemma command_ids_distinct:
  "distinct [LOG_LEVEL_ID, VERSION_INFO_ID, PING_PONG_ID, STATUS_CHECK_ID]"
  by (simp add: LOG_LEVEL_ID_def VERSION_INFO_ID_def PING_PONG_ID_def STATUS_CHECK_ID_def four_cc_def)

lemma command_ids_neq [simp]:
  "LOG_LEVEL_ID \<noteq> VERSION_INFO_ID" "LOG_LEVEL_ID \<noteq> PING_PONG_ID" "LOG_LEVEL_ID \<noteq> STATUS_CHECK_ID"
  "VERSION_INFO_ID \<noteq> LOG_LEVEL_ID" "VERSION_INFO_ID \<noteq> PING_PONG_ID" "VERSION_INFO_ID \<noteq> STATUS_CHECK_ID"
  "PING_PONG_ID \<noteq> LOG_LEVEL_ID" "PING_PONG_ID \<noteq> VERSION_INFO_ID" "PING_PONG_ID \<noteq> STATUS_CHECK_ID"
  "STATUS_CHECK_ID \<noteq> LOG_LEVEL_ID" "STATUS_CHECK_ID \<noteq> VERSION_INFO_ID" "STATUS_CHECK_ID \<noteq> PING_PONG_ID"
  using command_ids_distinct by auto

section \<open>The callback\<close>

text \<open>A request the callback accepts: a known command with the right number of frames.\<close>

definition request_ok :: "string list \<Rightarrow> bool" where
  "request_ok recvMsgs \<longleftrightarrow>
     (case recvMsgs of [] \<Rightarrow> False
      | m # ms \<Rightarrow> (case read_u32 m of Inl _ \<Rightarrow> False
          | Inr cmd \<Rightarrow> cmd = LOG_LEVEL_ID \<and> length ms = 1 \<or>
              cmd \<in> {VERSION_INFO_ID, PING_PONG_ID, STATUS_CHECK_ID} \<and> ms = []))"

text \<open>Calls that carry neither a message nor a socket: the callback only logs and sets levels.\<close>

definition quiet :: "call list \<Rightarrow> bool" where
  "quiet cs \<longleftrightarrow> (\<forall>c \<in> set cs. (\<exists>l m. c = Log l m) \<or> (\<exists>l. c = SetLevel l))"

lemma quiet_simps [simp]:
  "quiet []" "quiet (c # cs) \<longleftrightarrow> ((\<exists>l m. c = Log l m) \<or> (\<exists>l. c = SetLevel l)) \<and> quiet cs"
  "quiet (cs @ ds) \<longleftrightarrow> quiet cs \<and> quiet ds"
  by (auto simp: quiet_def)

lemma log_request_quiet:
  "\<exists>cs. calls (log_request E m w) = calls w @ cs \<and> quiet cs \<and> vCheckFlag (log_request E m w) = vCheckFlag w"
proof -
  have set: "\<exists>cs. calls (if b then emit (SetLevel l) v else v) = calls v @ cs \<and> quiet cs \<and>
      vCheckFlag (if b then emit (SetLevel l) v else v) = vCheckFlag v" for b l v
    by simp
  have trans: "\<exists>cs. calls v = calls u @ cs \<and> quiet cs \<and> vCheckFlag v = vCheckFlag u"
    if "\<exists>cs. calls v = calls t @ cs \<and> quiet cs \<and> vCheckFlag v = vCheckFlag t"
      "\<exists>cs. calls t = calls u @ cs \<and> quiet cs \<and> vCheckFlag t = vCheckFlag u" for t u v
    using that by auto
  show ?thesis
    unfolding log_request_def Let_def
    by (rule trans [OF set]) (rule trans [OF set], rule trans [OF set], rule set)
qed

lemma callback_cases:
  assumes "z_failed Z \<noteq> z_succeeded Z" and "recvMsgs \<noteq> []" and "length (hd recvMsgs) = 4"
  shows "\<exists>body w' cs.
      ZeroMQServerMessageCallback E Z recvMsgs w =
        Inr (request_ok recvMsgs,
          [le_bytes (if request_ok recvMsgs then z_succeeded Z else z_failed Z), body], w') \<and>
      calls w' = calls w @ cs \<and> quiet cs \<and> vCheckFlag w' = vCheckFlag w"
proof -
  obtain m ms where ms: "recvMsgs = m # ms" using assms(2) by (cases recvMsgs) auto
  obtain cmd where cmd: "read_u32 m = Inr cmd" using assms(3) ms read_u32_short by auto
  define u where "u = logging trace (''Received '' @ dec_of_nat (length recvMsgs) @ '' messages'') w"
  define r where "r = ZeroMQServerMessageCallback E Z recvMsgs w"
  have u: "calls u = calls w @ [Log trace (''Received '' @ dec_of_nat (length recvMsgs) @ '' messages'')]"
    "vCheckFlag u = vCheckFlag w" by (simp_all add: u_def)
  note r' = r_def [unfolded ZeroMQServerMessageCallback_def Let_def, folded u_def]
  have done': ?thesis
    if "r = Inr (ok, [le_bytes (if ok then z_succeeded Z else z_failed Z), body], v)"
      "ok = request_ok recvMsgs" "\<exists>cs. calls v = calls u @ cs \<and> quiet cs \<and> vCheckFlag v = vCheckFlag u"
    for ok body v
    using that u by (auto simp: r_def)
  have fail: ?thesis
    if "r = Inr (z_failed Z = z_succeeded Z, [le_bytes (z_failed Z), body], logging l msg u)"
      "\<not> request_ok recvMsgs" for body l msg
    using that assms(1) by (intro done' [of False body "logging l msg u"]) auto
  consider (level) "cmd = LOG_LEVEL_ID" | (query) "cmd \<in> {VERSION_INFO_ID, PING_PONG_ID, STATUS_CHECK_ID}"
    | (other) "cmd \<notin> {LOG_LEVEL_ID, VERSION_INFO_ID, PING_PONG_ID, STATUS_CHECK_ID}" by blast
  then show ?thesis
  proof cases
    case level
    let ?u = "logging warn ''Log level change request received'' u"
    have v: "\<exists>cs. calls (log_request E (recvMsgs ! 1) ?u) = calls u @ cs \<and> quiet cs \<and>
        vCheckFlag (log_request E (recvMsgs ! 1) ?u) = vCheckFlag u"
      using log_request_quiet [of E "recvMsgs ! 1" ?u] by auto
    show ?thesis
    proof (cases "length ms = 1")
      case True
      with level cmd ms show ?thesis by (intro done' [OF _ _ v]) (simp_all add: r' request_ok_def)
    next
      case False
      with level cmd ms show ?thesis by (intro fail) (auto simp: r' request_ok_def)
    qed
  next
    case query
    show ?thesis
    proof (cases "ms = []")
      case True
      then have "\<exists>body. r = Inr (True, [le_bytes (z_succeeded Z), body], u)"
        using query cmd ms by (elim insertE emptyE) (simp_all add: r')
      then obtain body where "r = Inr (True, [le_bytes (z_succeeded Z), body], u)" ..
      with True query cmd ms show ?thesis
        by (intro done' [of True body u]) (auto simp: request_ok_def)
    next
      case False
      with query cmd ms show ?thesis
        by (elim insertE emptyE; intro fail) (simp_all add: r' request_ok_def)
    qed
  next
    case other
    with cmd ms show ?thesis by (intro fail) (auto simp: r' request_ok_def)
  qed
qed

section \<open>The status reply\<close>

definition json_entry :: "string \<times> bool \<Rightarrow> string" where
  "json_entry entry = CHR 0x22 # fst entry @ [CHR 0x22, CHR '':''] @ (if snd entry then ''1'' else ''0'')"

lemma status_concat:
  "concat (map (\<lambda>(process, flag). CHR 0x22 # process @ [CHR 0x22, CHR '':''] @
       (if flag then ''1,'' else ''0,'')) (f # fs)) =
     join_with '','' (map json_entry (f # fs)) @ '',''"
  by (induction fs arbitrary: f) (auto simp: json_entry_def split: prod.splits)

lemma status_reply_join:
  "flags \<noteq> [] \<Longrightarrow> status_reply flags = ''{'' @ join_with '','' (map json_entry flags) @ ''}''"
proof (cases flags)
  case (Cons f fs)
  then show ?thesis
    unfolding status_reply_def Let_def Cons status_concat by simp
qed simp

section \<open>One reply for every request\<close>

text \<open>
  Requests received minus replies handed to the socket. A \<open>REP\<close> socket requires them to
  alternate: after every round nothing is owed.
\<close>

fun owed :: "call list \<Rightarrow> int" where
  "owed [] = 0"
| "owed (Zmq (ZRecv (m # ms)) # cs) = 1 + owed cs"
| "owed (Zmq (ZSend parts n) # cs) = owed cs - 1"
| "owed (_ # cs) = owed cs"

lemma owed_append [simp]: "owed (cs @ ds) = owed cs + owed ds"
  by (induction cs rule: owed.induct) auto

lemma owed_metrics [simp]: "owed (map Metric ms) = 0"
  by (induction ms) auto

lemma owed_quiet: "quiet cs \<Longrightarrow> owed cs = 0"
  by (induction cs rule: owed.induct) auto

lemma metrics_only_zmq: "metrics_only w (consumeZmqStats E zs rs ss ok t w)"
  unfolding consumeZmqStats_def Let_def
  by (rule metrics_only_trans [OF metrics_only_trans [OF metrics_only_base metrics_only_fold] metrics_only_fold])
    (simp_all add: count_part_def count_reply_def Let_def metrics_only_metric)

definition zmq_env_ok :: "zmq_env \<Rightarrow> bool" where
  "zmq_env_ok Z \<longleftrightarrow> z_failed Z \<noteq> z_succeeded Z"

lemma handle_request_shipped:
  assumes "zmq_env_ok Z" and "recvMsgs \<noteq> []"
  obtains ok code body w' cs where
    "handle_request E Z (Some ZeroMQServerMessageCallback) recvMsgs w = Inr (ok, [le_bytes code, body], w')"
    "calls w' = calls w @ cs" "quiet cs" "vCheckFlag w' = vCheckFlag w"
    "ok \<longleftrightarrow> length (hd recvMsgs) = 4 \<and> request_ok recvMsgs"
    "code = (if ok then z_succeeded Z else z_failed Z)"
proof (cases "length (hd recvMsgs) = 4")
  case True
  with callback_cases [of Z recvMsgs E w] assms obtain body w' cs where
    "ZeroMQServerMessageCallback E Z recvMsgs w = Inr (request_ok recvMsgs,
       [le_bytes (if request_ok recvMsgs then z_succeeded Z else z_failed Z), body], w')"
    "calls w' = calls w @ cs" "quiet cs" "vCheckFlag w' = vCheckFlag w"
    by (auto simp: zmq_env_ok_def)
  with True show thesis
    by (intro that [of "request_ok recvMsgs" _ body w' cs]) (auto simp: handle_request_def)
next
  case False
  then show thesis by (intro that [of False "z_failed Z" "[]" w "[]"]) (auto simp: handle_request_def)
qed

lemma recvMessages_calls:
  assumes "recvMessages Z s w = (r, w')"
  obtains cs where "calls w' = calls w @ cs" and "vCheckFlag w' = vCheckFlag w"
    and "owed cs = (case r of Inl e \<Rightarrow> 0 | Inr msgs \<Rightarrow> of_bool (msgs \<noteq> []))"
    and "\<And>msgs. r = Inr msgs \<Longrightarrow> msgs \<noteq> [] \<Longrightarrow> zIsActive s"
proof (cases "zIsActive s")
  case False
  then show thesis using assms that [of "[Log warn ''Connection needs to starting'']"]
    by (auto simp: recvMessages_def)
next
  case True
  show thesis
  proof (cases "z_recv Z (calls w)")
    case (ZMsgs msgs)
    then show thesis using assms True
      by (intro that [of "[Zmq (ZRecv msgs), Log trace (''Received '' @ dec_of_nat (length msgs) @ '' messages'')]"])
        (cases msgs; auto simp: recvMessages_def)+
  next
    case ZTimeout
    then show thesis using assms True
      by (intro that [of "[Zmq (ZRecv []), Log trace ''Received 0 messages'']"]) (auto simp: recvMessages_def)
  next
    case (ZRecvThrow e)
    then show thesis using assms True
      by (intro that [of "[Zmq (ZRecv [])]"]) (auto simp: recvMessages_def)
  qed
qed

lemma sendMessages_calls:
  assumes "sendMessages Z s msg w = (r, w')" and "zIsActive s"
  obtains n where "calls w' = calls w @ [Zmq (ZSend msg n)]" and "vCheckFlag w' = vCheckFlag w"
  using assms by (auto simp: sendMessages_def Let_def split: z_send_result.splits)

lemma send_reply_calls:
  assumes "zIsActive (zsock srv)"
  obtains r w' cs where "send_reply E Z srv msgs start ok reply w = (r, w')"
    and "calls w' = calls w @ cs" and "vCheckFlag w' = vCheckFlag w" and "owed cs = - 1"
proof -
  obtain s w1 where send: "sendMessages Z (zsock srv) reply w = (s, w1)" by fastforce
  obtain n where n: "calls w1 = calls w @ [Zmq (ZSend reply n)]" "vCheckFlag w1 = vCheckFlag w"
    using send assms by (rule sendMessages_calls)
  show thesis
  proof (cases s)
    case (Inl e)
    with send n show thesis
      by (intro that [of "Inl e" w1 "[Zmq (ZSend reply n)]"]) (auto simp: send_reply_def)
  next
    case (Inr p)
    obtain nSent left where p: "p = (nSent, left)" by (cases p)
    let ?msg = "''Can't send whole reply: Sent messages '' @ dec_of_nat nSent @ '' / '' @ dec_of_nat (length left)"
    define w2 where "w2 = (if nSent \<noteq> length left then logging warn ?msg w1 else w1)"
    obtain es where es: "calls w2 = calls w1 @ es" "owed es = 0" "vCheckFlag w2 = vCheckFlag w1"
      by (rule that [of "if nSent \<noteq> length left then [Log warn ?msg] else []"]) (auto simp: w2_def)
    let ?now = "e_clock E (calls w2)"
    let ?w3 = "emit (Clock ?now) w2"
    let ?w4 = "case zStats srv of None \<Rightarrow> ?w3 | Some zs \<Rightarrow> consumeZmqStats E zs msgs left ok (?now - start) ?w3"
    have "metrics_only ?w3 ?w4" by (simp add: metrics_only_zmq split: option.split)
    then obtain ms where ms: "calls ?w4 = calls ?w3 @ map Metric ms" "vCheckFlag ?w4 = vCheckFlag ?w3"
      by (auto simp: metrics_only_def)
    have "send_reply E Z srv msgs start ok reply w = (Inr (), ?w4)"
      by (simp only: send_reply_def send Inr p sum.case prod.case Let_def read_clock_def w2_def [symmetric])
    then show thesis
      by (rule that [where cs = "Zmq (ZSend reply n) # es @ Clock ?now # map Metric ms"])
        (simp_all add: ms es n)
  qed
qed

lemma zmq_update_shipped:
  assumes "zmq_env_ok Z" and "zCallback srv = Some ZeroMQServerMessageCallback"
  shows "\<exists>r w' cs. zmq_update E Z srv w = Inr (r, w') \<and> calls w' = calls w @ cs \<and>
    vCheckFlag w' = vCheckFlag w \<and> owed cs = 0"
proof -
  obtain r w1 where recv: "recvMessages Z (zsock srv) w = (r, w1)" by fastforce
  from recv obtain cs where cs: "calls w1 = calls w @ cs" "vCheckFlag w1 = vCheckFlag w"
    "owed cs = (case r of Inl e \<Rightarrow> 0 | Inr msgs \<Rightarrow> of_bool (msgs \<noteq> []))"
    "\<And>msgs. r = Inr msgs \<Longrightarrow> msgs \<noteq> [] \<Longrightarrow> zIsActive (zsock srv)"
    by (rule recvMessages_calls) blast
  show ?thesis
  proof (cases "\<exists>msgs. r = Inr msgs \<and> msgs \<noteq> []")
    case False
    then have "zmq_update E Z srv w = Inr (map_sum id (\<lambda>_. ()) r, w1)"
      by (cases r) (auto simp: zmq_update_def recv)
    with False cs show ?thesis by (cases r) auto
  next
    case True
    then obtain msgs where msgs: "r = Inr msgs" "msgs \<noteq> []" by blast
    let ?start = "e_clock E (calls w1)"
    let ?w2 = "emit (Clock ?start) w1"
    obtain ok code body w3 ds where reply:
      "handle_request E Z (Some ZeroMQServerMessageCallback) msgs ?w2 = Inr (ok, [le_bytes code, body], w3)"
      "calls w3 = calls ?w2 @ ds" "quiet ds" "vCheckFlag w3 = vCheckFlag ?w2"
      using handle_request_shipped [OF assms(1) msgs(2)] by metis
    obtain s w4 es where send: "send_reply E Z srv msgs ?start ok [le_bytes code, body] w3 = (s, w4)"
      "calls w4 = calls w3 @ es" "vCheckFlag w4 = vCheckFlag w3" "owed es = - 1"
      using cs(4) [OF msgs] by (rule send_reply_calls)
    have "zmq_update E Z srv w = Inr (s, w4)"
      using msgs assms(2) by (simp add: zmq_update_def recv read_clock_def reply(1) send(1) Let_def)
    moreover have "calls w4 = calls w @ (cs @ Clock ?start # ds @ es)" "vCheckFlag w4 = vCheckFlag w"
      using cs send reply by simp_all
    moreover have "owed (cs @ Clock ?start # ds @ es) = 0"
      using cs(3) msgs reply(3) send(4) by (simp add: owed_quiet)
    ultimately show ?thesis by blast
  qed
qed

lemma zmq_rounds_shipped:
  assumes "zmq_env_ok Z" and "zCallback srv = Some ZeroMQServerMessageCallback"
  shows "\<exists>w' cs. zmq_rounds E Z n srv w = Inr w' \<and> calls w' = calls w @ cs \<and> owed cs = 0"
proof (induction n arbitrary: w)
  case (Suc n)
  obtain r w1 cs where one: "zmq_update E Z srv w = Inr (r, w1)" "calls w1 = calls w @ cs" "owed cs = 0"
    using zmq_update_shipped [OF assms] by blast
  define w2 where "w2 = (case r of Inl e \<Rightarrow> logging err (''ZeroMQ server failed: '' @ e) w1
          | Inr _ \<Rightarrow> set_flag (zCheckFlag srv) w1)"
  have "\<exists>ds. calls w2 = calls w1 @ ds \<and> owed ds = 0"
    by (auto simp: w2_def set_flag_def split: sum.split option.split)
  then obtain ds where ds: "calls w2 = calls w1 @ ds" "owed ds = 0" by blast
  from Suc.IH [of w2] obtain w' es where rest: "zmq_rounds E Z n srv w2 = Inr w'"
    "calls w' = calls w2 @ es" "owed es = 0" by blast
  have "zmq_rounds E Z (Suc n) srv w = Inr w'"
    using rest(1) by (simp add: one(1) w2_def)
  then show ?case using one ds rest by (auto intro!: exI [of _ "cs @ ds @ es"])
qed simp

section \<open>The counters\<close>

lemma count_parts_counters:
  "counter_of (name @ ''total_command_parts'') (calls (fold (count_part name ok) rs w)) =
     counter_of (name @ ''total_command_parts'') (calls w) + int (length rs)"
  "counter_of (name @ ''succeeded_command_parts'') (calls (fold (count_part name ok) rs w)) =
     counter_of (name @ ''succeeded_command_parts'') (calls w) + (if ok then int (length rs) else 0)"
  "counter_of (name @ ''failed_command_parts'') (calls (fold (count_part name ok) rs w)) =
     counter_of (name @ ''failed_command_parts'') (calls w) + (if ok then 0 else int (length rs))"
  "counter_of (name @ ''downloaded_bytes'') (calls (fold (count_part name ok) rs w)) =
     counter_of (name @ ''downloaded_bytes'') (calls w) + (\<Sum>r\<leftarrow>rs. dbl (int (length r)))"
  "counter_of (name @ ''uploaded_bytes'') (calls (fold (count_part name ok) rs w)) =
     counter_of (name @ ''uploaded_bytes'') (calls w)"
  by (induction rs arbitrary: w) (simp_all add: count_part_def Let_def)

lemma count_replies_counters:
  "counter_of (name @ ''uploaded_bytes'') (calls (fold (count_reply name) ss w)) =
     counter_of (name @ ''uploaded_bytes'') (calls w) + (\<Sum>s\<leftarrow>ss. dbl (int (length s)))"
  "c \<noteq> name @ ''uploaded_bytes'' \<Longrightarrow>
     counter_of c (calls (fold (count_reply name) ss w)) = counter_of c (calls w)"
  by (induction ss arbitrary: w) (simp_all add: count_reply_def)

lemma consumeBaseStats_other:
  "\<forall>x \<in> {''succeeded_commands'', ''failed_commands'', ''received_commands''}. c \<noteq> name @ x \<Longrightarrow>
     counter_of c (calls (consumeBaseStats E name ok bad v w)) = counter_of c (calls w)"
  by (simp add: consumeBaseStats_def Let_def)

text \<open>One request: how every counter changes.\<close>

lemma consumeZmqStats_counters:
  fixes E zs rs ss ok t w
  defines "grown c \<equiv> counter_of (zs_name zs @ c) (calls (consumeZmqStats E zs rs ss ok t w)) -
      counter_of (zs_name zs @ c) (calls w)"
  shows "grown ''succeeded_commands'' = of_bool ok" "grown ''failed_commands'' = of_bool (\<not> ok)"
    "grown ''received_commands'' = 1"
    "grown ''succeeded_command_parts'' = (if ok then int (length rs) else 0)"
    "grown ''failed_command_parts'' = (if ok then 0 else int (length rs))"
    "grown ''total_command_parts'' = int (length rs)"
    "grown ''downloaded_bytes'' = (\<Sum>r\<leftarrow>rs. dbl (int (length r)))"
    "grown ''uploaded_bytes'' = (\<Sum>s\<leftarrow>ss. dbl (int (length s)))"
proof -
  define n where "n = zs_name zs"
  define w1 where "w1 = consumeBaseStats E n (of_bool ok) (of_bool (\<not> ok)) (dbl t) w"
  define w2 where "w2 = fold (count_part n ok) rs w1"
  have grown: "grown c = counter_of (n @ c) (calls (fold (count_reply n) ss w2)) - counter_of (n @ c) (calls w)" for c
    by (simp add: grown_def consumeZmqStats_def Let_def n_def w1_def w2_def)
  have late: "counter_of (n @ c) (calls (fold (count_reply n) ss w2)) = counter_of (n @ c) (calls w2)"
    if "c \<noteq> ''uploaded_bytes''" for c
    by (rule count_replies_counters) (use that in simp)
  have mid: "counter_of (n @ c) (calls w2) = counter_of (n @ c) (calls w1)"
    if "c \<noteq> ''total_command_parts''" "c \<noteq> ''succeeded_command_parts''" "c \<noteq> ''failed_command_parts''"
      "c \<noteq> ''downloaded_bytes''" for c
    unfolding w2_def using that by (induction rs arbitrary: w1) (simp_all add: count_part_def Let_def)
  have early: "counter_of (n @ c) (calls w1) = counter_of (n @ c) (calls w)"
    if "c \<notin> {''succeeded_commands'', ''failed_commands'', ''received_commands''}" for c
    unfolding w1_def by (rule consumeBaseStats_other) (use that in auto)
  have one: "dbl 1 = 1" "dbl 0 = 0" by (simp_all add: dbl_exact)
  have parts: "counter_of (n @ ''total_command_parts'') (calls w2) =
      counter_of (n @ ''total_command_parts'') (calls w1) + int (length rs)"
    "counter_of (n @ ''succeeded_command_parts'') (calls w2) =
      counter_of (n @ ''succeeded_command_parts'') (calls w1) + (if ok then int (length rs) else 0)"
    "counter_of (n @ ''failed_command_parts'') (calls w2) =
      counter_of (n @ ''failed_command_parts'') (calls w1) + (if ok then 0 else int (length rs))"
    "counter_of (n @ ''downloaded_bytes'') (calls w2) =
      counter_of (n @ ''downloaded_bytes'') (calls w1) + (\<Sum>r\<leftarrow>rs. dbl (int (length r)))"
    unfolding w2_def by (rule count_parts_counters)+
  show "grown ''succeeded_commands'' = of_bool ok" "grown ''failed_commands'' = of_bool (\<not> ok)"
    "grown ''received_commands'' = 1"
    by (simp_all add: grown late mid) (simp_all add: w1_def consumeBaseStats_counters one)
  show "grown ''succeeded_command_parts'' = (if ok then int (length rs) else 0)"
    "grown ''failed_command_parts'' = (if ok then 0 else int (length rs))"
    "grown ''total_command_parts'' = int (length rs)"
    "grown ''downloaded_bytes'' = (\<Sum>r\<leftarrow>rs. dbl (int (length r)))"
    by (simp_all add: grown late parts early)
  show "grown ''uploaded_bytes'' = (\<Sum>s\<leftarrow>ss. dbl (int (length s)))"
    by (simp add: grown count_replies_counters mid early)
qed

text \<open>libzmq empties a message it has sent: the documented behaviour of \<open>zmq_msg_send\<close>.\<close>

definition send_empties :: "zmq_env \<Rightarrow> bool" where
  "send_empties Z \<longleftrightarrow> (\<forall>cs msgs n left. z_send Z cs msgs = ZSent (Some n) left \<longrightarrow>
     left = map (\<lambda>_. []) msgs)"

lemma sum_list_empty: "(\<Sum>s\<leftarrow>map (\<lambda>_. [] :: string) msgs. dbl (int (length s))) = 0"
  by (induction msgs) (simp_all add: dbl_exact)

section \<open>The life of a socket\<close>

datatype zmq_op = OpStart | OpStop

fun zmq_do :: "zmq_env \<Rightarrow> zmq_op \<Rightarrow> zmq_socket \<times> world \<Rightarrow> zmq_socket \<times> world" where
  "zmq_do Z OpStart x = snd (zmq_start Z (fst x) (snd x))"
| "zmq_do Z OpStop x = snd (zmq_stop Z (fst x) (snd x))"

text \<open>Successful binds and connects of an address, minus the successful releases.\<close>

fun attached :: "string \<Rightarrow> call list \<Rightarrow> int" where
  "attached a [] = 0"
| "attached a (Zmq (ZBind b ok) # cs) = of_bool (a = b \<and> ok) + attached a cs"
| "attached a (Zmq (ZConnect b ok) # cs) = of_bool (a = b \<and> ok) + attached a cs"
| "attached a (Zmq (ZUnbind b ok) # cs) = attached a cs - of_bool (a = b \<and> ok)"
| "attached a (Zmq (ZDisconnect b ok) # cs) = attached a cs - of_bool (a = b \<and> ok)"
| "attached a (_ # cs) = attached a cs"

lemma attached_append [simp]: "attached a (cs @ ds) = attached a cs + attached a ds"
  by (induction a cs rule: attached.induct) auto

definition socket_ok :: "zmq_socket \<times> world \<Rightarrow> bool" where
  "socket_ok x \<longleftrightarrow> attached (zSocketAddr (fst x)) (calls (snd x)) = of_bool (zIsActive (fst x))"

lemma zmq_do_ok:
  "socket_ok x \<Longrightarrow> socket_ok (zmq_do Z op x) \<and> zSocketAddr (fst (zmq_do Z op x)) = zSocketAddr (fst x) \<and>
     zIsBinded (fst (zmq_do Z op x)) = zIsBinded (fst x)"
  by (cases op) (auto simp: zmq_start_def zmq_stop_def socket_ok_def Let_def split: prod.splits)

lemma zmq_run_ok:
  "socket_ok x \<Longrightarrow> socket_ok (fold (zmq_do Z) ops x) \<and>
     zSocketAddr (fst (fold (zmq_do Z) ops x)) = zSocketAddr (fst x)"
proof (induction ops arbitrary: x)
  case (Cons op ops)
  then show ?case using zmq_do_ok [OF Cons.prems, of Z op] by simp
qed simp

end
