(* ===== verification/Interleave.thy ===== *)
theory Interleave
  imports Prelude
begin

text \<open>
  An owner that makes the statements of one function, and a thread that makes rounds meanwhile. A
  schedule lists who moves. The locale \<open>stops_first\<close> is the contract of a function whose first
  statement stops the thread: then every schedule has the effect of a serial one.
\<close>

datatype mover = Owner | Worker

fun run_moves :: "(mover \<Rightarrow> 'c \<Rightarrow> 'e + 'c) \<Rightarrow> mover list \<Rightarrow> 'c \<Rightarrow> 'e + 'c" where
  "run_moves move [] c = Inr c"
| "run_moves move (m # ms) c = bind_sum (move m c) (run_moves move ms)"

lemma run_moves_append:
  "run_moves move (ms @ ns) c = bind_sum (run_moves move ms c) (run_moves move ns)"
  by (induction ms arbitrary: c) (simp_all add: bind_sum_def split: sum.split)

lemma run_moves_ConsE:
  assumes "run_moves move (m # ms) c = Inr c'"
  obtains d where "move m c = Inr d" and "run_moves move ms d = Inr c'"
  using assms by (cases "move m c") auto

text \<open>How many rounds a schedule makes between the owner's statements \<open>k\<close> and \<open>k + 1\<close>.\<close>

fun rounds_at :: "mover list \<Rightarrow> nat \<Rightarrow> nat" where
  "rounds_at [] k = 0"
| "rounds_at (Worker # ms) k = (if k = 0 then 1 else 0) + rounds_at ms k"
| "rounds_at (Owner # ms) k = (case k of 0 \<Rightarrow> 0 | Suc k \<Rightarrow> rounds_at ms k)"

lemma rounds_at_Owner:
  "rounds_at (Owner # ms) (k - p) = (if p < k then rounds_at ms (k - Suc p) else 0)"
  by (cases "k - p") (auto simp: Suc_diff_Suc [symmetric])

locale stops_first =
  fixes move :: "mover \<Rightarrow> 'c \<Rightarrow> 'e + 'c"
    and fine :: "'c \<Rightarrow> bool"
    and stopped :: "'c \<Rightarrow> bool"
  assumes owner_stops: "fine c \<Longrightarrow> move Owner c = Inr c' \<Longrightarrow> fine c' \<and> stopped c'"
    and worker_fine: "fine c \<Longrightarrow> move Worker c = Inr c' \<Longrightarrow> fine c'"
    and worker_stopped: "stopped c \<Longrightarrow> move Worker c = Inr c"
begin

lemma stopped_schedule:
  "fine c \<Longrightarrow> stopped c \<Longrightarrow> run_moves move ms c = run_moves move (replicate (count_list ms Owner) Owner) c"
proof (induction ms arbitrary: c)
  case (Cons m ms)
  show ?case
  proof (cases m)
    case Owner
    show ?thesis
    proof (cases "move Owner c")
      case (Inr d)
      from owner_stops [OF Cons.prems(1) this] have "fine d" "stopped d" by blast+
      from Cons.IH [OF this] show ?thesis by (simp add: Owner Inr)
    qed (simp add: Owner)
  next
    case Worker
    from Cons.IH [OF Cons.prems] show ?thesis by (simp add: Worker worker_stopped [OF Cons.prems(2)])
  qed
qed simp

lemma any_schedule:
  "fine c \<Longrightarrow> run_moves move ms c =
     run_moves move (replicate (rounds_at ms 0) Worker @ replicate (count_list ms Owner) Owner) c"
proof (induction ms arbitrary: c)
  case (Cons m ms)
  show ?case
  proof (cases m)
    case Owner
    show ?thesis
    proof (cases "move Owner c")
      case (Inr d)
      from owner_stops [OF Cons.prems this] have "fine d" "stopped d" by blast+
      from stopped_schedule [OF this, of ms] show ?thesis by (simp add: Owner Inr)
    qed (simp add: Owner)
  next
    case Worker
    show ?thesis
    proof (cases "move Worker c")
      case (Inr d)
      from Cons.IH [OF worker_fine [OF Cons.prems this]] show ?thesis by (simp add: Worker Inr)
    qed (simp add: Worker)
  qed
qed simp

end

end
