(* ===== verification/ZeroMQShutdown.thy ===== *)
theory ZeroMQShutdown
  imports ZeroMQSpec Interleave
begin

text \<open>
  \<open>ZeroMQServer::shutdown\<close> while the thread of the server still runs. Its first statement stops and joins
  the thread, so the contract \<open>stops_first\<close> holds: no schedule differs from a serial one.
\<close>

datatype zmq_pc = ZStopThread | ZStopSocket | ZReturned "string + unit"

type_synonym zmq_conf = "zmq_pc \<times> zmq_server \<times> world"

fun zmq_shutdown_stmt :: "zmq_env \<Rightarrow> zmq_conf \<Rightarrow> zmq_conf" where
  "zmq_shutdown_stmt Z (ZStopThread, srv, w) =
     (ZStopSocket, srv\<lparr>zThread := False\<rparr>, if zThread srv then emit Join w else w)"
| "zmq_shutdown_stmt Z (ZStopSocket, srv, w) =
     (let (r, s, w) = zmq_stop Z (zsock srv) w in (ZReturned r, srv\<lparr>zsock := s\<rparr>, w))"
| "zmq_shutdown_stmt Z (ZReturned r, srv, w) = (ZReturned r, srv, w)"

text \<open>One turn of the loop of \<open>threadFunc\<close>, if the thread is still there.\<close>

fun zmq_move :: "env \<Rightarrow> zmq_env \<Rightarrow> mover \<Rightarrow> zmq_conf \<Rightarrow> fault + zmq_conf" where
  "zmq_move E Z Owner c = Inr (zmq_shutdown_stmt Z c)"
| "zmq_move E Z Worker (pc, srv, w) =
     (if zThread srv then bind_sum (zmq_rounds E Z 1 srv w) (\<lambda>w. Inr (pc, srv, w)) else Inr (pc, srv, w))"

definition zmq_stopped :: "zmq_conf \<Rightarrow> bool" where
  "zmq_stopped c \<longleftrightarrow> \<not> zThread (fst (snd c))"

text \<open>Past the first statement the thread is gone.\<close>

definition zmq_pc_ok :: "zmq_conf \<Rightarrow> bool" where
  "zmq_pc_ok c \<longleftrightarrow> (fst c \<noteq> ZStopThread \<longrightarrow> zmq_stopped c)"

interpretation zmq_stop_order: stops_first "zmq_move E Z" zmq_pc_ok zmq_stopped for E Z
proof
  fix c c' :: zmq_conf
  obtain pc srv w where c: "c = (pc, srv, w)" by (cases c)
  show "zmq_pc_ok c' \<and> zmq_stopped c'" if "zmq_pc_ok c" "zmq_move E Z Owner c = Inr c'"
    using that unfolding c by (cases pc) (auto simp: zmq_pc_ok_def zmq_stopped_def case_prod_beta)
  show "zmq_pc_ok c'" if "zmq_pc_ok c" "zmq_move E Z Worker c = Inr c'"
    using that unfolding c by (auto simp: zmq_pc_ok_def zmq_stopped_def split: if_splits)
  show "zmq_move E Z Worker c = Inr c" if "zmq_stopped c"
    using that unfolding c by (simp add: zmq_stopped_def)
qed

lemma zmq_rounds_moves:
  assumes "zThread srv"
  shows "run_moves (zmq_move E Z) (replicate n Worker) (pc, srv, w) =
    bind_sum (zmq_rounds E Z n srv w) (\<lambda>w. Inr (pc, srv, w))"
proof (induction n arbitrary: w)
  case (Suc n)
  then show ?case
    by (cases "zmq_update E Z srv w") (auto simp: assms One_nat_def split: sum.split)
qed simp

lemma zmq_statements:
  "run_moves (zmq_move E Z) (replicate (Suc (Suc n)) Owner) (ZStopThread, srv, w) =
     (case zmq_shutdown Z srv w of (r, srv, w) \<Rightarrow> Inr (ZReturned r, srv, w))"
proof -
  have "run_moves (zmq_move E Z) (replicate n Owner) (ZReturned r, srv, w) = Inr (ZReturned r, srv, w)" for r srv w
    by (induction n) simp_all
  then show ?thesis by (simp add: zmq_shutdown_def case_prod_beta Let_def)
qed

end
