(* ===== verification/TelnetEdit.thy ===== *)
theory TelnetEdit
  imports CppString
begin

text \<open>
  The passes \<open>TelnetSession::update\<close> runs over the receive buffer
  (\<open>src/telnet/TelnetServer.cpp\<close>): the removal of telnet negotiation sequences, of cursor
  escapes and of backspaced characters, and the extraction of complete lines. Each pass is the
  loop of the source; the lemmas give its result as a closed specification.
\<close>

section \<open>Constants\<close>

definition ANSI_ARROW_UP :: string where
  [eval_simps]: "ANSI_ARROW_UP = [CHR 0x1B, CHR 0x5B, CHR 0x41]"
definition ANSI_ARROW_DOWN :: string where
  [eval_simps]: "ANSI_ARROW_DOWN = [CHR 0x1B, CHR 0x5B, CHR 0x42]"
definition ANSI_ARROW_RIGHT :: string where
  [eval_simps]: "ANSI_ARROW_RIGHT = [CHR 0x1B, CHR 0x5B, CHR 0x43]"
definition ANSI_ARROW_LEFT :: string where
  [eval_simps]: "ANSI_ARROW_LEFT = [CHR 0x1B, CHR 0x5B, CHR 0x44]"

definition ASCII_LF :: char where [eval_simps]: "ASCII_LF = CHR 0x0A"
definition ASCII_NULL :: char where [eval_simps]: "ASCII_NULL = CHR 0x00"
definition ASCII_NBSP :: char where [eval_simps]: "ASCII_NBSP = CHR 0xFF"

definition CRLF :: string where [eval_simps]: "CRLF = [CHR 0x0D, CHR 0x0A]"

section \<open>\<open>stripNVT\<close>\<close>

text \<open>
  The loop computes with \<open>size_t\<close>: \<open>npos + 2\<close> wraps to 1 and \<open>length() - 1\<close> wraps on an empty
  buffer. A pass of the loop that neither erases nor breaks goes on to the loop condition.
\<close>

lemma sz_index_less:
  "sz_find_char c b \<noteq> npos \<Longrightarrow> unat (sz_find_char c b) < length b"
proof -
  assume "sz_find_char c b \<noteq> npos"
  then obtain i where i: "str_find_char c b = Some i" and eq: "sz_find_char c b = of_nat i"
    by (auto simp: sz_find_char_def split: option.splits)
  have "unat (of_nat i :: size_t) \<le> i"
    by (simp add: unat_of_nat)
  also have "i < length b"
    using str_find_char_Some [OF i] by simp
  finally show ?thesis by (simp add: eq)
qed

lemma sz_pred_le: "(x :: size_t) < y \<Longrightarrow> x \<le> y - 1"
  by (metis add.commute diff_add_cancel inc_le word_le_less_eq linorder_not_le)

function stripNVT :: "string \<Rightarrow> string" where
  "stripNVT buffer =
     (let found = sz_find_char ASCII_NBSP buffer in
      if found \<noteq> npos \<and> found + 2 \<le> sz_length buffer - 1
      then stripNVT (str_erase (unat found) 3 buffer)
      else if found + 2 \<ge> sz_length buffer then buffer
      else if found \<noteq> npos then stripNVT buffer else buffer)"
  by pat_completeness auto
termination
proof (relation "measure length", goal_cases)
  case (2 buffer x)
  then show ?case
    by (simp add: length_str_erase_less sz_index_less)
next
  case (3 buffer x)
  then show ?case by (auto simp: not_le dest: sz_pred_le)
qed simp

declare stripNVT.simps [simp del]

text \<open>
  A buffer shorter than \<open>std::string::max_size()\<close> never makes the index arithmetic wrap where it
  matters, and the loop is the plain one over list positions.
\<close>

definition fits :: "'a list \<Rightarrow> bool" where
  "fits b \<longleftrightarrow> length b < 2 ^ 63"

lemma fits_erase [simp]: "fits b \<Longrightarrow> fits (str_erase i n b)"
  by (simp add: fits_def str_erase_def)

lemma unat_of_nat_small: "n < 2 ^ 64 \<Longrightarrow> unat (of_nat n :: size_t) = n"
  by (simp add: unat_of_nat take_bit_nat_eq_self)

lemma of_nat_le_size_t:
  "m < 2 ^ 64 \<Longrightarrow> n < 2 ^ 64 \<Longrightarrow> (of_nat m :: size_t) \<le> of_nat n \<longleftrightarrow> m \<le> n"
  by (simp add: word_le_nat_alt unat_of_nat_small)

lemma stripNVT_step:
  assumes "fits b"
  shows "stripNVT b =
    (case str_find_char ASCII_NBSP b of
       None \<Rightarrow> b
     | Some i \<Rightarrow> if i + 3 \<le> length b then stripNVT (str_erase i 3 b) else b)"
proof (cases "str_find_char ASCII_NBSP b")
  case None
  then show ?thesis
    by (subst stripNVT.simps) (simp add: sz_find_char_def Let_def)
next
  case (Some i)
  then have i: "i < length b"
    using str_find_char_Some [OF Some] by simp
  with assms have small: "i < 2 ^ 64 - 2" "length b < 2 ^ 64" "length b \<ge> 1"
    by (auto simp: fits_def)
  have sz: "sz_find_char ASCII_NBSP b = of_nat i"
    by (simp add: sz_find_char_def Some)
  have ne: "(of_nat i :: size_t) \<noteq> npos"
  proof
    assume "(of_nat i :: size_t) = npos"
    then have "unat (of_nat i :: size_t) = unat npos" by simp
    then show False
      using small by (simp add: unat_of_nat_small npos_def unsigned_minus_1_eq_mask mask_eq_exp_minus_1)
  qed
  have two: "(of_nat i :: size_t) + 2 = of_nat (i + 2)" by simp
  have pred: "sz_length b - 1 = of_nat (length b - 1)"
    using small by (simp add: sz_length_def of_nat_diff)
  have erase: "sz_find_char ASCII_NBSP b + 2 \<le> sz_length b - 1 \<longleftrightarrow> i + 3 \<le> length b"
    unfolding sz two pred using small by (subst of_nat_le_size_t) auto
  have break: "sz_length b \<le> sz_find_char ASCII_NBSP b + 2 \<longleftrightarrow> \<not> i + 3 \<le> length b"
    unfolding sz two sz_length_def using small by (subst of_nat_le_size_t) auto
  have pos: "unat (sz_find_char ASCII_NBSP b) = i"
    unfolding sz using small by (simp add: unat_of_nat_small)
  show ?thesis
    by (subst stripNVT.simps) (simp add: Let_def erase break pos Some ne [folded sz])
qed

text \<open>The reference: one pass from the left that drops an IAC byte and the two bytes after it.\<close>

fun nvt_filter :: "string \<Rightarrow> string" where
  "nvt_filter [] = []"
| "nvt_filter (c # s) =
     (if c = ASCII_NBSP
      then if 2 \<le> length s then nvt_filter (drop 2 s) else c # s
      else c # nvt_filter s)"

lemma nvt_filter_append:
  "ASCII_NBSP \<notin> set u \<Longrightarrow> nvt_filter (u @ v) = u @ nvt_filter v"
  by (induction u) auto

lemma nvt_filter_id: "ASCII_NBSP \<notin> set u \<Longrightarrow> nvt_filter u = u"
  using nvt_filter_append [of u "[]"] by simp

lemma stripNVT_eq_nvt_filter: "fits b \<Longrightarrow> stripNVT b = nvt_filter b"
proof (induction "length b" arbitrary: b rule: less_induct)
  case less
  show ?case
  proof (cases "str_find_char ASCII_NBSP b")
    case None
    then show ?thesis
      using less.prems
      by (simp add: stripNVT_step nvt_filter_id str_find_char_None [THEN iffD1])
  next
    case (Some i)
    note split = str_find_char_Some [OF Some]
    define u v where "u = take i b" and "v = drop (Suc i) b"
    from split have b: "b = u @ ASCII_NBSP # v" and u: "ASCII_NBSP \<notin> set u" and len: "length u = i"
      by (simp_all add: u_def v_def)
    show ?thesis
    proof (cases "2 \<le> length v")
      case True
      have "stripNVT b = stripNVT (u @ drop 2 v)"
        using less.prems Some True
        by (subst stripNVT_step) (simp_all add: b len [symmetric] numeral_3_eq_3 numeral_2_eq_2)
      also have "\<dots> = nvt_filter (u @ drop 2 v)"
        using less.prems True by (intro less.hyps) (simp_all add: b fits_def)
      finally show ?thesis
        using u True by (simp add: b nvt_filter_append)
    next
      case False
      then show ?thesis
        using less.prems Some u
        by (subst stripNVT_step) (simp_all add: b len [symmetric] nvt_filter_append)
    qed
  qed
qed

lemma nvt_filter_tail:
  "\<exists>p t. nvt_filter b = p @ t \<and> ASCII_NBSP \<notin> set p \<and> length t \<le> 2"
proof (induction b rule: nvt_filter.induct)
  case (2 c s)
  show ?case
  proof (cases "c = ASCII_NBSP")
    case True
    show ?thesis
    proof (cases "2 \<le> length s")
      case False
      with True have "nvt_filter (c # s) = [] @ (c # s) \<and> length (c # s) \<le> 2" by simp
      then show ?thesis by (metis empty_iff empty_set)
    qed (use 2 True in simp)
  next
    case False
    with 2 obtain p t where "nvt_filter s = p @ t" "ASCII_NBSP \<notin> set p" "length t \<le> 2"
      by auto
    with False have "nvt_filter (c # s) = (c # p) @ t \<and> ASCII_NBSP \<notin> set (c # p) \<and> length t \<le> 2"
      by simp
    then show ?thesis by blast
  qed
qed auto

section \<open>\<open>stripEscapeCharacters\<close>\<close>

text \<open>The inner loop removes one cursor sequence until \<open>find\<close> returns \<open>npos\<close>.\<close>

function erase_all :: "string \<Rightarrow> string \<Rightarrow> string" where
  "erase_all cursor buffer =
     (if cursor = [] then buffer
      else case str_find cursor buffer of
        None \<Rightarrow> buffer
      | Some found \<Rightarrow> erase_all cursor (str_erase found (length cursor) buffer))"
  by pat_completeness auto
termination
proof (relation "measure (\<lambda>(cursor, buffer). length buffer)", goal_cases)
  case (2 cursor buffer found)
  then have "found + length cursor \<le> length buffer"
    by (simp add: str_find_Some)
  with 2 show ?case
    by (simp add: length_str_erase)
      (metis add_leE diff_less length_greater_0_conv less_le_trans)
qed simp

declare erase_all.simps [simp del]

definition cursors :: "string list" where
  "cursors = [ANSI_ARROW_UP, ANSI_ARROW_DOWN, ANSI_ARROW_RIGHT, ANSI_ARROW_LEFT]"

definition stripEscapeCharacters :: "string \<Rightarrow> string" where
  "stripEscapeCharacters buffer = fold erase_all cursors buffer"

lemma erase_all_not_contains: "cursor \<noteq> [] \<Longrightarrow> \<not> sublist cursor (erase_all cursor b)"
  by (induction cursor b rule: erase_all.induct)
    (subst erase_all.simps, auto simp: str_find_None split: option.splits)

lemma erase_all_subseq: "subseq (erase_all cursor b) b"
proof (induction cursor b rule: erase_all.induct)
  case (1 cursor b)
  then show ?case
    by (subst erase_all.simps)
      (auto split: option.splits intro: subseq_order.order_trans subseq_str_erase)
qed

lemma erase_all_id: "\<not> sublist cursor b \<Longrightarrow> erase_all cursor b = b"
  by (subst erase_all.simps) (auto simp: str_find_None [symmetric])

lemma fold_erase_all_subseq: "subseq (fold erase_all cs b) b"
proof (induction cs arbitrary: b)
  case (Cons c cs)
  have "subseq (fold erase_all cs (erase_all c b)) (erase_all c b)" by (rule Cons.IH)
  then show ?case using erase_all_subseq subseq_order.order_trans by fastforce
qed simp

lemma stripEscape_subseq: "subseq (stripEscapeCharacters b) b"
  unfolding stripEscapeCharacters_def by (rule fold_erase_all_subseq)

lemma stripEscape_no_left: "\<not> sublist ANSI_ARROW_LEFT (stripEscapeCharacters b)"
  unfolding stripEscapeCharacters_def cursors_def
  by (simp add: erase_all_not_contains ANSI_ARROW_LEFT_def)

text \<open>
  What a terminal sends between two reads is a sequence of ordinary bytes and complete arrow
  keys. On such a buffer the pass removes exactly the arrow keys.
\<close>

datatype key = Plain char | Arrow string

fun key_bytes :: "key \<Rightarrow> string" where
  "key_bytes (Plain c) = [c]"
| "key_bytes (Arrow a) = a"

definition keys_bytes :: "key list \<Rightarrow> string" where
  "keys_bytes ks = concat (map key_bytes ks)"

fun key_ok :: "key \<Rightarrow> bool" where
  "key_ok (Plain c) \<longleftrightarrow> c \<noteq> CHR 0x1B"
| "key_ok (Arrow a) \<longleftrightarrow> a \<in> set cursors"

definition arrow_form :: "string \<Rightarrow> bool" where
  "arrow_form a \<longleftrightarrow> length a = 3 \<and> hd a = CHR 0x1B \<and> CHR 0x1B \<notin> set (tl a)"

lemma cursors_form: "a \<in> set cursors \<Longrightarrow> arrow_form a"
  by (auto simp: cursors_def arrow_form_def eval_simps)

lemma keys_bytes_simps [simp]:
  "keys_bytes [] = []"
  "keys_bytes (k # ks) = key_bytes k @ keys_bytes ks"
  "keys_bytes (ks @ ls) = keys_bytes ks @ keys_bytes ls"
  by (simp_all add: keys_bytes_def)

text \<open>An arrow sequence starts with the escape byte, so it occurs at key boundaries only.\<close>

lemma arrow_prefix_keys:
  assumes "arrow_form a" and "list_all key_ok ks" and "take 3 (keys_bytes ks) = a"
  shows "\<exists>ls. ks = Arrow a # ls"
proof (cases ks)
  case Nil
  with assms show ?thesis by (auto simp: arrow_form_def)
next
  case (Cons k ls)
  show ?thesis
  proof (cases k)
    case (Plain c)
    with Cons assms show ?thesis by (auto simp: arrow_form_def)
  next
    case (Arrow d)
    with Cons assms have "arrow_form d" by (simp add: cursors_form)
    with Cons Arrow assms show ?thesis by (auto simp: arrow_form_def)
  qed
qed

lemma str_find_in_plain_tail:
  assumes "arrow_form a" and "CHR 0x1B \<notin> set u"
  shows "str_find a (u @ v) = map_option (\<lambda>i. length u + i) (str_find a v)"
  using assms(2)
proof (induction u)
  case Nil
  then show ?case by (simp add: option.map_ident)
next
  case (Cons c u)
  have "take (length a) (c # u @ v) \<noteq> a"
  proof
    assume eq: "take (length a) (c # u @ v) = a"
    from assms(1) obtain x y where "a = [CHR 0x1B, x, y]"
      by (auto simp: arrow_form_def length_Suc_conv numeral_3_eq_3)
    with eq have "c = CHR 0x1B" by simp
    with Cons.prems show False by simp
  qed
  with Cons show ?case by (simp add: option.map_comp o_def)
qed

lemma str_find_keys:
  assumes "arrow_form a" and "list_all key_ok ls" and "Arrow a \<notin> set ls"
  shows "str_find a (keys_bytes ls @ v) =
    map_option (\<lambda>i. length (keys_bytes ls) + i) (str_find a v)"
  using assms(2,3)
proof (induction ls)
  case Nil
  then show ?case by (simp add: option.map_ident)
next
  case (Cons k ls)
  show ?case
  proof (cases k)
    case (Plain c)
    with Cons.prems have "CHR 0x1B \<notin> set [c]" by auto
    from str_find_in_plain_tail [OF assms(1) this, of "keys_bytes ls @ v"] Cons Plain
    show ?thesis by (simp add: option.map_comp o_def del: str_find.simps)
  next
    case (Arrow d)
    with Cons.prems have "arrow_form d" and "d \<noteq> a" by (auto intro: cursors_form)
    with assms(1) obtain x y where d: "d = [CHR 0x1B, x, y]" and "CHR 0x1B \<notin> set [x, y]"
      by (auto simp: arrow_form_def length_Suc_conv numeral_3_eq_3)
    with assms(1) have tail: "str_find a (x # y # keys_bytes ls @ v) =
        map_option (\<lambda>i. 2 + i) (str_find a (keys_bytes ls @ v))"
      using str_find_in_plain_tail [of a "[x, y]"] by simp
    have "length a = 3" using assms(1) by (simp add: arrow_form_def)
    with \<open>d \<noteq> a\<close> tail d Arrow Cons show ?thesis
      by (simp add: option.map_comp o_def numeral_3_eq_3)
  qed
qed

lemma str_find_self: "a \<noteq> [] \<Longrightarrow> str_find a (a @ v) = Some 0"
  by (cases a) auto

lemma erase_all_keys:
  assumes "a \<in> set cursors" and "list_all key_ok ks"
  shows "erase_all a (keys_bytes ks) = keys_bytes (filter (\<lambda>k. k \<noteq> Arrow a) ks)"
  using assms(2)
proof (induction "length ks" arbitrary: ks rule: less_induct)
  case less
  note form = cursors_form [OF assms(1)]
  show ?case
  proof (cases "Arrow a \<in> set ks")
    case False
    then have "str_find a (keys_bytes ks) = None"
      using str_find_keys [OF form less.prems False, of "[]"] form
      by (auto simp: arrow_form_def)
    moreover from False have "filter (\<lambda>k. k \<noteq> Arrow a) ks = ks"
      by (auto simp: filter_id_conv)
    ultimately show ?thesis by (subst erase_all.simps) auto
  next
    case True
    then obtain ls ms where ks: "ks = ls @ Arrow a # ms" and ls: "Arrow a \<notin> set ls"
      by (meson split_list_first)
    with less.prems have ok: "list_all key_ok ls" "list_all key_ok (ls @ ms)" by auto
    have ne: "a \<noteq> []" using form by (auto simp: arrow_form_def)
    have "str_find a (keys_bytes ks) = Some (length (keys_bytes ls))"
      using str_find_keys [OF form ok(1) ls, of "a @ keys_bytes ms"]
      by (simp add: ks str_find_self ne)
    then have "erase_all a (keys_bytes ks) = erase_all a (keys_bytes (ls @ ms))"
      using ne by (subst erase_all.simps) (simp add: ks)
    also have "\<dots> = keys_bytes (filter (\<lambda>k. k \<noteq> Arrow a) (ls @ ms))"
      by (rule less.hyps) (use ok in \<open>simp_all add: ks\<close>)
    finally show ?thesis by (simp add: ks)
  qed
qed

definition plain_bytes :: "key list \<Rightarrow> string" where
  "plain_bytes ks = concat (map (\<lambda>k. case k of Plain c \<Rightarrow> [c] | Arrow _ \<Rightarrow> []) ks)"

lemma fold_erase_all_keys:
  "set cs \<subseteq> set cursors \<Longrightarrow> list_all key_ok ks \<Longrightarrow>
     fold erase_all cs (keys_bytes ks) = keys_bytes (filter (\<lambda>k. k \<notin> Arrow ` set cs) ks)"
proof (induction cs arbitrary: ks)
  case (Cons c cs)
  then have "list_all key_ok (filter (\<lambda>k. k \<noteq> Arrow c) ks)"
    by (auto simp: list_all_iff)
  with Cons show ?case
    by (auto simp: erase_all_keys intro!: arg_cong [where f = keys_bytes] filter_cong)
qed (simp add: filter_True)

lemma keys_bytes_no_arrows:
  "list_all key_ok ks \<Longrightarrow>
     keys_bytes (filter (\<lambda>k. k \<notin> Arrow ` set cursors) ks) = plain_bytes ks"
  by (induction ks) (auto simp: plain_bytes_def split: key.splits elim: key_ok.elims)

lemma stripEscape_keys:
  "list_all key_ok ks \<Longrightarrow> stripEscapeCharacters (keys_bytes ks) = plain_bytes ks"
  unfolding stripEscapeCharacters_def
  by (simp add: fold_erase_all_keys keys_bytes_no_arrows)

section \<open>\<open>processBackspace\<close>\<close>

text \<open>
  The loop looks for the first \<open>0x7f\<close>, and for the first \<open>0x08\<close> only when there is no \<open>0x7f\<close>.
  The result is the flag and the buffer.
\<close>

definition BS_DEL :: char where [eval_simps]: "BS_DEL = CHR 0x7F"
definition BS_BS :: char where [eval_simps]: "BS_BS = CHR 0x08"

definition find_backspace :: "string \<Rightarrow> nat option" where
  "find_backspace buffer =
     (case str_find_char BS_DEL buffer of
        None \<Rightarrow> str_find_char BS_BS buffer
      | Some found \<Rightarrow> Some found)"

lemma find_backspace_Some: "find_backspace b = Some i \<Longrightarrow> i < length b"
  by (auto simp: find_backspace_def split: option.splits dest: str_find_char_Some)

function backspace_loop :: "bool \<Rightarrow> string \<Rightarrow> bool \<times> string" where
  "backspace_loop foundBackspaces buffer =
     (case find_backspace buffer of
        None \<Rightarrow> (foundBackspaces, buffer)
      | Some found \<Rightarrow>
          backspace_loop True
            (if length buffer > 1 \<and> found > 0 then str_erase (found - 1) 2 buffer else []))"
  by pat_completeness auto
termination
proof (relation "measure (\<lambda>(f, buffer). length buffer)", goal_cases)
  case (2 f buffer found)
  then have "found < length buffer" by (simp add: find_backspace_Some)
  then show ?case by (auto intro!: length_str_erase_less)
qed simp

declare backspace_loop.simps [simp del]

definition processBackspace :: "string \<Rightarrow> bool \<times> string" where
  "processBackspace buffer = backspace_loop False buffer"

text \<open>The specification: a line editor with one erase key. \<open>None\<close> is an erase on an empty line.\<close>

fun edits :: "char \<Rightarrow> string \<Rightarrow> string \<Rightarrow> string option" where
  "edits k out [] = Some out"
| "edits k out (c # s) =
     (if c = k
      then if out = [] then None else edits k (butlast out) s
      else edits k (out @ [c]) s)"

definition edit_or_clear :: "char \<Rightarrow> string \<Rightarrow> string" where
  "edit_or_clear k b = (case edits k [] b of None \<Rightarrow> [] | Some r \<Rightarrow> r)"

lemma edits_no_key: "k \<notin> set s \<Longrightarrow> edits k out s = Some (out @ s)"
  by (induction s arbitrary: out) auto

lemma edits_set:
  "edits k out s = Some r \<Longrightarrow> k \<notin> set out \<Longrightarrow> set r \<subseteq> set out \<union> set s \<and> k \<notin> set r"
proof (induction k out s rule: edits.induct)
  case (2 k out c s)
  then show ?case by (auto split: if_splits dest: in_set_butlastD)
qed auto

lemma edit_or_clear_set: "set (edit_or_clear k b) \<subseteq> set b \<and> k \<notin> set (edit_or_clear k b)"
  using edits_set [of k "[]" b] by (cases "edits k [] b") (fastforce simp: edit_or_clear_def)+

lemma edits_length: "edits k out s = Some r \<Longrightarrow> length r \<le> length out + length s"
proof (induction k out s arbitrary: r rule: edits.induct)
  case (2 k out c s)
  then show ?case by (fastforce split: if_splits)
qed auto

lemma edit_or_clear_length: "length (edit_or_clear k b) \<le> length b"
  using edits_length [of k "[]" b] by (auto simp: edit_or_clear_def split: option.splits)

lemma edit_or_clear_id [simp]: "k \<notin> set b \<Longrightarrow> edit_or_clear k b = b"
  by (simp add: edit_or_clear_def edits_no_key)

text \<open>One step of the loop for the key \<open>k\<close> alone, in terms of the specification.\<close>

definition erase_step :: "nat \<Rightarrow> string \<Rightarrow> string" where
  "erase_step found buffer =
     (if length buffer > 1 \<and> found > 0 then str_erase (found - 1) 2 buffer else [])"

lemma edits_erase_step:
  assumes "k \<notin> set out"
  shows "(case edits k out (k # s) of None \<Rightarrow> [] | Some r \<Rightarrow> r) =
    (case edits k [] (erase_step (length out) (out @ k # s)) of None \<Rightarrow> [] | Some r \<Rightarrow> r)"
proof (cases out rule: rev_cases)
  case Nil
  then show ?thesis by (simp add: erase_step_def)
next
  case (snoc u x)
  have skip: "k \<notin> set u \<Longrightarrow> edits k v (u @ s) = edits k (v @ u) s" for u v
    by (induction u arbitrary: v) auto
  have "erase_step (length out) (out @ k # s) = u @ s"
    by (simp add: erase_step_def snoc str_erase_def)
  with assms snoc skip [of u "[]"] show ?thesis by simp
qed

lemma edit_or_clear_step:
  assumes "str_find_char k b = Some i"
  shows "edit_or_clear k b = edit_or_clear k (erase_step i b)"
proof -
  from str_find_char_Some [OF assms]
  have b: "b = take i b @ k # drop (Suc i) b" and u: "k \<notin> set (take i b)" and len: "length (take i b) = i"
    by auto
  have skip: "k \<notin> set u \<Longrightarrow> edits k v (u @ s) = edits k (v @ u) s" for u v s
    by (induction u arbitrary: v) auto
  have "edits k [] b = edits k (take i b) (k # drop (Suc i) b)"
    using skip [OF u, of "[]" "k # drop (Suc i) b"] b by simp
  then show ?thesis
    using edits_erase_step [OF u, of "drop (Suc i) b"] b len
    by (simp add: edit_or_clear_def)
qed

lemma set_erase_step: "set (erase_step i b) \<subseteq> set b"
  using set_str_erase [of "i - 1" 2 b] by (auto simp: erase_step_def)

lemma backspace_loop_spec:
  "backspace_loop f b =
     (f \<or> BS_DEL \<in> set b \<or> BS_BS \<in> set b, edit_or_clear BS_BS (edit_or_clear BS_DEL b))"
proof (induction f b rule: backspace_loop.induct)
  case (1 f b)
  show ?case
  proof (cases "find_backspace b")
    case None
    then have "BS_DEL \<notin> set b" "BS_BS \<notin> set b"
      by (auto simp: find_backspace_def str_find_char_None split: option.splits)
    with None show ?thesis by (subst backspace_loop.simps) simp
  next
    case (Some i)
    let ?b = "erase_step i b"
    from 1 [OF Some] have IH: "backspace_loop f b =
        (True, edit_or_clear BS_BS (edit_or_clear BS_DEL ?b))"
      by (subst backspace_loop.simps) (simp add: Some erase_step_def)
    show ?thesis
    proof (cases "str_find_char BS_DEL b")
      case None
      with Some have bs: "str_find_char BS_BS b = Some i" and del: "BS_DEL \<notin> set b"
        by (simp_all add: find_backspace_def str_find_char_None [symmetric])
      then have "BS_DEL \<notin> set ?b" using set_erase_step by blast
      with IH bs del show ?thesis
        by (auto simp: edit_or_clear_step [OF bs] dest: str_find_char_in)
    next
      case Some': (Some j)
      with Some have del: "str_find_char BS_DEL b = Some i" by (simp add: find_backspace_def)
      with IH show ?thesis
        by (auto simp: edit_or_clear_step [OF del] dest: str_find_char_in)
    qed
  qed
qed

section \<open>\<open>getCompleteLines\<close>\<close>

function complete_loop :: "string list \<Rightarrow> string \<Rightarrow> string list \<times> string" where
  "complete_loop lines buffer =
     (case str_find CRLF buffer of
        None \<Rightarrow> (lines, buffer)
      | Some found \<Rightarrow>
          complete_loop (lines @ [str_substr 0 found buffer]) (str_erase 0 (found + 2) buffer))"
  by pat_completeness auto
termination
proof (relation "measure (\<lambda>(lines, buffer). length buffer)", goal_cases)
  case (2 lines buffer found)
  then have "found + 2 \<le> length buffer"
    using str_find_Some [OF 2] by (simp add: CRLF_def)
  then show ?case by (simp add: str_erase_def)
qed simp

declare complete_loop.simps [simp del]

definition getCompleteLines :: "string \<Rightarrow> string list \<times> string" where
  "getCompleteLines buffer = complete_loop [] buffer"

definition unlines_crlf :: "string list \<Rightarrow> string" where
  "unlines_crlf ls = concat (map (\<lambda>l. l @ CRLF) ls)"

lemma unlines_crlf_simps [simp]:
  "unlines_crlf [] = []"
  "unlines_crlf (l # ls) = l @ CRLF @ unlines_crlf ls"
  "unlines_crlf (ls @ ms) = unlines_crlf ls @ unlines_crlf ms"
  by (simp_all add: unlines_crlf_def)

lemma CRLF_basic [simp]: "length CRLF = 2" "CRLF \<noteq> []"
  by (simp_all add: CRLF_def)

lemma sublist_CRLF_Cons:
  "sublist CRLF (c # s) \<longleftrightarrow> (c = CHR 0x0D \<and> s \<noteq> [] \<and> hd s = CHR 0x0A) \<or> sublist CRLF s"
  by (cases s) (auto simp: CRLF_def sublist_Cons_right)

lemma str_find_crlf:
  "\<not> sublist CRLF l \<Longrightarrow> str_find CRLF (l @ CRLF @ v) = Some (length l)"
proof (induction l)
  case Nil
  then show ?case by (simp add: CRLF_def)
next
  case (Cons c l)
  then have "take 2 (c # l @ CRLF @ v) \<noteq> CRLF"
    by (cases l) (auto simp: sublist_CRLF_Cons CRLF_def)
  with Cons show ?case by (simp add: sublist_CRLF_Cons)
qed

text \<open>What the loop returns is the only way to cut the buffer at line ends.\<close>

lemma complete_loop_unlines:
  "list_all (\<lambda>l. \<not> sublist CRLF l) ls \<Longrightarrow> \<not> sublist CRLF r \<Longrightarrow>
     complete_loop acc (unlines_crlf ls @ r) = (acc @ ls, r)"
proof (induction ls arbitrary: acc)
  case Nil
  then show ?case by (subst complete_loop.simps) (simp add: str_find_None [symmetric])
next
  case (Cons l ls)
  have "str_find CRLF (l @ CRLF @ unlines_crlf ls @ r) = Some (length l)"
    using Cons.prems by (intro str_find_crlf) simp
  moreover have "str_erase 0 (length l + 2) (l @ CRLF @ unlines_crlf ls @ r) = unlines_crlf ls @ r"
    by (simp add: str_erase_def CRLF_def)
  ultimately show ?case
    using Cons by (subst complete_loop.simps) (simp add: str_substr_def)
qed

lemma sublist_take_find:
  assumes "str_find pat b = Some i" and "pat \<noteq> []"
  shows "\<not> sublist pat (take i b)"
proof
  assume "sublist pat (take i b)"
  then obtain u v where eq: "take i b = u @ pat @ v" by (auto simp: sublist_def)
  from str_find_Some [OF assms(1)] have "length (take i b) = i" by simp
  with eq assms(2) have "length u < i" by (metis length_append add_less_cancel_left
        length_greater_0_conv add.right_neutral trans_less_add1 append_is_Nil_conv)
  moreover have "b = u @ pat @ v @ drop i b"
    using eq by (metis append.assoc append_take_drop_id)
  then have "take (length pat) (drop (length u) b) = pat" by (metis append_eq_conv_conj)
  ultimately show False using str_find_least [OF assms(1)] by blast
qed

lemma complete_loop_decompose:
  "\<exists>ls r. complete_loop acc b = (acc @ ls, r) \<and> b = unlines_crlf ls @ r \<and>
     list_all (\<lambda>l. \<not> sublist CRLF l) ls \<and> \<not> sublist CRLF r"
proof (induction acc b rule: complete_loop.induct)
  case (1 acc b)
  show ?case
  proof (cases "str_find CRLF b")
    case None
    then show ?thesis
      by (rule_tac x = "[]" in exI, rule_tac x = b in exI, subst complete_loop.simps)
        (simp add: str_find_None [symmetric])
  next
    case (Some i)
    let ?l = "str_substr 0 i b"
    from "1.IH" [OF Some] obtain ls r where IH:
      "complete_loop (acc @ [?l]) (str_erase 0 (i + 2) b) = ((acc @ [?l]) @ ls, r)"
      "str_erase 0 (i + 2) b = unlines_crlf ls @ r"
      "list_all (\<lambda>l. \<not> sublist CRLF l) ls" "\<not> sublist CRLF r" by blast
    have "b = ?l @ CRLF @ str_erase 0 (i + 2) b"
      using str_find_split [OF Some] by (simp add: str_substr_def str_erase_def)
    moreover have "\<not> sublist CRLF ?l"
      using sublist_take_find [OF Some] by (simp add: str_substr_def)
    ultimately show ?thesis
      using IH Some
      by (rule_tac x = "?l # ls" in exI, rule_tac x = r in exI, subst complete_loop.simps) simp
  qed
qed

lemma getCompleteLines_decompose:
  assumes "getCompleteLines b = (ls, r)"
  shows "b = unlines_crlf ls @ r" and "list_all (\<lambda>l. \<not> sublist CRLF l) ls" and "\<not> sublist CRLF r"
  using assms complete_loop_decompose [of "[]" b] by (auto simp: getCompleteLines_def)

lemma getCompleteLines_unlines:
  "list_all (\<lambda>l. \<not> sublist CRLF l) ls \<Longrightarrow> \<not> sublist CRLF r \<Longrightarrow>
     getCompleteLines (unlines_crlf ls @ r) = (ls, r)"
  using complete_loop_unlines [of ls r "[]"] by (simp add: getCompleteLines_def)

lemma getCompleteLines_append:
  assumes "getCompleteLines b = (ls, r)" and "getCompleteLines (r @ c) = (ms, q)"
  shows "getCompleteLines (b @ c) = (ls @ ms, q)"
proof -
  note d = getCompleteLines_decompose [OF assms(1)] and e = getCompleteLines_decompose [OF assms(2)]
  have "b @ c = unlines_crlf (ls @ ms) @ q" using d(1) e(1) by (metis append.assoc unlines_crlf_simps(3))
  moreover have "getCompleteLines (unlines_crlf (ls @ ms) @ q) = (ls @ ms, q)"
    using d e by (intro getCompleteLines_unlines) auto
  ultimately show ?thesis by simp
qed

end
