(* ===== verification/TelnetStats.thy ===== *)
theory TelnetStats
  imports BaseStats
begin

text \<open>
  \<open>include/telnet/TelnetStats.hpp\<close> and \<open>src/telnet/TelnetStats.cpp\<close>: the statistics a session and
  one round of the server collect, and how they are reported to prometheus.
\<close>

record session_stats =
  connectTime :: nanos
  disconnectTime :: nanos
  uploadBytes :: size_t
  downloadBytes :: size_t
  successCmdCtr :: u64
  failCmdCtr :: u64

definition session_stats0 :: session_stats where
  [eval_simps]: "session_stats0 = \<lparr>connectTime = 0, disconnectTime = 0, uploadBytes = 0,
     downloadBytes = 0, successCmdCtr = 0, failCmdCtr = 0\<rparr>"

record server_stats =
  processingTimeStart :: nanos
  processingTimeEnd :: nanos
  activeConnectionCtr :: u64
  acceptedConnectionCtr :: u64
  refusedConnectionCtr :: u64

text \<open>The object holds the metrics; what identifies them is the prefix of their names.\<close>

record telnet_stats =
  ts_name :: string

definition telnet_stats_name :: "string \<Rightarrow> string" where
  "telnet_stats_name prependName =
     (if prependName = [] then ''telnet_'' else prependName @ ''_telnet_'')"

definition TelnetStats_ctor ::
    "env \<Rightarrow> bool \<Rightarrow> u16 \<Rightarrow> string \<Rightarrow> world \<Rightarrow> string + telnet_stats \<times> world" where
  "TelnetStats_ctor E reg portNumber prependName w =
     (if \<not> reg then Inl ''Can't init Telnet statistics. Registry is null''
      else
        let name = telnet_stats_name prependName;
            w = initBaseStats name w;
            info = take (length name - 1) name;
            w = metric (Register KInfo info ''Telnet server information'') w;
            w = metric (InfoAdd info [(''server_port'', dec_of_nat (unat portNumber))]) w;
            w = metric (InfoAdd info [(''init_time'', e_time_iso E (calls w))]) w;
            w = metric (InfoAdd info [(''performance_unit'', ''nanoseconds'')]) w;
            w = metric (Register KGauge (name @ ''active_connections'') ''Number of active connections'') w;
            w = metric (Register KCounter (name @ ''refused_connections'') ''Number of refused connections'') w;
            w = metric (Register KCounter (name @ ''received_connections'') ''Number of received connections'') w;
            w = metric (Register KCounter (name @ ''uploaded_bytes'') ''Total uploaded bytes'') w;
            w = metric (Register KCounter (name @ ''downloaded_bytes'') ''Total downloaded bytes'') w;
            w = metric (Register KSummary (name @ ''session_duration'') ''Duration of sessions'') w;
            w = metric (Register KGauge (name @ ''maximum_session_duration'') ''Maximum duration of sessions'') w;
            w = metric (Register KGauge (name @ ''minimum_session_duration'') ''Minimum duration of sessions'') w;
            w = metric (GaugeSet (name @ ''minimum_session_duration'') INT_MAX) w
        in Inr (\<lparr>ts_name = name\<rparr>, w))"

text \<open>The part of \<open>consumeStats\<close> for a closed session.\<close>

definition consume_duration :: "env \<Rightarrow> string \<Rightarrow> int \<Rightarrow> world \<Rightarrow> world" where
  "consume_duration E name sessionTime w =
     (let w = metric (SummaryObserve (name @ ''session_duration'') sessionTime) w;
          w = (if sessionTime < e_gauge E (calls w) (name @ ''minimum_session_duration'')
               then metric (GaugeSet (name @ ''minimum_session_duration'') sessionTime) w else w)
      in if sessionTime > e_gauge E (calls w) (name @ ''maximum_session_duration'')
         then metric (GaugeSet (name @ ''maximum_session_duration'') sessionTime) w else w)"

definition consumeSessionStats ::
    "env \<Rightarrow> telnet_stats \<Rightarrow> session_stats \<Rightarrow> bool \<Rightarrow> world \<Rightarrow> world" where
  "consumeSessionStats E ts stat sessionClosed w =
     (let name = ts_name ts;
          w = consumeBaseStats E name (successCmdCtr stat) (failCmdCtr stat) 0 w;
          w = metric (CounterIncrement (name @ ''uploaded_bytes'') (dbl (uint (uploadBytes stat)))) w;
          w = metric (CounterIncrement (name @ ''downloaded_bytes'') (dbl (uint (downloadBytes stat)))) w
      in if sessionClosed
         then consume_duration E name (dbl (seconds (disconnectTime stat - connectTime stat))) w
         else w)"

definition consumeServerStats ::
    "env \<Rightarrow> telnet_stats \<Rightarrow> server_stats \<Rightarrow> world \<Rightarrow> world" where
  "consumeServerStats E ts stat w =
     (let name = ts_name ts;
          w = metric (GaugeSet (name @ ''active_connections'') (dbl (uint (activeConnectionCtr stat)))) w;
          w = metric (CounterIncrement (name @ ''refused_connections'') (dbl (uint (refusedConnectionCtr stat)))) w;
          w = metric (CounterIncrement (name @ ''received_connections'') (dbl (uint (acceptedConnectionCtr stat)))) w
      in if activeConnectionCtr stat > 0
         then consumeBaseStats E name 0 0 (dbl (processingTimeEnd stat - processingTimeStart stat)) w
         else w)"

interpretation duration: minmax_gauges
  "\<lambda>E v. consume_duration E name v" "\<lambda>v. True"
  "name @ ''minimum_session_duration''" "name @ ''maximum_session_duration''"
  for name
  by unfold_locales (auto simp: consume_duration_def Let_def gauge_lawD)

lemma metrics_only_duration: "metrics_only w (consume_duration E name v w)"
  by (simp add: consume_duration_def Let_def metrics_only_metric)

lemma metrics_only_session: "metrics_only w (consumeSessionStats E ts stat closed w)"
  by (auto simp: consumeSessionStats_def Let_def
      intro!: metrics_only_metric metrics_only_base metrics_only_trans [OF _ metrics_only_duration])

lemma metrics_only_server: "metrics_only w (consumeServerStats E ts stat w)"
  by (auto simp: consumeServerStats_def Let_def
      intro!: metrics_only_metric metrics_only_trans [OF _ metrics_only_base])

end
