(* ===== verification/TelnetSession.thy ===== *)
theory TelnetSession
  imports TelnetEdit TelnetStats
begin

text \<open>
  Class \<open>TelnetSession\<close> of \<open>include/telnet/TelnetServer.hpp\<close> and \<open>src/telnet/TelnetServer.cpp\<close>: the
  state of one connection and everything it does with the bytes it receives. An operation
  works on a context, the session together with the world. The server's callbacks are
  functions on contexts, and the locale \<open>telnet_callbacks\<close> states what the session relies on.
\<close>

section \<open>State\<close>

definition DEFAULT_BUFLEN :: nat where [eval_simps]: "DEFAULT_BUFLEN = 512"
definition TELNET_TIMEOUT :: int where [eval_simps]: "TELNET_TIMEOUT = 120"
definition TELNET_HISTORY_LIMIT :: nat where [eval_simps]: "TELNET_HISTORY_LIMIT = 50"

definition ANSI_ERASE_LINE :: string where
  [eval_simps]: "ANSI_ERASE_LINE = [CHR 0x1B, CHR 0x5B, CHR ''2'', CHR ''K'']"
definition moveBack :: string where
  [eval_simps]: "moveBack = [CHR 0x1B, CHR 0x5B, CHR ''8'', CHR ''0'', CHR ''D'']"

text \<open>The history cursor is an iterator into the list: a position, the length standing for \<open>end()\<close>.\<close>

record session =
  stats :: session_stats
  lastSeenTime :: nanos
  m_socket :: sock
  m_buffer :: string
  m_history :: "string list"
  m_historyCursor :: nat

definition new_session :: "sock \<Rightarrow> session" where
  "new_session ClientSocket = \<lparr>stats = session_stats0, lastSeenTime = 0, m_socket = ClientSocket,
     m_buffer = [], m_history = [], m_historyCursor = length ([] :: string list)\<rparr>"

record ctx =
  sess :: session
  wrld :: world

definition on_sess :: "(session \<Rightarrow> session) \<Rightarrow> ctx \<Rightarrow> ctx" where
  "on_sess f x = x\<lparr>sess := f (sess x)\<rparr>"

definition on_wrld :: "(world \<Rightarrow> world) \<Rightarrow> ctx \<Rightarrow> ctx" where
  "on_wrld f x = x\<lparr>wrld := f (wrld x)\<rparr>"

definition set_buffer :: "string \<Rightarrow> ctx \<Rightarrow> ctx" where
  "set_buffer b = on_sess (\<lambda>s. s\<lparr>m_buffer := b\<rparr>)"

lemma ctx_simps [simp]:
  "sess (on_sess f x) = f (sess x)"  "wrld (on_sess f x) = wrld x"
  "sess (on_wrld g x) = sess x"  "wrld (on_wrld g x) = g (wrld x)"
  "sess (set_buffer b x) = (sess x)\<lparr>m_buffer := b\<rparr>"  "wrld (set_buffer b x) = wrld x"
  by (simp_all add: on_sess_def on_wrld_def set_buffer_def)

text \<open>The part of class \<open>TelnetServer\<close> a session reads: the prompt and the callbacks.\<close>

type_synonym connected_cb = "env \<Rightarrow> string \<Rightarrow> ctx \<Rightarrow> ctx"
type_synonym newline_cb = "env \<Rightarrow> string \<Rightarrow> string \<Rightarrow> ctx \<Rightarrow> bool \<times> ctx"
type_synonym tab_cb = "env \<Rightarrow> string \<Rightarrow> string \<Rightarrow> ctx \<Rightarrow> string \<times> ctx"

record telnet_cfg =
  m_promptString :: string
  m_connectedCallback :: "connected_cb option"
  m_newlineCallback :: "newline_cb option"
  m_tabCallback :: "tab_cb option"

definition interactivePrompt :: "string \<Rightarrow> bool" where
  "interactivePrompt prompt \<longleftrightarrow> prompt \<noteq> []"

section \<open>Sending\<close>

definition sock_send :: "env \<Rightarrow> string \<Rightarrow> ctx \<Rightarrow> int \<times> ctx" where
  "sock_send E data x =
     (let s = m_socket (sess x); n = e_send E (calls (wrld x)) s data
      in (n, on_wrld (emit (Send s data n)) x))"

definition add_upload :: "int \<Rightarrow> ctx \<Rightarrow> ctx" where
  "add_upload n = on_sess (\<lambda>s. s\<lparr>stats := (stats s)\<lparr>uploadBytes := uploadBytes (stats s) + of_int n\<rparr>\<rparr>)"

text \<open>The idiom of the source: send, and count the bytes if the result is positive.\<close>

definition send_counted :: "env \<Rightarrow> string \<Rightarrow> ctx \<Rightarrow> ctx" where
  "send_counted E data x =
     (let (sendBytes, x) = sock_send E data x
      in if sendBytes > 0 then add_upload sendBytes x else x)"

definition sendPromptAndBuffer :: "env \<Rightarrow> string \<Rightarrow> ctx \<Rightarrow> ctx" where
  "sendPromptAndBuffer E prompt x =
     (let x = send_counted E prompt x
      in if m_buffer (sess x) \<noteq> [] then send_counted E (m_buffer (sess x)) x else x)"

definition eraseLine :: "env \<Rightarrow> ctx \<Rightarrow> ctx" where
  "eraseLine E x = send_counted E moveBack (send_counted E ANSI_ERASE_LINE x)"

definition sendLine :: "env \<Rightarrow> string \<Rightarrow> string \<Rightarrow> ctx \<Rightarrow> ctx" where
  "sendLine E prompt data x =
     (let x = (if interactivePrompt prompt \<or> m_buffer (sess x) \<noteq> [] then eraseLine E x else x);
          x = send_counted E (data @ CRLF) x
      in if interactivePrompt prompt then sendPromptAndBuffer E prompt x else x)"

definition echoBack :: "env \<Rightarrow> string \<Rightarrow> ctx \<Rightarrow> ctx" where
  "echoBack E buffer x = (if hd buffer = ASCII_NBSP then x else send_counted E buffer x)"

section \<open>Life cycle and timeout\<close>

text \<open>
  The address structure is zero before \<open>getpeername\<close>, whose result is not looked at; \<open>inet_ntop\<close>
  prints the four bytes in decimal.
\<close>

definition getPeerIP :: "env \<Rightarrow> ctx \<Rightarrow> string" where
  "getPeerIP E x =
     (let client_info = (case e_getpeername E (calls (wrld x)) (m_socket (sess x)) of
            None \<Rightarrow> (0, 0, 0, 0) | Some address \<Rightarrow> address);
          (a, b, c, d) = client_info;
          byte = (\<lambda>v :: 8 word. dec_of_nat (unat v))
      in byte a @ ''.'' @ byte b @ ''.'' @ byte c @ ''.'' @ byte d)"

definition closeClient :: "env \<Rightarrow> ctx \<Rightarrow> ctx" where
  "closeClient E x =
     (let s = m_socket (sess x);
          ip = getPeerIP E x;
          x = on_wrld (emit (Log info (''Telnet connection to '' @ ip @ '' closed''))) x;
          x = on_wrld (emit (Shutdown s)) x;
          x = on_wrld (emit (Close s)) x;
          (now, w) = read_clock E (wrld x)
      in x\<lparr>sess := (sess x)\<lparr>stats := (stats (sess x))\<lparr>disconnectTime := now\<rparr>\<rparr>, wrld := w\<rparr>)"

definition timed_out :: "nanos \<Rightarrow> session \<Rightarrow> bool" where
  "timed_out now s \<longleftrightarrow> \<bar>seconds (now - lastSeenTime s)\<bar> > TELNET_TIMEOUT"

definition checkTimeout :: "env \<Rightarrow> ctx \<Rightarrow> bool \<times> ctx" where
  "checkTimeout E x =
     (let (now, w) = read_clock E (wrld x) in (timed_out now (sess x), x\<lparr>wrld := w\<rparr>))"

definition markTimeout :: "ctx \<Rightarrow> ctx" where
  "markTimeout = on_sess (\<lambda>s. s\<lparr>lastSeenTime := 0\<rparr>)"

definition touch :: "env \<Rightarrow> ctx \<Rightarrow> ctx" where
  "touch E x =
     (let (now, w) = read_clock E (wrld x)
      in x\<lparr>sess := (sess x)\<lparr>lastSeenTime := now\<rparr>, wrld := w\<rparr>)"

definition session_initialise :: "env \<Rightarrow> telnet_cfg \<Rightarrow> ctx \<Rightarrow> ctx" where
  "session_initialise E cfg x =
     (let s = m_socket (sess x);
          ip = getPeerIP E x;
          x = on_wrld (emit (Log info (''Telnet connection received from '' @ ip))) x;
          (now, w) = read_clock E (wrld x);
          x = x\<lparr>sess := (sess x)\<lparr>stats := (stats (sess x))\<lparr>connectTime := now\<rparr>\<rparr>, wrld := w\<rparr>;
          x = on_wrld (emit (SetNonBlocking s)) x;
          x = send_counted E [CHR 0xFF, CHR 0xFB, CHR 0x01] x;
          x = send_counted E [CHR 0xFF, CHR 0xFE, CHR 0x01] x;
          x = send_counted E [CHR 0xFF, CHR 0xFB, CHR 0x03] x;
          x = (case m_connectedCallback cfg of None \<Rightarrow> x | Some cb \<Rightarrow> cb E (m_promptString cfg) x)
      in touch E x)"

section \<open>Command history\<close>

definition addToHistory :: "string \<Rightarrow> session \<Rightarrow> session" where
  "addToHistory line s =
     (let hist = m_history s;
          hist = (if line \<noteq> (if hist \<noteq> [] then last hist else []) \<and> line \<noteq> []
                  then let hist = hist @ [line]
                       in if length hist > TELNET_HISTORY_LIMIT then tl hist else hist
                  else hist)
      in s\<lparr>m_history := hist, m_historyCursor := length hist\<rparr>)"

text \<open>Dereferencing the cursor, and moving it forward, are undefined at \<open>end()\<close>.\<close>

definition deref :: "string list \<Rightarrow> nat \<Rightarrow> fault + string" where
  "deref hist i = (if i < length hist then Inr (hist ! i) else Inl PastEndIterator)"

definition next_iter :: "string list \<Rightarrow> nat \<Rightarrow> fault + nat" where
  "next_iter hist i = (if i < length hist then Inr (Suc i) else Inl PastEndIterator)"

text \<open>
  Show the history entry at position \<open>i\<close>: the rest of both arrow branches. The answer \<open>reply\<close>
  moves the client's cursor back.
\<close>

definition show_entry :: "env \<Rightarrow> string \<Rightarrow> nat \<Rightarrow> ctx \<Rightarrow> fault + bool \<times> ctx" where
  "show_entry E reply i x =
     bind_sum (deref (m_history (sess x)) i) (\<lambda>entry.
       let x = set_buffer entry (on_sess (\<lambda>s. s\<lparr>m_historyCursor := i\<rparr>) x);
           (sendBytes, x) = sock_send E reply x
       in if sendBytes < 0 then Inr (False, x) else Inr (True, add_upload sendBytes x))"

definition processCommandHistory :: "env \<Rightarrow> string \<Rightarrow> ctx \<Rightarrow> fault + bool \<times> ctx" where
  "processCommandHistory E prompt x =
     (let buffer = m_buffer (sess x);
          hist = m_history (sess x);
          cursor = m_historyCursor (sess x)
      in if interactivePrompt prompt
         then if str_contains ANSI_ARROW_UP buffer \<and> hist \<noteq> []
              then show_entry E ANSI_ARROW_DOWN (if cursor \<noteq> 0 then cursor - 1 else cursor) x
              else if str_contains ANSI_ARROW_DOWN buffer \<and> hist \<noteq> []
              then bind_sum (next_iter hist cursor) (\<lambda>succ.
                     show_entry E ANSI_ARROW_UP (if succ \<noteq> length hist then succ else cursor) x)
              else if str_contains ANSI_ARROW_LEFT buffer \<or> str_contains ANSI_ARROW_RIGHT buffer
              then Inr (True, x)
              else Inr (False, x)
         else Inr (False, x))"

section \<open>Tab completion\<close>

text \<open>
  The loop runs until the buffer holds no tab. A callback that answers with a tab can keep it
  going for ever, which is the value \<open>None\<close>.
\<close>

definition TAB :: char where [eval_simps]: "TAB = CHR 0x09"

partial_function (option) tab_loop ::
    "env \<Rightarrow> telnet_cfg \<Rightarrow> bool \<Rightarrow> ctx \<Rightarrow> (bool \<times> ctx) option" where
  "tab_loop E cfg foundTabs x =
     (case str_find_char TAB (m_buffer (sess x)) of
        None \<Rightarrow> Some (foundTabs, x)
      | Some found \<Rightarrow>
          (let x = set_buffer (str_erase found 1 (m_buffer (sess x))) x
           in case m_tabCallback cfg of
                None \<Rightarrow> tab_loop E cfg True x
              | Some cb \<Rightarrow>
                  (let (retCommand, x) = cb E (m_promptString cfg) (str_substr 0 found (m_buffer (sess x))) x
                   in tab_loop E cfg True
                        (if retCommand \<noteq> []
                         then set_buffer (retCommand @ str_erase 0 found (m_buffer (sess x))) x
                         else x))))"

definition processTab :: "env \<Rightarrow> telnet_cfg \<Rightarrow> ctx \<Rightarrow> (bool \<times> ctx) option" where
  "processTab E cfg x = tab_loop E cfg False x"

section \<open>\<open>update\<close>\<close>

definition reset_stats :: "session \<Rightarrow> session" where
  "reset_stats s = s\<lparr>stats := (stats s)\<lparr>uploadBytes := 0, downloadBytes := 0,
     successCmdCtr := 0, failCmdCtr := 0\<rparr>\<rparr>"

definition count_command :: "bool \<Rightarrow> session \<Rightarrow> session" where
  "count_command ok s = s\<lparr>stats :=
     (if ok then (stats s)\<lparr>successCmdCtr := successCmdCtr (stats s) + 1\<rparr>
      else (stats s)\<lparr>failCmdCtr := failCmdCtr (stats s) + 1\<rparr>)\<rparr>"

fun process_lines :: "env \<Rightarrow> telnet_cfg \<Rightarrow> string list \<Rightarrow> ctx \<Rightarrow> ctx" where
  "process_lines E cfg [] x = x"
| "process_lines E cfg (line # lines) x =
     (case m_newlineCallback cfg of
        None \<Rightarrow> x
      | Some cb \<Rightarrow>
          (let (ok, x) = cb E (m_promptString cfg) line x
           in process_lines E cfg lines (on_sess (addToHistory line) (on_sess (count_command ok) x))))"

text \<open>The editing passes, which run with an interactive prompt only. The flag asks for a reprint.\<close>

definition edit_buffer :: "env \<Rightarrow> telnet_cfg \<Rightarrow> ctx \<Rightarrow> fault + bool \<times> ctx" where
  "edit_buffer E cfg x =
     (if interactivePrompt (m_promptString cfg)
      then bind_sum (processCommandHistory E (m_promptString cfg) x) (\<lambda>(hist, x).
        let x = set_buffer (stripEscapeCharacters (m_buffer (sess x))) x;
            (bs, b) = processBackspace (m_buffer (sess x));
            x = set_buffer b x
        in case processTab E cfg x of
             None \<Rightarrow> Inl Diverges
           | Some (tab, x) \<Rightarrow> Inr (hist \<or> bs \<or> tab, x))
      else Inr (False, x))"

definition replace_nulls :: "string \<Rightarrow> string" where
  "replace_nulls b = map (\<lambda>chr. if chr = ASCII_NULL then ASCII_LF else chr) b"

text \<open>What \<open>update\<close> does with the bytes of one successful read.\<close>

definition receive :: "env \<Rightarrow> telnet_cfg \<Rightarrow> string \<Rightarrow> ctx \<Rightarrow> fault + ctx" where
  "receive E cfg recvbuf x =
     (let x = on_sess (\<lambda>s. s\<lparr>stats := (stats s)\<lparr>downloadBytes :=
                downloadBytes (stats s) + of_nat (length recvbuf)\<rparr>\<rparr>) x;
          x = touch E x;
          x = echoBack E recvbuf x;
          x = set_buffer (m_buffer (sess x) @ replace_nulls recvbuf) x;
          x = set_buffer (stripNVT (m_buffer (sess x))) x
      in bind_sum (edit_buffer E cfg x) (\<lambda>(requirePromptReprint, x).
           let (lines, rest) = getCompleteLines (m_buffer (sess x));
               x = process_lines E cfg lines (set_buffer rest x)
           in Inr (if requirePromptReprint \<and> interactivePrompt (m_promptString cfg)
                   then sendPromptAndBuffer E (m_promptString cfg) (eraseLine E x) else x)))"

definition session_update :: "env \<Rightarrow> telnet_cfg \<Rightarrow> ctx \<Rightarrow> fault + ctx" where
  "session_update E cfg x =
     (let x = on_sess reset_stats x;
          s = m_socket (sess x);
          r = e_recv E (calls (wrld x)) s
      in case r of
           RecvError \<Rightarrow> Inr (on_wrld (emits [Recv s DEFAULT_BUFLEN (-1), Close s]) x)
         | RecvAgain \<Rightarrow> Inr (on_wrld (emit (Recv s DEFAULT_BUFLEN (-1))) x)
         | RecvClosed \<Rightarrow> Inr (on_wrld (emit (Recv s DEFAULT_BUFLEN 0)) x)
         | RecvData data \<Rightarrow>
             (let x = on_wrld (emit (Recv s DEFAULT_BUFLEN (int (length data)))) x
              in if data \<noteq> [] then receive E cfg data x else Inr x))"

section \<open>What output leaves alone\<close>

text \<open>
  \<open>session_frame x y\<close>: from \<open>x\<close> to \<open>y\<close> the session only wrote to its own socket, kept its
  buffer, history and counters, and counted exactly the bytes its sends reported.
\<close>

definition same_session :: "session \<Rightarrow> session \<Rightarrow> bool" where
  "same_session s t \<longleftrightarrow>
     m_socket t = m_socket s \<and> m_buffer t = m_buffer s \<and> m_history t = m_history s \<and>
     m_historyCursor t = m_historyCursor s \<and>
     downloadBytes (stats t) = downloadBytes (stats s) \<and>
     successCmdCtr (stats t) = successCmdCtr (stats s) \<and>
     failCmdCtr (stats t) = failCmdCtr (stats s) \<and>
     connectTime (stats t) = connectTime (stats s) \<and>
     disconnectTime (stats t) = disconnectTime (stats s)"

definition accounted :: "ctx \<Rightarrow> ctx \<Rightarrow> bool" where
  "accounted x y \<longleftrightarrow>
     m_socket (sess y) = m_socket (sess x) \<and> vCheckFlag (wrld y) = vCheckFlag (wrld x) \<and>
     (\<exists>cs. calls (wrld y) = calls (wrld x) @ cs \<and> only_sock (m_socket (sess x)) cs \<and> closes cs = [] \<and> opens cs = [] \<and>
        uploadBytes (stats (sess y)) = uploadBytes (stats (sess x)) + of_int (sent_bytes cs))"

definition session_frame :: "ctx \<Rightarrow> ctx \<Rightarrow> bool" where
  "session_frame x y \<longleftrightarrow> same_session (sess x) (sess y) \<and> accounted x y"

lemma accounted_refl [simp]: "accounted x x"
  unfolding accounted_def by (auto intro!: exI [of _ "[]"])

lemma accounted_trans [trans]:
  assumes "accounted x y" and "accounted y z"
  shows "accounted x z"
proof -
  from assms(1) obtain cs where
    "calls (wrld y) = calls (wrld x) @ cs" "only_sock (m_socket (sess x)) cs" "closes cs = []" "opens cs = []"
    "uploadBytes (stats (sess y)) = uploadBytes (stats (sess x)) + of_int (sent_bytes cs)"
    by (auto simp: accounted_def)
  moreover from assms obtain ds where
    "calls (wrld z) = calls (wrld y) @ ds" "only_sock (m_socket (sess x)) ds" "closes ds = []" "opens ds = []"
    "uploadBytes (stats (sess z)) = uploadBytes (stats (sess y)) + of_int (sent_bytes ds)"
    by (auto simp: accounted_def)
  ultimately show ?thesis
    using assms by (auto simp: accounted_def intro!: exI [of _ "cs @ ds"])
qed

lemma session_frame_refl [simp]: "session_frame x x"
  by (simp add: session_frame_def same_session_def)

lemma session_frame_trans [trans]: "session_frame x y \<Longrightarrow> session_frame y z \<Longrightarrow> session_frame x z"
  unfolding session_frame_def same_session_def using accounted_trans by auto

lemma session_frame_accounted: "session_frame x y \<Longrightarrow> accounted x y"
  by (simp add: session_frame_def)

text \<open>Frames compose along a chain of output operations.\<close>

lemma frame_comp: "(\<And>x. session_frame x (f x)) \<Longrightarrow> session_frame x y \<Longrightarrow> session_frame x (f y)"
  using session_frame_trans by blast

lemma accounted_send:
  "sock_send E data x = (n, y) \<Longrightarrow> n \<le> 0 \<Longrightarrow> accounted x y"
  "sock_send E data x = (n, y) \<Longrightarrow> 0 \<le> n \<Longrightarrow> accounted x (add_upload n y)"
  by (auto simp: sock_send_def Let_def accounted_def add_upload_def max_def)

lemma same_session_simps [simp]:
  "same_session (sess x) (sess (snd (sock_send E data x)))"
  "same_session (sess x) (sess (add_upload n x))"
  "sess (snd (sock_send E data x)) = sess x"
  by (simp_all add: same_session_def sock_send_def add_upload_def Let_def)

lemma frame_send: "session_frame x (send_counted E data x)"
proof -
  obtain n y where s: "sock_send E data x = (n, y)" by fastforce
  then have "sess y = sess x" by (metis same_session_simps(3) snd_conv)
  then show ?thesis
    using accounted_send [OF s] same_session_simps(2) [of y n]
    by (auto simp: send_counted_def s session_frame_def same_session_def)
qed

lemma frame_emit [simp]:
  "call_sock c = None \<Longrightarrow> opens [c] = [] \<Longrightarrow> session_frame x (on_wrld (emit c) x)"
  by (cases c) (auto simp: session_frame_def same_session_def accounted_def)

lemma frame_eraseLine: "session_frame x (eraseLine E x)"
  unfolding eraseLine_def by (intro frame_comp [OF frame_send]) simp

lemma frame_prompt: "session_frame x (sendPromptAndBuffer E prompt x)"
  unfolding sendPromptAndBuffer_def Let_def
  by (auto intro!: frame_comp [OF frame_send])

lemma frame_sendLine: "session_frame x (sendLine E prompt data x)"
proof -
  have "session_frame x (if interactivePrompt prompt \<or> m_buffer (sess x) \<noteq> [] then eraseLine E x else x)"
    by (simp add: frame_eraseLine)
  then show ?thesis
    unfolding sendLine_def Let_def
    by (auto intro!: frame_comp [OF frame_prompt] frame_comp [OF frame_send])
qed

lemma frame_markTimeout: "session_frame x (markTimeout x)"
  by (simp add: session_frame_def same_session_def markTimeout_def accounted_def)

lemma frame_touch: "session_frame x (touch E x)"
  by (auto simp: touch_def read_clock_def Let_def session_frame_def same_session_def accounted_def)

lemma frame_echoBack: "session_frame x (echoBack E b x)"
  by (simp add: echoBack_def frame_send)

lemmas frames = frame_send frame_eraseLine frame_prompt frame_sendLine frame_markTimeout
  frame_touch frame_echoBack

text \<open>Changes of the session that touch neither its socket nor the upload count.\<close>

lemma accounted_on_sess:
  "m_socket (f (sess x)) = m_socket (sess x) \<Longrightarrow>
   uploadBytes (stats (f (sess x))) = uploadBytes (stats (sess x)) \<Longrightarrow> accounted x (on_sess f x)"
  by (simp add: accounted_def)

lemma accounted_set_buffer [simp]: "accounted x (set_buffer b x)"
  by (simp add: accounted_def)

lemma accounted_comp: "(\<And>x. accounted x (f x)) \<Longrightarrow> accounted x y \<Longrightarrow> accounted x (f y)"
  using accounted_trans by blast

section \<open>The history\<close>

definition history_ok :: "session \<Rightarrow> bool" where
  "history_ok s \<longleftrightarrow>
     length (m_history s) \<le> TELNET_HISTORY_LIMIT \<and> [] \<notin> set (m_history s) \<and>
     distinct_adj (m_history s) \<and> m_historyCursor s \<le> length (m_history s)"

lemma history_ok_new [simp]: "history_ok (new_session s)"
  by (simp add: history_ok_def new_session_def TELNET_HISTORY_LIMIT_def)

lemma history_ok_addToHistory: "history_ok s \<Longrightarrow> history_ok (addToHistory line s)"
  by (auto simp: history_ok_def addToHistory_def Let_def distinct_adj_snoc distinct_adj_tl
      TELNET_HISTORY_LIMIT_def last_tl dest: list.set_sel(2))

lemma history_ok_frame: "same_session s t \<Longrightarrow> history_ok t = history_ok s"
  by (simp add: same_session_def history_ok_def)

lemma history_ok_simps [simp]:
  "history_ok (s\<lparr>m_buffer := b\<rparr>) = history_ok s"
  "history_ok (reset_stats s) = history_ok s"
  "history_ok (count_command ok s) = history_ok s"
  "history_ok (s\<lparr>stats := st\<rparr>) = history_ok s"
  "history_ok (s\<lparr>lastSeenTime := t\<rparr>) = history_ok s"
  by (simp_all add: history_ok_def reset_stats_def count_command_def)

section \<open>The contract of the callbacks\<close>

definition make_cfg :: "string \<Rightarrow> connected_cb \<Rightarrow> newline_cb \<Rightarrow> tab_cb \<Rightarrow> telnet_cfg" where
  "make_cfg prompt connected newline tab =
     \<lparr>m_promptString = prompt, m_connectedCallback = Some connected,
      m_newlineCallback = Some newline, m_tabCallback = Some tab\<rparr>"

lemma make_cfg_simps [simp]:
  "m_promptString (make_cfg p c n t) = p"
  "m_connectedCallback (make_cfg p c n t) = Some c"
  "m_newlineCallback (make_cfg p c n t) = Some n"
  "m_tabCallback (make_cfg p c n t) = Some t"
  by (simp_all add: make_cfg_def)

definition but_buffer :: "session \<Rightarrow> session \<Rightarrow> bool" where
  "but_buffer s t \<longleftrightarrow> same_session (s\<lparr>m_buffer := []\<rparr>) (t\<lparr>m_buffer := []\<rparr>)"

lemma but_buffer_intros [simp]:
  "but_buffer s s"
  "but_buffer s (s\<lparr>m_buffer := b\<rparr>)"
  by (simp_all add: but_buffer_def same_session_def)

lemma but_buffer_trans: "but_buffer s t \<Longrightarrow> but_buffer t u \<Longrightarrow> but_buffer s u"
  by (simp add: but_buffer_def same_session_def)

lemma same_session_but_buffer: "same_session s t \<Longrightarrow> but_buffer s t"
  by (simp add: but_buffer_def same_session_def)

lemma history_ok_but_buffer: "but_buffer s t \<Longrightarrow> history_ok t = history_ok s"
  by (simp add: but_buffer_def same_session_def history_ok_def)

text \<open>
  What a session needs of the three callbacks of the server: they write to the client through
  the session only, leave its buffer, history and counters alone, and a completion holds no tab.
\<close>

locale telnet_callbacks =
  fixes connected :: connected_cb
    and newline :: newline_cb
    and tab :: tab_cb
  assumes connected_frame: "session_frame x (connected E p x)"
    and newline_frame: "session_frame x (snd (newline E p line x))"
    and tab_frame: "session_frame x (snd (tab E p line x))"
    and tab_no_tab: "TAB \<notin> set (fst (tab E p line x))"
begin

lemma tab_loop_step:
  assumes "str_find_char TAB (m_buffer (sess x)) = Some i"
  defines "b \<equiv> str_erase i 1 (m_buffer (sess x))"
  obtains y where
    "tab_loop E (make_cfg p connected newline tab) f x = tab_loop E (make_cfg p connected newline tab) True y"
    "but_buffer (sess x) (sess y)" "accounted x y"
    "count_list (m_buffer (sess y)) TAB < count_list (m_buffer (sess x)) TAB"
proof -
  obtain ret z where cb: "tab E p (str_substr 0 i b) (set_buffer b x) = (ret, z)" by fastforce
  let ?y = "if ret \<noteq> [] then set_buffer (ret @ str_erase 0 i (m_buffer (sess z))) z else z"
  have frame: "session_frame (set_buffer b x) z"
    using tab_frame [of "set_buffer b x" E p "str_substr 0 i b"] by (simp add: cb)
  then have buf: "m_buffer (sess z) = b"
    by (simp add: session_frame_def same_session_def)
  from str_find_char_Some [OF assms(1)]
  have split: "m_buffer (sess x) = take i (m_buffer (sess x)) @ TAB # drop (Suc i) (m_buffer (sess x))"
    by simp
  have "count_list (m_buffer (sess x)) TAB = Suc (count_list b TAB)"
    by (subst split) (simp add: b_def str_erase_def)
  moreover have "count_list (drop i b) TAB \<le> count_list b TAB"
    using count_list_take_drop [of i b TAB] by simp
  moreover have "count_list ret TAB = 0"
    using tab_no_tab [of E p "str_substr 0 i b" "set_buffer b x"] by (simp add: cb)
  ultimately have "count_list (m_buffer (sess ?y)) TAB < count_list (m_buffer (sess x)) TAB"
    by (simp add: buf str_erase_def)
  moreover have "but_buffer (sess x) (sess z)"
    using frame but_buffer_trans [OF but_buffer_intros(2) [of "sess x" b]]
    by (simp add: session_frame_def same_session_but_buffer)
  then have "but_buffer (sess x) (sess ?y)"
    using but_buffer_trans but_buffer_intros(2) by auto
  moreover have "accounted x z"
    using frame accounted_trans [OF accounted_set_buffer [of x b]]
    by (simp add: session_frame_accounted)
  then have "accounted x ?y" using accounted_trans accounted_set_buffer by auto
  moreover have "tab_loop E (make_cfg p connected newline tab) f x =
      tab_loop E (make_cfg p connected newline tab) True ?y"
    by (subst tab_loop.simps) (simp add: assms(1) cb [unfolded b_def One_nat_def] Let_def)
  ultimately show thesis by (intro that)
qed

lemma tab_loop_total:
  "\<exists>g y. tab_loop E (make_cfg p connected newline tab) f x = Some (g, y) \<and>
     but_buffer (sess x) (sess y) \<and> accounted x y \<and> TAB \<notin> set (m_buffer (sess y))"
proof (induction "count_list (m_buffer (sess x)) TAB" arbitrary: f x rule: less_induct)
  case less
  show ?case
  proof (cases "str_find_char TAB (m_buffer (sess x))")
    case None
    then show ?thesis
      by (subst tab_loop.simps) (simp add: str_find_char_None)
  next
    case (Some i)
    from tab_loop_step [OF Some] obtain y where y:
      "tab_loop E (make_cfg p connected newline tab) f x = tab_loop E (make_cfg p connected newline tab) True y"
      "but_buffer (sess x) (sess y)" "accounted x y"
      "count_list (m_buffer (sess y)) TAB < count_list (m_buffer (sess x)) TAB" by metis
    from less [OF y(4), of True] y show ?thesis
      by (auto intro: but_buffer_trans accounted_trans)
  qed
qed

lemma processTab_total:
  obtains g y where "processTab E (make_cfg p connected newline tab) x = Some (g, y)"
    and "but_buffer (sess x) (sess y)" and "accounted x y" and "TAB \<notin> set (m_buffer (sess y))"
  using tab_loop_total unfolding processTab_def by blast

lemma process_lines_accounted:
  "accounted x (process_lines E (make_cfg p connected newline tab) ls x)"
proof (induction ls arbitrary: x)
  case (Cons l ls)
  obtain ok y where cb: "newline E p l x = (ok, y)" by fastforce
  let ?y = "on_sess (addToHistory l) (on_sess (count_command ok) y)"
  have "accounted x y"
    using newline_frame [of x E p l] by (simp add: cb session_frame_accounted)
  moreover have "accounted y ?y"
    by (simp add: accounted_def addToHistory_def count_command_def Let_def)
  ultimately show ?case
    using Cons.IH [of ?y] by (auto simp: cb intro: accounted_trans)
qed simp

lemma process_lines_history:
  "history_ok (sess x) \<Longrightarrow>
     history_ok (sess (process_lines E (make_cfg p connected newline tab) ls x))"
proof (induction ls arbitrary: x)
  case (Cons l ls)
  obtain ok y where cb: "newline E p l x = (ok, y)" by fastforce
  have "same_session (sess x) (sess y)"
    using newline_frame [of x E p l] by (simp add: cb session_frame_def)
  then have "history_ok (sess y)"
    using Cons.prems by (simp add: history_ok_frame)
  then show ?case by (simp add: cb Cons.IH history_ok_addToHistory)
qed simp

lemma process_lines_buffer:
  "m_buffer (sess (process_lines E (make_cfg p connected newline tab) ls x)) = m_buffer (sess x)"
proof (induction ls arbitrary: x)
  case (Cons l ls)
  obtain ok y where cb: "newline E p l x = (ok, y)" by fastforce
  have "m_buffer (sess y) = m_buffer (sess x)"
    using newline_frame [of x E p l] by (simp add: cb session_frame_def same_session_def)
  then show ?case
    by (simp add: cb Cons.IH) (simp add: addToHistory_def count_command_def Let_def)
qed simp

text \<open>Every line is counted once, as a success or as a failure.\<close>

lemma process_lines_counted:
  "successCmdCtr (stats (sess (process_lines E (make_cfg p connected newline tab) ls x))) +
   failCmdCtr (stats (sess (process_lines E (make_cfg p connected newline tab) ls x))) =
   successCmdCtr (stats (sess x)) + failCmdCtr (stats (sess x)) + of_nat (length ls)"
proof (induction ls arbitrary: x)
  case (Cons l ls)
  obtain ok y where cb: "newline E p l x = (ok, y)" by fastforce
  have "successCmdCtr (stats (sess y)) = successCmdCtr (stats (sess x))"
    "failCmdCtr (stats (sess y)) = failCmdCtr (stats (sess x))"
    using newline_frame [of x E p l] by (simp_all add: cb session_frame_def same_session_def)
  then show ?case
    by (simp add: cb Cons.IH) (simp add: addToHistory_def count_command_def Let_def)
qed simp

end

section \<open>Arrow keys\<close>

text \<open>When the cursor may be dereferenced and moved: the only way \<open>update\<close> leaves the standard.\<close>

definition down_past_end :: "string \<Rightarrow> string \<Rightarrow> session \<Rightarrow> bool" where
  "down_past_end prompt b s \<longleftrightarrow>
     interactivePrompt prompt \<and> m_history s \<noteq> [] \<and> m_historyCursor s = length (m_history s) \<and>
     \<not> str_contains ANSI_ARROW_UP b \<and> str_contains ANSI_ARROW_DOWN b"

lemma show_entry_Inr:
  assumes "i < length (m_history (sess x))"
  obtains r y where "show_entry E reply i x = Inr (r, y)" and "accounted x y"
    and "but_buffer ((sess x)\<lparr>m_historyCursor := i\<rparr>) (sess y)"
    and "m_buffer (sess y) = m_history (sess x) ! i"
proof -
  let ?x = "set_buffer (m_history (sess x) ! i) (on_sess (\<lambda>s. s\<lparr>m_historyCursor := i\<rparr>) x)"
  obtain n y where s: "sock_send E reply ?x = (n, y)" by fastforce
  have y: "sess y = sess ?x" using same_session_simps(3) [of E reply ?x] by (simp add: s)
  have start: "accounted x ?x" by (simp add: accounted_def)
  show thesis
  proof (cases "n < 0")
    case True
    with accounted_send(1) [OF s] start have "accounted x y" by (auto intro: accounted_trans)
    with True s y assms show thesis
      by (intro that [of False y]) (simp_all add: show_entry_def deref_def)
  next
    case False
    with accounted_send(2) [OF s] start have "accounted x (add_upload n y)"
      by (auto intro: accounted_trans)
    with False s y assms show thesis
      by (intro that [of True "add_upload n y"])
        (simp_all add: show_entry_def deref_def add_upload_def but_buffer_def same_session_def)
  qed
qed

lemma processCommandHistory_cases:
  assumes ok: "history_ok (sess x)"
  obtains (past) "down_past_end prompt (m_buffer (sess x)) (sess x)"
      "processCommandHistory E prompt x = Inl PastEndIterator"
    | (fine) r y where "\<not> down_past_end prompt (m_buffer (sess x)) (sess x)"
      "processCommandHistory E prompt x = Inr (r, y)" "accounted x y" "history_ok (sess y)"
      "m_buffer (sess y) \<in> insert (m_buffer (sess x)) (set (m_history (sess x)))"
proof -
  let ?s = "sess x"
  have shown: thesis
    if "i < length (m_history ?s)" "\<not> down_past_end prompt (m_buffer ?s) ?s"
      "processCommandHistory E prompt x = show_entry E reply i x" for i reply
  proof -
    from that(1) obtain r y where y: "show_entry E reply i x = Inr (r, y)" "accounted x y"
      "but_buffer (?s\<lparr>m_historyCursor := i\<rparr>) (sess y)" "m_buffer (sess y) = m_history ?s ! i"
      by (rule show_entry_Inr)
    have "history_ok (?s\<lparr>m_historyCursor := i\<rparr>)" using ok that(1) by (simp add: history_ok_def)
    with y that show thesis by (intro fine) (auto simp: history_ok_but_buffer)
  qed
  have keep: thesis if "\<not> down_past_end prompt (m_buffer ?s) ?s"
    "processCommandHistory E prompt x = Inr (r, x)" for r
    using that ok by (intro fine) auto
  have cursor: "m_historyCursor ?s \<le> length (m_history ?s)" using ok by (simp add: history_ok_def)
  show thesis
  proof (cases "interactivePrompt prompt \<and> m_history ?s \<noteq> [] \<and>
      (str_contains ANSI_ARROW_UP (m_buffer ?s) \<or> str_contains ANSI_ARROW_DOWN (m_buffer ?s))")
    case False
    then have "processCommandHistory E prompt x = Inr (interactivePrompt prompt \<and>
        (str_contains ANSI_ARROW_LEFT (m_buffer ?s) \<or> str_contains ANSI_ARROW_RIGHT (m_buffer ?s)), x)"
      by (auto simp: processCommandHistory_def Let_def)
    moreover from False have "\<not> down_past_end prompt (m_buffer ?s) ?s"
      by (auto simp: down_past_end_def)
    ultimately show thesis by (intro keep)
  next
    case True
    show thesis
    proof (cases "str_contains ANSI_ARROW_UP (m_buffer ?s)")
      case up: True
      let ?i = "if m_historyCursor ?s \<noteq> 0 then m_historyCursor ?s - 1 else m_historyCursor ?s"
      from True cursor have "?i < length (m_history ?s)"
        by (cases "m_history ?s") (auto split: if_splits)
      then show thesis
        by (rule shown [where reply = ANSI_ARROW_DOWN])
          (use True up in \<open>auto simp: processCommandHistory_def Let_def down_past_end_def\<close>)
    next
      case down: False
      show thesis
      proof (cases "m_historyCursor ?s < length (m_history ?s)")
        case True': True
        show thesis
          by (rule shown [of "if Suc (m_historyCursor ?s) \<noteq> length (m_history ?s)
              then Suc (m_historyCursor ?s) else m_historyCursor ?s" ANSI_ARROW_UP])
            (use True True' down in \<open>auto simp: processCommandHistory_def Let_def
              down_past_end_def next_iter_def\<close>)
      next
        case False
        with True down cursor show thesis
          by (intro past) (auto simp: processCommandHistory_def Let_def down_past_end_def next_iter_def)
      qed
    qed
  qed
qed

section \<open>One update, for callbacks that keep the contract\<close>

text \<open>The buffer the editing passes see after a read: negotiation bytes stripped, nulls replaced.\<close>

definition received_buffer :: "session \<Rightarrow> string \<Rightarrow> string" where
  "received_buffer s data = stripNVT (m_buffer s @ replace_nulls data)"

lemma edit_buffer_plain:
  "\<not> interactivePrompt (m_promptString cfg) \<Longrightarrow> edit_buffer E cfg x = Inr (False, x)"
  by (simp add: edit_buffer_def)

definition receive_start :: "env \<Rightarrow> string \<Rightarrow> ctx \<Rightarrow> ctx" where
  "receive_start E data x =
     (let x = on_sess (\<lambda>s. s\<lparr>stats := (stats s)\<lparr>downloadBytes :=
                downloadBytes (stats s) + of_nat (length data)\<rparr>\<rparr>) x;
          x = echoBack E data (touch E x)
      in set_buffer (received_buffer (sess x) data) x)"

lemma receive_eq:
  "receive E cfg data x =
     bind_sum (edit_buffer E cfg (receive_start E data x)) (\<lambda>(requirePromptReprint, x).
       let (lines, rest) = getCompleteLines (m_buffer (sess x));
           x = process_lines E cfg lines (set_buffer rest x)
       in Inr (if requirePromptReprint \<and> interactivePrompt (m_promptString cfg)
               then sendPromptAndBuffer E (m_promptString cfg) (eraseLine E x) else x))"
  by (simp add: receive_def receive_start_def received_buffer_def Let_def set_buffer_def on_sess_def)

lemma receive_start_simps:
  "m_buffer (sess (receive_start E data x)) = received_buffer (sess x) data"
  "history_ok (sess (receive_start E data x)) = history_ok (sess x)"
  "accounted x (receive_start E data x)"
  "m_history (sess (receive_start E data x)) = m_history (sess x)"
  "m_historyCursor (sess (receive_start E data x)) = m_historyCursor (sess x)"
  "successCmdCtr (stats (sess (receive_start E data x))) = successCmdCtr (stats (sess x))"
  "failCmdCtr (stats (sess (receive_start E data x))) = failCmdCtr (stats (sess x))"
  "downloadBytes (stats (sess (receive_start E data x))) =
     downloadBytes (stats (sess x)) + of_nat (length data)"
proof -
  let ?x = "on_sess (\<lambda>s. s\<lparr>stats := (stats s)\<lparr>downloadBytes :=
                downloadBytes (stats s) + of_nat (length data)\<rparr>\<rparr>) x"
  have f: "session_frame ?x (echoBack E data (touch E ?x))"
    by (rule frame_comp [OF frame_echoBack frame_touch])
  then have same: "same_session (sess ?x) (sess (echoBack E data (touch E ?x)))"
    and acc: "accounted ?x (echoBack E data (touch E ?x))" by (auto simp: session_frame_def)
  note defs = receive_start_def Let_def received_buffer_def
  show "m_buffer (sess (receive_start E data x)) = received_buffer (sess x) data"
    "m_history (sess (receive_start E data x)) = m_history (sess x)"
    "m_historyCursor (sess (receive_start E data x)) = m_historyCursor (sess x)"
    "successCmdCtr (stats (sess (receive_start E data x))) = successCmdCtr (stats (sess x))"
    "failCmdCtr (stats (sess (receive_start E data x))) = failCmdCtr (stats (sess x))"
    "downloadBytes (stats (sess (receive_start E data x))) =
       downloadBytes (stats (sess x)) + of_nat (length data)"
    using same by (simp_all add: defs same_session_def)
  show "history_ok (sess (receive_start E data x)) = history_ok (sess x)"
    using history_ok_frame [OF same] by (simp add: defs)
  have "accounted x ?x" by (simp add: accounted_def)
  then have "accounted x (echoBack E data (touch E ?x))" using acc by (rule accounted_trans)
  then show "accounted x (receive_start E data x)"
    unfolding defs by (auto intro: accounted_trans)
qed

context telnet_callbacks
begin

lemma edit_buffer_cases:
  assumes ok: "history_ok (sess x)"
  obtains (past) "down_past_end p (m_buffer (sess x)) (sess x)"
      "edit_buffer E (make_cfg p connected newline tab) x = Inl PastEndIterator"
    | (fine) r y where "\<not> down_past_end p (m_buffer (sess x)) (sess x)"
      "edit_buffer E (make_cfg p connected newline tab) x = Inr (r, y)" "accounted x y"
      "history_ok (sess y)"
proof (cases "interactivePrompt p")
  case False
  then show thesis
    using ok by (intro fine [of False x]) (auto simp: edit_buffer_def down_past_end_def)
next
  case True
  from ok show thesis
  proof (cases rule: processCommandHistory_cases [where prompt = p and E = E])
    case past
    then show thesis using that(1) True by (simp add: edit_buffer_def)
  next
    case (fine r y)
    obtain bs b where b: "processBackspace (stripEscapeCharacters (m_buffer (sess y))) = (bs, b)"
      by fastforce
    let ?y = "set_buffer b (set_buffer (stripEscapeCharacters (m_buffer (sess y))) y)"
    obtain g z where z: "processTab E (make_cfg p connected newline tab) ?y = Some (g, z)"
      "but_buffer (sess ?y) (sess z)" "accounted ?y z"
      by (rule processTab_total)
    have "accounted y ?y" by (simp add: accounted_def)
    then have "accounted x z" using fine(3) z(3) by (blast intro: accounted_trans)
    moreover have "history_ok (sess z)"
      using fine(4) history_ok_but_buffer [OF z(2)] by simp
    ultimately show thesis
      using fine z True b by (intro that(2)) (auto simp: edit_buffer_def Let_def)
  qed
qed

text \<open>
  A read leads to undefined behaviour exactly on \<open>down_past_end\<close>, and it never loops. Otherwise
  the history invariant is kept and every byte sent is counted.
\<close>

lemma receive_cases:
  assumes ok: "history_ok (sess x)"
  obtains (past) "down_past_end p (received_buffer (sess x) data) (sess x)"
      "receive E (make_cfg p connected newline tab) data x = Inl PastEndIterator"
    | (fine) y where "\<not> down_past_end p (received_buffer (sess x) data) (sess x)"
      "receive E (make_cfg p connected newline tab) data x = Inr y" "accounted x y"
      "history_ok (sess y)"
proof -
  let ?x = "receive_start E data x"
  have same: "down_past_end p (m_buffer (sess ?x)) (sess ?x) =
      down_past_end p (received_buffer (sess x) data) (sess x)"
    by (simp add: down_past_end_def receive_start_simps)
  have "history_ok (sess ?x)" using ok by (simp add: receive_start_simps)
  then show thesis
  proof (cases rule: edit_buffer_cases [where p = p and E = E])
    case past
    then show thesis using that(1) same by (simp add: receive_eq)
  next
    case (fine r y)
    obtain ls rest where lines: "getCompleteLines (m_buffer (sess y)) = (ls, rest)" by fastforce
    let ?z = "process_lines E (make_cfg p connected newline tab) ls (set_buffer rest y)"
    let ?u = "if r \<and> interactivePrompt p then sendPromptAndBuffer E p (eraseLine E ?z) else ?z"
    have "accounted x ?z"
      by (rule accounted_trans [OF _ process_lines_accounted])
        (blast intro: accounted_trans receive_start_simps(3) fine(3) accounted_set_buffer)
    have zu: "session_frame ?z ?u"
      by (auto intro!: frame_comp [OF frame_prompt] frame_eraseLine)
    have "accounted x ?u"
      using \<open>accounted x ?z\<close> zu accounted_trans session_frame_accounted by blast
    moreover have "history_ok (sess ?z)"
      using fine(4) by (intro process_lines_history) simp
    then have "history_ok (sess ?u)"
      using zu history_ok_frame by (auto simp: session_frame_def)
    ultimately show thesis
      using fine same lines by (intro that(2) [of ?u]) (auto simp: receive_eq)
  qed
qed

lemma session_update_cases:
  assumes ok: "history_ok (sess x)"
  obtains (past) data where "e_recv E (calls (wrld x)) (m_socket (sess x)) = RecvData data"
      "data \<noteq> []" "down_past_end p (received_buffer (sess x) data) (sess x)"
      "session_update E (make_cfg p connected newline tab) x = Inl PastEndIterator"
    | (fine) y cs where "session_update E (make_cfg p connected newline tab) x = Inr y"
      "\<forall>data. e_recv E (calls (wrld x)) (m_socket (sess x)) = RecvData data \<longrightarrow> data \<noteq> [] \<longrightarrow>
         \<not> down_past_end p (received_buffer (sess x) data) (sess x)"
      "history_ok (sess y)" "m_socket (sess y) = m_socket (sess x)"
      "vCheckFlag (wrld y) = vCheckFlag (wrld x)" "calls (wrld y) = calls (wrld x) @ cs"
      "only_sock (m_socket (sess x)) cs" "uploadBytes (stats (sess y)) = of_int (sent_bytes cs)"
      "closes cs = (if e_recv E (calls (wrld x)) (m_socket (sess x)) = RecvError
         then [m_socket (sess x)] else [])" "opens cs = []"
proof -
  let ?cfg = "make_cfg p connected newline tab"
  let ?x = "on_sess reset_stats x"
  have base: "history_ok (sess ?x)" "m_socket (sess ?x) = m_socket (sess x)"
    "uploadBytes (stats (sess ?x)) = 0" "wrld ?x = wrld x"
    using ok by (simp_all add: reset_stats_def history_ok_def)
  have quiet: thesis
    if "session_update E ?cfg x = Inr (on_wrld (emits cs) ?x)" "only_sock (m_socket (sess x)) cs"
      "closes cs = (if e_recv E (calls (wrld x)) (m_socket (sess x)) = RecvError
         then [m_socket (sess x)] else [])" "opens cs = []"
      "sent_bytes cs = 0" "\<forall>data. e_recv E (calls (wrld x)) (m_socket (sess x)) \<noteq> RecvData data \<or> data = []"
    for cs
    using that base by (intro fine [of "on_wrld (emits cs) ?x" cs]) auto
  show thesis
  proof (cases "e_recv E (calls (wrld x)) (m_socket (sess x))")
    case (RecvData data)
    let ?r = "Recv (m_socket (sess x)) DEFAULT_BUFLEN (int (length data))"
    show thesis
    proof (cases "data = []")
      case True
      with RecvData base show thesis
        by (intro quiet [of "[?r]"]) (simp_all add: session_update_def Let_def emit_emits)
    next
      case False
      let ?y = "on_wrld (emit ?r) ?x"
      have upd: "session_update E ?cfg x = receive E ?cfg data ?y"
        using RecvData False base by (simp add: session_update_def Let_def)
      have same: "received_buffer (sess ?y) data = received_buffer (sess x) data"
        "down_past_end p b (sess ?y) = down_past_end p b (sess x)" for b
        by (simp_all add: received_buffer_def down_past_end_def reset_stats_def)
      have "history_ok (sess ?y)" using base by simp
      then show thesis
      proof (cases rule: receive_cases [where p = p and E = E and data = data])
        case past
        then show thesis using that(1) RecvData False upd same by auto
      next
        case (fine z)
        then obtain cs where cs: "calls (wrld z) = calls (wrld ?y) @ cs"
          "only_sock (m_socket (sess ?y)) cs" "closes cs = []" "opens cs = []"
          "uploadBytes (stats (sess z)) = uploadBytes (stats (sess ?y)) + of_int (sent_bytes cs)"
          "m_socket (sess z) = m_socket (sess ?y)" "vCheckFlag (wrld z) = vCheckFlag (wrld ?y)"
          by (auto simp: accounted_def)
        show thesis
          by (rule that(2) [of z "?r # cs"]) (use fine cs upd same RecvData base in auto)
      qed
    qed
  next
    case RecvClosed
    with base show thesis
      by (intro quiet [of "[Recv (m_socket (sess x)) DEFAULT_BUFLEN 0]"])
        (simp_all add: session_update_def Let_def emit_emits)
  next
    case RecvAgain
    with base show thesis
      by (intro quiet [of "[Recv (m_socket (sess x)) DEFAULT_BUFLEN (- 1)]"])
        (simp_all add: session_update_def Let_def emit_emits)
  next
    case RecvError
    with base show thesis
      by (intro quiet [of "[Recv (m_socket (sess x)) DEFAULT_BUFLEN (- 1), Close (m_socket (sess x))]"])
        (simp_all add: session_update_def Let_def)
  qed
qed

end

end
