(* ===== verification/TelnetCommands.thy ===== *)
theory TelnetCommands
  imports TelnetSession Hasher
begin

text \<open>
  The callbacks \<open>src/main.cpp\<close> gives to the telnet server, with the table of commands
  (\<open>src/telnet/TelnetServer.cpp\<close>): the greeting, the command dispatcher, which switches on
  \<open>constHasher\<close> of the line, and the completion of commands. They meet the contract of
  \<open>TelnetSession\<close>.
\<close>

definition KEY_WIDTH :: nat where [eval_simps]: "KEY_WIDTH = 30"
definition VAL_WIDTH :: nat where [eval_simps]: "VAL_WIDTH = 15"
definition BUFSIZ :: nat where [eval_simps]: "BUFSIZ = 8192"

definition telnetCommands :: "(string \<times> string) list" where
  [eval_simps]: "telnetCommands =
    [(''clear'', ''Clears the terminal screen''),
     (''disable log'', ''Resets logger level''),
     (''enable log'', ''Enable specified logger level. Level can be \"v\" (info), \"vv\" (debug) and \"vvv\" (trace)''),
     (''help'', ''Prints available commands''),
     (''ping'', ''Pings the server''),
     (''status'', ''Checks the internal status''),
     (''version'', ''Displays the current version''),
     (''quit'', ''Ends the connection'')]"

definition TELNET_CLEAR_SCREEN :: string where
  [eval_simps]: "TELNET_CLEAR_SCREEN = [CHR 0x1B, CHR 0x5B, CHR ''2'', CHR ''J'']"

text \<open>The greeting, in the bytes of its UTF-8 encoding.\<close>

definition banner :: string where
  "banner = [
     CHR 0x0D, CHR 0x0A, CHR 0xF0, CHR 0x9D, CHR 0x91, CHR 0xB2, CHR 0xF0, CHR 0x9D, CHR 0x92, CHR 0x86,
     CHR 0xF0, CHR 0x9D, CHR 0x92, CHR 0x86, CHR 0xF0, CHR 0x9D, CHR 0x92, CHR 0x91, CHR 0x20, CHR 0xF0,
     CHR 0x9D, CHR 0x92, CHR 0x9A, CHR 0xF0, CHR 0x9D, CHR 0x92, CHR 0x90, CHR 0xF0, CHR 0x9D, CHR 0x92,
     CHR 0x96, CHR 0xF0, CHR 0x9D, CHR 0x92, CHR 0x93, CHR 0x20, CHR 0xF0, CHR 0x9D, CHR 0x92, CHR 0x86,
     CHR 0xF0, CHR 0x9D, CHR 0x92, CHR 0x9A, CHR 0xF0, CHR 0x9D, CHR 0x92, CHR 0x86, CHR 0xF0, CHR 0x9D,
     CHR 0x92, CHR 0x94, CHR 0x20, CHR 0xF0, CHR 0x9D, CHR 0x92, CHR 0x90, CHR 0xF0, CHR 0x9D, CHR 0x92,
     CHR 0x8F, CHR 0x20, CHR 0xF0, CHR 0x9D, CHR 0x92, CHR 0x95, CHR 0xF0, CHR 0x9D, CHR 0x92, CHR 0x89,
     CHR 0xF0, CHR 0x9D, CHR 0x92, CHR 0x86, CHR 0x20, CHR 0xF0, CHR 0x9D, CHR 0x92, CHR 0x94, CHR 0xF0,
     CHR 0x9D, CHR 0x92, CHR 0x95, CHR 0xF0, CHR 0x9D, CHR 0x92, CHR 0x82, CHR 0xF0, CHR 0x9D, CHR 0x92,
     CHR 0x93, CHR 0xF0, CHR 0x9D, CHR 0x92, CHR 0x94, CHR 0x20, CHR 0xF0, CHR 0x9D, CHR 0x92, CHR 0x82,
     CHR 0xF0, CHR 0x9D, CHR 0x92, CHR 0x8F, CHR 0xF0, CHR 0x9D, CHR 0x92, CHR 0x85, CHR 0x20, CHR 0xF0,
     CHR 0x9D, CHR 0x92, CHR 0x9A, CHR 0xF0, CHR 0x9D, CHR 0x92, CHR 0x90, CHR 0xF0, CHR 0x9D, CHR 0x92,
     CHR 0x96, CHR 0xF0, CHR 0x9D, CHR 0x92, CHR 0x93, CHR 0x20, CHR 0xF0, CHR 0x9D, CHR 0x92, CHR 0x87,
     CHR 0xF0, CHR 0x9D, CHR 0x92, CHR 0x86, CHR 0xF0, CHR 0x9D, CHR 0x92, CHR 0x86, CHR 0xF0, CHR 0x9D,
     CHR 0x92, CHR 0x95, CHR 0x20, CHR 0xF0, CHR 0x9D, CHR 0x92, CHR 0x90, CHR 0xF0, CHR 0x9D, CHR 0x92,
     CHR 0x8F, CHR 0x20, CHR 0xF0, CHR 0x9D, CHR 0x92, CHR 0x95, CHR 0xF0, CHR 0x9D, CHR 0x92, CHR 0x89,
     CHR 0xF0, CHR 0x9D, CHR 0x92, CHR 0x86, CHR 0x20, CHR 0xF0, CHR 0x9D, CHR 0x92, CHR 0x88, CHR 0xF0,
     CHR 0x9D, CHR 0x92, CHR 0x93, CHR 0xF0, CHR 0x9D, CHR 0x92, CHR 0x90, CHR 0xF0, CHR 0x9D, CHR 0x92,
     CHR 0x96, CHR 0xF0, CHR 0x9D, CHR 0x92, CHR 0x8F, CHR 0xF0, CHR 0x9D, CHR 0x92, CHR 0x85, CHR 0x20,
     CHR 0x0D, CHR 0x0A]"

definition TelnetPrintAvailableCommands :: "env \<Rightarrow> string \<Rightarrow> ctx \<Rightarrow> ctx" where
  "TelnetPrintAvailableCommands E prompt x =
     (let x = sendLine E prompt '''' x;
          x = sendLine E prompt ''Available commands:'' x;
          x = sendLine E prompt '''' x
      in fold (\<lambda>(command, descr) x.
           let buffer = pad_right (CHR '' '') 25 command @ '' : '' @ descr
           in if length buffer > 0 then sendLine E prompt (c_str (take BUFSIZ buffer)) x else x)
         telnetCommands x)"

definition TelnetConnectedCallback :: connected_cb where
  "TelnetConnectedCallback E prompt x =
     TelnetPrintAvailableCommands E prompt (sendLine E prompt banner x)"

definition set_level :: "log_level \<Rightarrow> ctx \<Rightarrow> ctx" where
  "set_level l = on_wrld (emit (SetLevel l))"

definition status_line :: "string \<times> bool \<Rightarrow> string" where
  "status_line entry =
     (case entry of (service, statusFlag) \<Rightarrow>
        pad_right (CHR ''.'') KEY_WIDTH (service @ '' '') @
        pad_left (CHR ''.'') VAL_WIDTH (if statusFlag then '' OK'' else '' Not Active'') @ '' '')"

definition TelnetMessageCallback :: newline_cb where
  "TelnetMessageCallback E prompt line x =
     (let x = on_wrld (emit (Log trace (''Received message '' @ line))) x;
          x = sendLine E prompt line x;
          h = constHasher (c_str line)
      in if line = [] then (True, x)
         else if h = constHasher ''Test Message'' then (True, sendLine E prompt ''OK'' x)
         else if h = constHasher ''help'' then (True, TelnetPrintAvailableCommands E prompt x)
         else if h = constHasher ''disable log''
         then (True, set_level (if e_ndebug E then warn else info)
                 (sendLine E prompt ''Default log mode enabled'' x))
         else if h = constHasher ''disable log all''
         then (True, set_level off (sendLine E prompt ''Disabling all logs'' x))
         else if h = constHasher ''enable log v''
         then (True, set_level info (sendLine E prompt ''Info log mode enabled'' x))
         else if h = constHasher ''enable log vv''
         then (True, set_level debug (sendLine E prompt ''Debug log mode enabled'' x))
         else if h = constHasher ''enable log vvv''
         then (True, set_level trace (sendLine E prompt ''Trace log mode enabled'' x))
         else if h = constHasher ''ping'' then (True, sendLine E prompt ''pong'' x)
         else if h = constHasher ''version'' then (True, sendLine E prompt (e_version E) x)
         else if h = constHasher ''clear'' then (True, sendLine E prompt TELNET_CLEAR_SCREEN x)
         else if h = constHasher ''status''
         then (True, fold (\<lambda>entry. sendLine E prompt (status_line entry)) (vCheckFlag (wrld x)) x)
         else if h = constHasher ''quit''
         then (True, markTimeout (sendLine E prompt ''Goodbye!'' (sendLine E prompt ''Closing connection'' x)))
         else (False, sendLine E prompt ''Unknown command received'' x))"

text \<open>
  The completion. \<open>std::setw\<close> applies to the next insertion only, so every suggestion after the
  first is padded on the left.
\<close>

definition suggestions :: "string list \<Rightarrow> string" where
  "suggestions cs = (case cs of [] \<Rightarrow> [] | c # cs \<Rightarrow> c @ concat (map (pad_left (CHR '' '') KEY_WIDTH) cs))"

definition TelnetTabCallback :: tab_cb where
  "TelnetTabCallback E prompt line x =
     (let matches = filter (\<lambda>command. starts_with command line) (map fst telnetCommands);
          ctr = length matches;
          retval = (if matches = [] then [] else last matches);
          sStream = suggestions matches
      in if ctr \<noteq> 1 \<and> sStream \<noteq> [] then ([], sendLine E prompt sStream x) else (retval, x))"

section \<open>The contract holds\<close>

lemma frame_fold:
  "(\<And>e x. session_frame x (f e x)) \<Longrightarrow> session_frame x (fold f es x)"
  by (induction es arbitrary: x) (auto intro: session_frame_trans)

lemma frame_commands: "session_frame x (TelnetPrintAvailableCommands E p x)"
  unfolding TelnetPrintAvailableCommands_def Let_def
  by (rule frame_comp [OF frame_fold])
    (auto intro!: frame_comp [OF frame_sendLine] frame_sendLine split: prod.splits)

lemma frame_set_level: "session_frame x (set_level l x)"
  by (simp add: set_level_def)

lemma frame_if: "session_frame x a \<Longrightarrow> session_frame x b \<Longrightarrow> session_frame x (if c then a else b)"
  by simp

lemmas frame_chain = frame_if frame_fold session_frame_refl frame_comp [OF frame_commands]
  frame_comp [OF frame_set_level] frame_comp [OF frame_markTimeout] frame_comp [OF frame_sendLine]

lemma frame_message: "session_frame x (snd (TelnetMessageCallback E p line x))"
proof -
  let ?y = "sendLine E p line (on_wrld (emit (Log trace (''Received message '' @ line))) x)"
  have y: "session_frame x ?y" by (rule frame_comp [OF frame_sendLine]) simp
  have "session_frame ?y (snd (TelnetMessageCallback E p line x))"
    unfolding TelnetMessageCallback_def Let_def if_distrib [of snd] snd_conv
    by (intro frame_chain)
  with y show ?thesis by (rule session_frame_trans)
qed

lemma tab_not_in_commands: "\<forall>c \<in> set (map fst telnetCommands). TAB \<notin> set c"
  by (simp add: telnetCommands_def TAB_def)

interpretation shipped: telnet_callbacks
  TelnetConnectedCallback TelnetMessageCallback TelnetTabCallback
proof
  fix E :: env and p line :: string and x :: ctx
  show "session_frame x (TelnetConnectedCallback E p x)"
    unfolding TelnetConnectedCallback_def by (rule frame_comp [OF frame_commands frame_sendLine])
  show "session_frame x (snd (TelnetMessageCallback E p line x))" by (rule frame_message)
  show "session_frame x (snd (TelnetTabCallback E p line x))"
    by (simp add: TelnetTabCallback_def Let_def frame_sendLine)
  let ?m = "filter (\<lambda>command. starts_with command line) (map fst telnetCommands)"
  have "TAB \<notin> set (last ?m)" if "?m \<noteq> []"
  proof -
    have "last ?m \<in> set (map fst telnetCommands)"
      using last_in_set [OF that] by (simp only: set_filter mem_Collect_eq)
    with tab_not_in_commands show ?thesis by blast
  qed
  then show "TAB \<notin> set (fst (TelnetTabCallback E p line x))"
    by (auto simp: TelnetTabCallback_def Let_def)
qed

text \<open>The configuration \<open>main\<close> gives the server: the shipped callbacks.\<close>

definition shipped_cfg :: "string \<Rightarrow> telnet_cfg" where
  "shipped_cfg prompt = make_cfg prompt TelnetConnectedCallback TelnetMessageCallback TelnetTabCallback"

end
