(* ===== verification/TelnetServer.thy ===== *)
theory TelnetServer
  imports TelnetCommands
begin

text \<open>
  Class \<open>TelnetServer\<close> (\<open>include/telnet/TelnetServer.hpp\<close>, \<open>src/telnet/TelnetServer.cpp\<close>): set-up
  of the listening socket, acceptance of connections, one round over all sessions, the thread
  and the shutdown. A session lives in the vector \<open>m_sessions\<close> and nowhere else.
\<close>

section \<open>State\<close>

definition INVALID_SOCKET :: sock where [eval_simps]: "INVALID_SOCKET = - 1"
definition MAX_AVAILABLE_SESSION :: nat where [eval_simps]: "MAX_AVAILABLE_SESSION = 5"
definition FD_SETSIZE :: int where [eval_simps]: "FD_SETSIZE = 1024"

record telnet_server =
  srv_cfg :: telnet_cfg             \<comment> \<open>\<open>m_promptString\<close> and the three callbacks\<close>
  m_listenPort :: u64
  m_listenSocket :: sock
  m_sessions :: "session list"
  m_initialised :: bool
  m_stats :: "telnet_stats option"
  m_checkFlag :: "nat option"
  m_serverThread :: bool

definition new_server :: telnet_server where
  "new_server = \<lparr>srv_cfg = \<lparr>m_promptString = [], m_connectedCallback = None,
       m_newlineCallback = None, m_tabCallback = None\<rparr>,
     m_listenPort = 0, m_listenSocket = - 1, m_sessions = [], m_initialised = False,
     m_stats = None, m_checkFlag = None, m_serverThread = False\<rparr>"

section \<open>\<open>initialise\<close>\<close>

text \<open>
  \<open>Inl\<close> is an exception. After a failed \<open>getaddrinfo\<close> or \<open>socket\<close> the earlier resources are
  released as the source does, and the object keeps the port, prompt and flag it was given.
\<close>

definition server_initialise ::
    "env \<Rightarrow> u64 \<Rightarrow> nat option \<Rightarrow> string \<Rightarrow> bool \<Rightarrow> string \<Rightarrow> telnet_server \<Rightarrow> world
     \<Rightarrow> string + bool \<times> telnet_server \<times> world" where
  "server_initialise E listenPort checkFlag prompt reg prependName srv w =
     (if m_initialised srv then Inr (False, srv, w)
      else
        let srv = srv\<lparr>m_checkFlag := checkFlag, m_listenPort := listenPort,
                srv_cfg := (srv_cfg srv)\<lparr>m_promptString := prompt\<rparr>\<rparr>;
            service = dec_of_nat (unat listenPort);
            r = e_getaddrinfo E (calls w) service;
            w = emit (GetAddrInfo service r) w
        in if r \<noteq> 0 then Inr (False, srv, w)
        else
        let fd = e_socket E (calls w);
            w = emit (Socket fd) w;
            srv = srv\<lparr>m_listenSocket := fd\<rparr>
        in if fd = INVALID_SOCKET then Inr (False, srv, emit FreeAddrInfo w)
        else
        let r = e_setsockopt E (calls w) fd;
            w = emit (SetSockOpt fd r) w
        in if r < 0 then Inr (False, srv, emits [FreeAddrInfo, Close fd] w)
        else
        let r = e_bind E (calls w) fd;
            w = emit (Bind fd r) w
        in if r < 0 then Inr (False, srv, emits [FreeAddrInfo, Close fd] w)
        else
        let w = emit FreeAddrInfo w;
            r = e_listen E (calls w) fd;
            w = emit (Listen fd r) w
        in if r < 0 then Inr (False, srv, emit (Close fd) w)
        else
        bind_sum (if reg
                  then bind_sum (TelnetStats_ctor E reg (ucast listenPort) prependName w)
                         (\<lambda>(ts, w). Inr (srv\<lparr>m_stats := Some ts\<rparr>, w))
                  else Inr (srv, w))
          (\<lambda>(srv, w). Inr (True, srv\<lparr>m_serverThread := True, m_initialised := True\<rparr>, w)))"

section \<open>\<open>acceptConnection\<close>\<close>

definition refusal :: string where
  "refusal = ''Too many active connections. Please try again later. '' @ CRLF @ ''Closing...''"

definition acceptConnection :: "env \<Rightarrow> telnet_server \<Rightarrow> world \<Rightarrow> bool \<times> telnet_server \<times> world" where
  "acceptConnection E srv w =
     (let listen = m_listenSocket srv;
          ClientSocket = e_accept E (calls w) listen;
          w = emit (Accept listen ClientSocket) w;
          x = \<lparr>sess = new_session ClientSocket, wrld = w\<rparr>;
          prompt = m_promptString (srv_cfg srv)
      in if ClientSocket = INVALID_SOCKET then (False, srv, w)
         else if length (m_sessions srv) \<ge> MAX_AVAILABLE_SESSION
         then let x = closeClient E (sendLine E prompt refusal (session_initialise E (srv_cfg srv) x))
              in (False, srv, wrld x)
         else let x = session_initialise E (srv_cfg srv) x
              in (True, srv\<lparr>m_sessions := m_sessions srv @ [sess x]\<rparr>, wrld x))"

section \<open>One round over the sessions\<close>

definition report_session ::
    "env \<Rightarrow> telnet_stats option \<Rightarrow> session \<Rightarrow> bool \<Rightarrow> world \<Rightarrow> world" where
  "report_session E st s closed w =
     (case st of None \<Rightarrow> w | Some ts \<Rightarrow> consumeSessionStats E ts (stats s) closed w)"

text \<open>The body of the loop for one session: whether it expired, and the session afterwards.\<close>

definition update_one ::
    "env \<Rightarrow> telnet_cfg \<Rightarrow> telnet_stats option \<Rightarrow> session \<Rightarrow> world \<Rightarrow> fault + bool \<times> session \<times> world" where
  "update_one E cfg st s w =
     bind_sum (session_update E cfg \<lparr>sess = s, wrld = w\<rparr>) (\<lambda>x.
       let (expired, x) = checkTimeout E x;
           x = (if expired then closeClient E x else x)
       in Inr (expired, sess x, report_session E st (sess x) expired (wrld x)))"

text \<open>An index below the length of a vector does not wrap when it is stepped.\<close>

lemma sz_less_length:
  assumes "idx < sz_length xs"
  shows "unat idx < length xs" and "unat (idx + 1) = Suc (unat idx)"
proof -
  have less: "unat idx < unat (sz_length xs)" using assms by (simp add: word_less_nat_alt)
  also have "\<dots> \<le> length xs" by (simp add: sz_length_def unat_of_nat)
  finally show "unat idx < length xs" .
  have "unat (sz_length xs) < 2 ^ LENGTH(64)" by (rule unsigned_less)
  then show "unat (idx + 1) = Suc (unat idx)"
    using less by (simp add: unat_word_ariths(1))
qed

text \<open>
  The loop of the source, with its index: an expired session is erased and the index steps
  back before the loop steps it forward, which for the first session wraps through the
  largest \<open>size_t\<close>.
\<close>

function update_sessions ::
    "env \<Rightarrow> telnet_cfg \<Rightarrow> telnet_stats option \<Rightarrow> size_t \<Rightarrow> session list \<Rightarrow> world
     \<Rightarrow> fault + session list \<times> world" where
  "update_sessions E cfg st idx sessions w =
     (if idx < sz_length sessions
      then case update_one E cfg st (sessions ! unat idx) w of
             Inl e \<Rightarrow> Inl e
           | Inr (expired, s, w) \<Rightarrow>
               (if expired
                then update_sessions E cfg st ((idx - 1) + 1)
                       (take (unat idx) sessions @ drop (Suc (unat idx)) sessions) w
                else update_sessions E cfg st (idx + 1) (sessions[unat idx := s]) w)
      else Inr (sessions, w))"
  by pat_completeness auto

termination
proof (relation "measure (\<lambda>(E, cfg, st, idx, sessions, w). length sessions - unat idx)", goal_cases)
  case 1
  show ?case by simp
next
  case (2 E cfg st idx sessions w)
  from sz_less_length [OF 2(1)] show ?case by simp
next
  case (3 E cfg st idx sessions w)
  from sz_less_length [OF 3(1)] show ?case by simp
qed

declare update_sessions.simps [simp del]

section \<open>\<open>update\<close>, \<open>shutdown\<close> and the thread\<close>

definition sessions_stats ::
    "env \<Rightarrow> telnet_server \<Rightarrow> bool \<Rightarrow> bool \<Rightarrow> nanos \<Rightarrow> world \<Rightarrow> world" where
  "sessions_stats E srv accepted refused start w =
     (let (now, w) = read_clock E w;
          serverStats = \<lparr>processingTimeStart = start, processingTimeEnd = now,
            activeConnectionCtr = sz_length (m_sessions srv),
            acceptedConnectionCtr = of_bool accepted, refusedConnectionCtr = of_bool refused\<rparr>
      in case m_stats srv of None \<Rightarrow> w | Some ts \<Rightarrow> consumeServerStats E ts serverStats w)"

definition server_update :: "env \<Rightarrow> telnet_server \<Rightarrow> world \<Rightarrow> fault + telnet_server \<times> world" where
  "server_update E srv w =
     (if \<not> (0 \<le> m_listenSocket srv \<and> m_listenSocket srv < FD_SETSIZE) then Inl FdSetRange
      else
        let (start, w) = read_clock E w;
            ready = e_select E (calls w) (m_listenSocket srv);
            w = emit (Select (m_listenSocket srv) ready) w;
            (accepted, refused, srv, w) =
              (if ready > 0
               then let (ok, srv, w) = acceptConnection E srv w in (ok, \<not> ok, srv, w)
               else (False, False, srv, w))
        in bind_sum (update_sessions E (srv_cfg srv) (m_stats srv) 0 (m_sessions srv) w)
             (\<lambda>(sessions, w).
               let srv = srv\<lparr>m_sessions := sessions\<rparr>
               in Inr (srv, sessions_stats E srv accepted refused start w)))"

definition close_sessions :: "env \<Rightarrow> session list \<Rightarrow> world \<Rightarrow> world" where
  "close_sessions E sessions w =
     fold (\<lambda>s w. wrld (closeClient E \<lparr>sess = s, wrld = w\<rparr>)) sessions w"

definition server_shutdown :: "env \<Rightarrow> telnet_server \<Rightarrow> world \<Rightarrow> telnet_server \<times> world" where
  "server_shutdown E srv w =
     (let w = close_sessions E (m_sessions srv) w;
          w = emit (Close (m_listenSocket srv)) w;
          w = (if m_serverThread srv then emit Join w else w)
      in (srv\<lparr>m_sessions := [], m_listenSocket := INVALID_SOCKET, m_initialised := False,
            m_serverThread := False\<rparr>, w))"

text \<open>The destructor: \<open>shutdown\<close>, whatever state the server is in. It raises no exception.\<close>

definition server_destroy :: "env \<Rightarrow> telnet_server \<Rightarrow> world \<Rightarrow> world" where
  "server_destroy E srv w = snd (server_shutdown E srv w)"

text \<open>
  \<open>threadFunc\<close>: \<open>n\<close> is how often \<open>stop_requested\<close> answers no. \<open>update\<close> raises no exception, so
  the handler of the source is never entered.
\<close>

fun server_rounds :: "env \<Rightarrow> nat \<Rightarrow> telnet_server \<Rightarrow> world \<Rightarrow> fault + telnet_server \<times> world" where
  "server_rounds E 0 srv w = Inr (srv, w)"
| "server_rounds E (Suc n) srv w =
     bind_sum (server_update E srv w) (\<lambda>(srv, w). server_rounds E n srv (set_flag (m_checkFlag srv) w))"

definition server_threadFunc :: "env \<Rightarrow> nat \<Rightarrow> telnet_server \<Rightarrow> world \<Rightarrow> fault + telnet_server \<times> world" where
  "server_threadFunc E n srv w =
     bind_sum (server_rounds E n srv (emit (Log info ''Telnet server started'') w))
       (\<lambda>(srv, w). Inr (srv, emit (Log info ''Telnet server stopped'') w))"

section \<open>The index loop as a pass over the list\<close>

fun update_each ::
    "env \<Rightarrow> telnet_cfg \<Rightarrow> telnet_stats option \<Rightarrow> session list \<Rightarrow> world
     \<Rightarrow> fault + session list \<times> world" where
  "update_each E cfg st [] w = Inr ([], w)"
| "update_each E cfg st (s # ss) w =
     bind_sum (update_one E cfg st s w) (\<lambda>(expired, s, w).
       bind_sum (update_each E cfg st ss w) (\<lambda>(ss, w). Inr (if expired then ss else s # ss, w)))"

lemma unat_sz_length: "length xs < 2 ^ 64 \<Longrightarrow> unat (sz_length xs) = length xs"
  unfolding sz_length_def by (simp add: unat_of_nat)

lemma update_sessions_done_each:
  assumes "length (before @ ss) < 2 ^ 64"
  shows "update_sessions E cfg st (of_nat (length before)) (before @ ss) w =
     bind_sum (update_each E cfg st ss w) (\<lambda>(ss, w). Inr (before @ ss, w))"
  using assms
proof (induction ss arbitrary: before w)
  case Nil
  then show ?case by (subst update_sessions.simps) (simp add: sz_length_def)
next
  case (Cons s ss)
  have idx: "unat (of_nat (length before) :: 64 word) = length before"
    using Cons.prems by (simp add: unat_of_nat)
  have "unat (sz_length (before @ s # ss)) = length (before @ s # ss)"
    by (rule unat_sz_length) (rule Cons.prems)
  then have less: "(of_nat (length before) :: 64 word) < sz_length (before @ s # ss)"
    by (simp add: word_less_nat_alt idx)
  show ?case
  proof (cases "update_one E cfg st s w")
    case (Inl e)
    then show ?thesis by (subst update_sessions.simps) (simp add: less idx)
  next
    case (Inr r)
    obtain expired s' w' where r: "r = (expired, s', w')" by (cases r)
    show ?thesis
    proof (cases expired)
      case True
      then show ?thesis
        using Cons.IH [of before w'] Cons.prems Inr r less idx
        by (subst update_sessions.simps) (simp add: bind_sum_def split: sum.splits)
    next
      case False
      then show ?thesis
        using Cons.IH [of "before @ [s']" w'] Cons.prems Inr r less idx
        by (subst update_sessions.simps) (simp add: bind_sum_def add.commute split: sum.splits)
    qed
  qed
qed

lemmas update_sessions_each = update_sessions_done_each [of "[]", simplified]

end
