(* ===== verification/TelnetLife.thy ===== *)
theory TelnetLife
  imports TelnetServer "HOL-Library.Multiset"
begin

text \<open>
  The life of a telnet server: what one round does to the sessions, the invariant of the server
  and the ledger of its descriptors, by rule induction over the calls of its owner.
\<close>

section \<open>One session in one round\<close>

definition no_recv_error :: "env \<Rightarrow> bool" where
  "no_recv_error E \<longleftrightarrow> (\<forall>cs s. e_recv E cs s \<noteq> RecvError)"

text \<open>A session update that is undefined behaviour: arrow down with the cursor at the end.\<close>

definition update_faults :: "env \<Rightarrow> string \<Rightarrow> session \<Rightarrow> world \<Rightarrow> bool" where
  "update_faults E prompt s w \<longleftrightarrow>
     (case e_recv E (calls w) (m_socket s) of
        RecvData data \<Rightarrow> data \<noteq> [] \<and> down_past_end prompt (received_buffer s data) s
      | _ \<Rightarrow> False)"

lemma closeClient_calls:
  obtains a now where "calls (wrld (closeClient E x)) =
      calls (wrld x) @ [Log info a, Shutdown (m_socket (sess x)), Close (m_socket (sess x)), Clock now]"
    and "sess (closeClient E x) =
      (sess x)\<lparr>stats := (stats (sess x))\<lparr>disconnectTime := now\<rparr>\<rparr>"
    and "vCheckFlag (wrld (closeClient E x)) = vCheckFlag (wrld x)"
  by (auto simp: closeClient_def Let_def read_clock_def)

lemma new_session_socket [simp]: "m_socket (new_session fd) = fd"
  by (simp add: new_session_def)

lemma report_session_metrics: "metrics_only w (report_session E st s closed w)"
  by (simp add: report_session_def metrics_only_session split: option.splits)

context telnet_callbacks
begin

lemma update_one_cases:
  assumes ok: "history_ok s"
  obtains (past) "update_faults E p s w"
      "update_one E (make_cfg p connected newline tab) st s w = Inl PastEndIterator"
    | (fine) expired t w' cs where
      "update_one E (make_cfg p connected newline tab) st s w = Inr (expired, t, w')"
      "\<not> update_faults E p s w" "history_ok t" "m_socket t = m_socket s"
      "vCheckFlag w' = vCheckFlag w" "calls w' = calls w @ cs" "only_sock (m_socket s) cs"
      "opens cs = []"
      "closes cs = (if e_recv E (calls w) (m_socket s) = RecvError then [m_socket s] else []) @
         (if expired then [m_socket s] else [])"
proof -
  let ?x = "\<lparr>sess = s, wrld = w\<rparr>"
  have "history_ok (sess ?x)" using ok by simp
  then show thesis
  proof (cases rule: session_update_cases [where E = E and p = p])
    case (past data)
    then show thesis using that(1) by (simp add: update_faults_def update_one_def)
  next
    case (fine y cs)
    have no: "\<not> update_faults E p s w"
      using fine(2) by (auto simp: update_faults_def split: recv_result.splits)
    let ?now = "e_clock E (calls (wrld y))"
    let ?z = "y\<lparr>wrld := emit (Clock ?now) (wrld y)\<rparr>"
    have time: "checkTimeout E y = (timed_out ?now (sess y), ?z)"
      by (simp add: checkTimeout_def read_clock_def Let_def)
    let ?e = "timed_out ?now (sess y)"
    let ?u = "if ?e then closeClient E ?z else ?z"
    obtain ds where ds: "calls (wrld ?u) = calls (wrld y) @ ds" "only_sock (m_socket s) ds"
      "opens ds = []" "closes ds = (if ?e then [m_socket s] else [])"
      "vCheckFlag (wrld ?u) = vCheckFlag (wrld y)" "m_socket (sess ?u) = m_socket s"
      "history_ok (sess ?u)"
    proof (cases ?e)
      case True
      obtain a now where c: "calls (wrld (closeClient E ?z)) = calls (wrld ?z) @
          [Log info a, Shutdown (m_socket (sess ?z)), Close (m_socket (sess ?z)), Clock now]"
        "sess (closeClient E ?z) = (sess ?z)\<lparr>stats := (stats (sess ?z))\<lparr>disconnectTime := now\<rparr>\<rparr>"
        "vCheckFlag (wrld (closeClient E ?z)) = vCheckFlag (wrld ?z)"
        by (rule closeClient_calls)
      show thesis
        by (rule that [of "[Clock ?now, Log info a, Shutdown (m_socket s), Close (m_socket s), Clock now]"])
          (use True c fine in simp_all)
    next
      case False
      then show thesis by (intro that [of "[Clock ?now]"]) (use fine in simp_all)
    qed
    obtain ms where ms: "calls (report_session E st (sess ?u) ?e (wrld ?u)) = calls (wrld ?u) @ map Metric ms"
      "vCheckFlag (report_session E st (sess ?u) ?e (wrld ?u)) = vCheckFlag (wrld ?u)"
      using report_session_metrics [of "wrld ?u" E st "sess ?u" ?e] by (auto simp: metrics_only_def)
    show thesis
    proof (rule that(2) [of ?e "sess ?u" "report_session E st (sess ?u) ?e (wrld ?u)" "cs @ ds @ map Metric ms"])
      show "update_one E (make_cfg p connected newline tab) st s w =
          Inr (?e, sess ?u, report_session E st (sess ?u) ?e (wrld ?u))"
        by (simp add: update_one_def fine(1) time Let_def)
    qed (use no fine ds ms in \<open>simp_all del: if_split\<close>)
  qed
qed

text \<open>
  A pass over the sessions keeps a sub-list of them. Without receive errors every session that
  is gone was closed, once, and no other socket was.
\<close>

lemma update_each_Inr:
  assumes "update_each E (make_cfg p connected newline tab) st ss w = Inr (ss', w')"
    and "\<forall>s \<in> set ss. history_ok s"
  shows "subseq (map m_socket ss') (map m_socket ss) \<and> (\<forall>s \<in> set ss'. history_ok s) \<and>
    vCheckFlag w' = vCheckFlag w \<and>
    (\<exists>cs. calls w' = calls w @ cs \<and> opens cs = [] \<and>
       (no_recv_error E \<longrightarrow> mset (map m_socket ss) = mset (map m_socket ss') + mset (closes cs)))"
  using assms
proof (induction ss arbitrary: ss' w)
  case Nil
  then show ?case by (auto intro!: exI [of _ "[]"])
next
  case (Cons s ss)
  have "history_ok s" using Cons.prems by simp
  then show ?case
  proof (cases rule: update_one_cases [where E = E and p = p and st = st and w = w])
    case past
    then show ?thesis using Cons.prems by simp
  next
    case (fine expired t u cs)
    with Cons.prems obtain rest where rest:
      "update_each E (make_cfg p connected newline tab) st ss u = Inr (rest, w')"
      "ss' = (if expired then rest else t # rest)" by auto
    from Cons.IH [OF rest(1)] Cons.prems(2) obtain ds where ds:
      "calls w' = calls u @ ds" "opens ds = []" "subseq (map m_socket rest) (map m_socket ss)"
      "\<forall>s \<in> set rest. history_ok s" "vCheckFlag w' = vCheckFlag u"
      "no_recv_error E \<Longrightarrow> mset (map m_socket ss) = mset (map m_socket rest) + mset (closes ds)"
      by auto
    show ?thesis
      using fine rest(2) ds
      by (intro conjI exI [of _ "cs @ ds"]) (auto simp: no_recv_error_def)
  qed
qed

lemma update_each_no_fault:
  assumes "\<forall>s \<in> set ss. history_ok s"
  shows "update_each E (make_cfg p connected newline tab) st ss w = Inl e \<Longrightarrow> e = PastEndIterator"
  using assms
proof (induction ss arbitrary: w)
  case (Cons s ss)
  have "history_ok s" using Cons.prems by simp
  then show ?case
    by (cases rule: update_one_cases [where E = E and p = p and st = st and w = w])
      (use Cons in \<open>auto simp: bind_sum_Inl_iff\<close>)
qed simp

end

section \<open>Accepting a connection\<close>

text \<open>
  The invariant of a server with the callbacks \<open>c\<close>, \<open>n\<close>, \<open>t\<close>: at most five sessions, every
  history well formed, a thread exactly while it is initialised, no session otherwise.
\<close>

definition server_ok :: "connected_cb \<Rightarrow> newline_cb \<Rightarrow> tab_cb \<Rightarrow> telnet_server \<Rightarrow> bool" where
  "server_ok c n t srv \<longleftrightarrow>
     srv_cfg srv = make_cfg (m_promptString (srv_cfg srv)) c n t \<and>
     length (m_sessions srv) \<le> MAX_AVAILABLE_SESSION \<and>
     (\<forall>s \<in> set (m_sessions srv). history_ok s) \<and>
     m_serverThread srv = m_initialised srv \<and>
     (if m_initialised srv then m_listenSocket srv \<noteq> INVALID_SOCKET else m_sessions srv = [])"

text \<open>The ledger: every descriptor opened was closed, is a session's, or is being listened on.\<close>

definition owned :: "telnet_server \<Rightarrow> sock list" where
  "owned srv = map m_socket (m_sessions srv) @ (if m_initialised srv then [m_listenSocket srv] else [])"

definition balanced :: "telnet_server \<Rightarrow> world \<Rightarrow> bool" where
  "balanced srv w \<longleftrightarrow> mset (opens (calls w)) = mset (closes (calls w)) + mset (owned srv)"

context telnet_callbacks
begin

lemma session_initialise_frame:
  assumes "history_ok (sess x)"
  shows "accounted x (session_initialise E (make_cfg p connected newline tab) x)"
    and "history_ok (sess (session_initialise E (make_cfg p connected newline tab) x))"
proof -
  let ?a = "on_wrld (emit (Log info (''Telnet connection received from '' @ getPeerIP E x))) x"
  let ?now = "e_clock E (calls (wrld ?a))"
  let ?b = "?a\<lparr>sess := (sess ?a)\<lparr>stats := (stats (sess ?a))\<lparr>connectTime := ?now\<rparr>\<rparr>,
      wrld := emit (Clock ?now) (wrld ?a)\<rparr>"
  let ?c = "on_wrld (emit (SetNonBlocking (m_socket (sess x)))) ?b"
  let ?d = "session_initialise E (make_cfg p connected newline tab) x"
  have "session_frame ?c ?d"
    unfolding session_initialise_def Let_def read_clock_def make_cfg_simps option.case split
    by (intro frame_comp [OF frame_touch] frame_comp [OF connected_frame] frame_comp [OF frame_send])
      simp
  moreover have "accounted x ?c"
    by (simp add: accounted_def)
  ultimately show "accounted x ?d"
    using accounted_trans session_frame_accounted by blast
  have "history_ok (sess ?c)" using assms by (simp add: history_ok_def)
  with \<open>session_frame ?c ?d\<close> show "history_ok (sess ?d)"
    using history_ok_frame by (auto simp: session_frame_def)
qed

lemma acceptConnection_frame:
  assumes acc: "acceptConnection E srv w = (ok, srv', w')"
    and inv: "server_ok connected newline tab srv" "m_initialised srv"
  shows "server_ok connected newline tab srv' \<and> m_initialised srv' \<and>
    (\<exists>sessions. srv' = srv\<lparr>m_sessions := sessions\<rparr>) \<and> vCheckFlag w' = vCheckFlag w \<and>
    (\<exists>cs. calls w' = calls w @ cs \<and>
       mset (map m_socket (m_sessions srv)) + mset (opens cs) =
       mset (map m_socket (m_sessions srv')) + mset (closes cs))"
proof -
  define fd where "fd = e_accept E (calls w) (m_listenSocket srv)"
  define w1 where "w1 = emit (Accept (m_listenSocket srv) fd) w"
  define p where "p = m_promptString (srv_cfg srv)"
  let ?x = "\<lparr>sess = new_session fd, wrld = w1\<rparr>"
  let ?y = "session_initialise E (make_cfg p connected newline tab) ?x"
  have cfg: "srv_cfg srv = make_cfg p connected newline tab"
    using inv by (simp add: server_ok_def p_def)
  have hist: "history_ok (sess ?x)" by simp
  have acc': "accounted ?x ?y" by (rule session_initialise_frame) simp
  have ok': "history_ok (sess ?y)" by (rule session_initialise_frame) simp
  from acc' obtain cs where cs: "calls (wrld ?y) = calls w1 @ cs" "closes cs = []" "opens cs = []"
    "m_socket (sess ?y) = fd" "vCheckFlag (wrld ?y) = vCheckFlag w1"
    by (auto simp: accounted_def)
  note eval = acc [unfolded acceptConnection_def Let_def cfg make_cfg_simps,
      folded fd_def, folded w1_def]
  consider (bad) "fd = - 1" | (full) "fd \<noteq> - 1" "length (m_sessions srv) \<ge> MAX_AVAILABLE_SESSION"
    | (room) "fd \<noteq> - 1" "length (m_sessions srv) < MAX_AVAILABLE_SESSION" by linarith
  then show ?thesis
  proof cases
    case bad
    then show ?thesis using eval inv
      by (auto simp: INVALID_SOCKET_def w1_def fd_def [symmetric] intro!: exI [of _ "m_sessions srv"])
  next
    case full
    let ?z = "sendLine E p refusal ?y"
    obtain ds where ds: "calls (wrld ?z) = calls (wrld ?y) @ ds" "closes ds = []" "opens ds = []"
      "m_socket (sess ?z) = fd" "vCheckFlag (wrld ?z) = vCheckFlag (wrld ?y)"
      using session_frame_accounted [OF frame_sendLine [of ?y E p refusal]] cs(4)
      by (auto simp: accounted_def)
    obtain a now where c: "calls (wrld (closeClient E ?z)) = calls (wrld ?z) @
        [Log info a, Shutdown fd, Close fd, Clock now]"
      "vCheckFlag (wrld (closeClient E ?z)) = vCheckFlag (wrld ?z)"
      by (metis closeClient_calls ds(4))
    have "srv' = srv" "w' = wrld (closeClient E ?z)"
      using eval full by (auto simp: INVALID_SOCKET_def)
    then show ?thesis
      using inv cs ds c full
      by (auto simp: w1_def intro!: exI [of _ "m_sessions srv"])
  next
    case room
    have "srv' = srv\<lparr>m_sessions := m_sessions srv @ [sess ?y]\<rparr>" "w' = wrld ?y"
      using eval room by (auto simp: INVALID_SOCKET_def)
    then show ?thesis
      using inv cs ok' room by (auto simp: w1_def server_ok_def)
  qed
qed

end

section \<open>One round, set-up and shutdown\<close>

lemma sessions_stats_metrics:
  "vCheckFlag (sessions_stats E srv a r start w) = vCheckFlag w"
  "\<exists>now ms. calls (sessions_stats E srv a r start w) = calls w @ Clock now # map Metric ms"
proof -
  let ?w = "emit (Clock (e_clock E (calls w))) w"
  have "metrics_only ?w (sessions_stats E srv a r start w)"
    by (auto simp: sessions_stats_def read_clock_def Let_def metrics_only_server split: option.split)
  then show "vCheckFlag (sessions_stats E srv a r start w) = vCheckFlag w"
    and "\<exists>now ms. calls (sessions_stats E srv a r start w) = calls w @ Clock now # map Metric ms"
    by (auto simp: metrics_only_def)
qed

lemma TelnetStats_ctor_metrics:
  "TelnetStats_ctor E reg port name w = Inr (ts, w') \<Longrightarrow> metrics_only w w'"
  by (auto simp: TelnetStats_ctor_def initBaseStats_def Let_def metrics_only_metric split: if_splits)

lemma TelnetStats_ctor_registry: "TelnetStats_ctor E True port name w \<noteq> Inl e"
  by (simp add: TelnetStats_ctor_def Let_def)

definition listen_in_range :: "telnet_server \<Rightarrow> bool" where
  "listen_in_range srv \<longleftrightarrow> 0 \<le> m_listenSocket srv \<and> m_listenSocket srv < FD_SETSIZE"

text \<open>A round up to its accept: the pass over the sessions starts from here.\<close>

definition round_start :: "env \<Rightarrow> telnet_server \<Rightarrow> world \<Rightarrow> bool \<times> bool \<times> telnet_server \<times> world" where
  "round_start E srv w =
     (let w = snd (read_clock E w);
          ready = e_select E (calls w) (m_listenSocket srv);
          w = emit (Select (m_listenSocket srv) ready) w
      in if ready > 0
         then let (ok, srv, w) = acceptConnection E srv w in (ok, \<not> ok, srv, w)
         else (False, False, srv, w))"

lemma server_update_eq:
  "server_update E srv w =
     (if \<not> listen_in_range srv then Inl FdSetRange
      else case round_start E srv w of (accepted, refused, srv', w') \<Rightarrow>
        bind_sum (update_sessions E (srv_cfg srv') (m_stats srv') 0 (m_sessions srv') w') (\<lambda>(sessions, w').
          Inr (srv'\<lparr>m_sessions := sessions\<rparr>,
            sessions_stats E (srv'\<lparr>m_sessions := sessions\<rparr>) accepted refused (fst (read_clock E w)) w')))"
  by (simp add: server_update_def round_start_def listen_in_range_def read_clock_def Let_def
      split: prod.splits)

context telnet_callbacks
begin

lemma round_start_frame:
  assumes start: "round_start E srv w = (a, r, srv', w')"
    and inv: "server_ok connected newline tab srv" "m_initialised srv"
  shows "server_ok connected newline tab srv' \<and> m_initialised srv' \<and>
    (\<exists>sessions. srv' = srv\<lparr>m_sessions := sessions\<rparr>) \<and> vCheckFlag w' = vCheckFlag w \<and>
    (\<exists>cs. calls w' = calls w @ cs \<and>
       mset (map m_socket (m_sessions srv)) + mset (opens cs) =
       mset (map m_socket (m_sessions srv')) + mset (closes cs))"
proof -
  define w1 where "w1 = snd (read_clock E w)"
  define ready where "ready = e_select E (calls w1) (m_listenSocket srv)"
  define w2 where "w2 = emit (Select (m_listenSocket srv) ready) w1"
  have w2: "calls w2 = calls w @ [Clock (e_clock E (calls w)), Select (m_listenSocket srv) ready]"
    "vCheckFlag w2 = vCheckFlag w"
    by (simp_all add: w2_def w1_def read_clock_def Let_def)
  note eval = start [unfolded round_start_def Let_def, folded w1_def, folded ready_def, folded w2_def]
  show ?thesis
  proof (cases "ready > 0")
    case True
    then obtain ok where "acceptConnection E srv w2 = (ok, srv', w')"
      using eval by (auto split: prod.splits)
    from acceptConnection_frame [OF this inv] w2 show ?thesis
      by auto
  next
    case False
    then show ?thesis using eval inv w2
      by (auto intro!: exI [of _ "m_sessions srv"])
  qed
qed

text \<open>
  A round of an initialised server fails on a listening socket \<open>FD_SET\<close> does not take or on
  an arrow key past the end. Otherwise it keeps the invariant, and the ledger as well when no
  receive fails.
\<close>

lemma server_update_Inr:
  assumes upd: "server_update E srv w = Inr (srv', w')"
    and inv: "server_ok connected newline tab srv" "m_initialised srv"
  shows "server_ok connected newline tab srv'" and "m_initialised srv'"
    and "vCheckFlag w' = vCheckFlag w"
    and "no_recv_error E \<Longrightarrow> balanced srv w \<Longrightarrow> balanced srv' w'"
    and "listen_in_range srv" and "\<exists>sessions. srv' = srv\<lparr>m_sessions := sessions\<rparr>"
    and "\<exists>cs. calls w' = calls w @ cs \<and> (no_recv_error E \<longrightarrow>
       mset (map m_socket (m_sessions srv)) + mset (opens cs) =
       mset (map m_socket (m_sessions srv')) + mset (closes cs))"
proof -
  obtain a r srv1 w1 where start: "round_start E srv w = (a, r, srv1, w1)" by (metis prod_cases4)
  from round_start_frame [OF start inv] obtain cs sessions where start':
    "server_ok connected newline tab srv1" "m_initialised srv1" "srv1 = srv\<lparr>m_sessions := sessions\<rparr>"
    "vCheckFlag w1 = vCheckFlag w" "calls w1 = calls w @ cs"
    "mset (map m_socket (m_sessions srv)) + mset (opens cs) =
       mset (map m_socket (m_sessions srv1)) + mset (closes cs)"
    by blast
  obtain ss w2 where pass: "update_sessions E (srv_cfg srv1) (m_stats srv1) 0 (m_sessions srv1) w1 = Inr (ss, w2)"
    and srv': "srv' = srv1\<lparr>m_sessions := ss\<rparr>" and w': "\<exists>st. w' = sessions_stats E srv' a r st w2"
    and range: "listen_in_range srv"
    using upd by (auto simp: server_update_eq start split: if_splits)
  have cfg: "srv_cfg srv1 = make_cfg (m_promptString (srv_cfg srv1)) connected newline tab"
    and len: "length (m_sessions srv1) \<le> 5" and hist: "\<forall>s \<in> set (m_sessions srv1). history_ok s"
    using start'(1) by (auto simp: server_ok_def MAX_AVAILABLE_SESSION_def)
  have "update_each E (make_cfg (m_promptString (srv_cfg srv1)) connected newline tab) (m_stats srv1)
      (m_sessions srv1) w1 = Inr (ss, w2)"
    using pass len cfg by (subst (asm) update_sessions_each) auto
  from update_each_Inr [OF this hist] obtain ds where ds:
    "subseq (map m_socket ss) (map m_socket (m_sessions srv1))" "\<forall>s \<in> set ss. history_ok s"
    "vCheckFlag w2 = vCheckFlag w1" "calls w2 = calls w1 @ ds" "opens ds = []"
    "no_recv_error E \<Longrightarrow> mset (map m_socket (m_sessions srv1)) = mset (map m_socket ss) + mset (closes ds)"
    by blast
  have "length ss \<le> length (m_sessions srv1)" using list_emb_length [OF ds(1)] by simp
  then show "server_ok connected newline tab srv'" and "m_initialised srv'"
    using start'(1,2) ds(2) srv' by (auto simp: server_ok_def)
  show "listen_in_range srv" by (rule range)
  show "\<exists>sessions. srv' = srv\<lparr>m_sessions := sessions\<rparr>" using srv' start'(3) by auto
  show "vCheckFlag w' = vCheckFlag w"
    using w' sessions_stats_metrics(1) ds(3) start'(4) by auto
  from w' sessions_stats_metrics(2) obtain now ms where calls': "calls w' = calls w2 @ Clock now # map Metric ms"
    by metis
  show "balanced srv' w'" if "no_recv_error E" "balanced srv w"
    using that(2) start' ds(4,5) ds(6) [OF that(1)] srv' calls' inv(2)
    by (auto simp: balanced_def owned_def)
  show "\<exists>cs. calls w' = calls w @ cs \<and> (no_recv_error E \<longrightarrow>
       mset (map m_socket (m_sessions srv)) + mset (opens cs) =
       mset (map m_socket (m_sessions srv')) + mset (closes cs))"
    using start'(5,6) ds(4-6) srv' calls' by auto
qed

lemma server_update_Inl:
  assumes "server_update E srv w = Inl e"
    and inv: "server_ok connected newline tab srv" "m_initialised srv" "listen_in_range srv"
  shows "e = PastEndIterator"
proof -
  obtain a r srv1 w1 where start: "round_start E srv w = (a, r, srv1, w1)" by (metis prod_cases4)
  from round_start_frame [OF start inv(1,2)] have ok: "server_ok connected newline tab srv1" by blast
  then have cfg: "srv_cfg srv1 = make_cfg (m_promptString (srv_cfg srv1)) connected newline tab"
    and len: "length (m_sessions srv1) \<le> 5" and hist: "\<forall>s \<in> set (m_sessions srv1). history_ok s"
    by (auto simp: server_ok_def MAX_AVAILABLE_SESSION_def)
  have "update_sessions E (srv_cfg srv1) (m_stats srv1) 0 (m_sessions srv1) w1 = Inl e"
    using assms by (auto simp: server_update_eq start bind_sum_Inl_iff)
  then have "update_each E (make_cfg (m_promptString (srv_cfg srv1)) connected newline tab) (m_stats srv1)
      (m_sessions srv1) w1 = Inl e"
    using len cfg by (subst (asm) update_sessions_each) (auto simp: bind_sum_Inl_iff)
  from update_each_no_fault [OF hist this] show ?thesis .
qed

end

text \<open>
  \<open>initialise\<close> of a fresh server. Whatever fails, the address list is released exactly when it
  was obtained, the socket is closed again, and the object is not initialised.
\<close>

definition address_lists :: "call list \<Rightarrow> int" where
  "address_lists cs = int (length (filter (\<lambda>c. \<exists>s. c = GetAddrInfo s 0) cs))
     - int (length (filter (\<lambda>c. c = FreeAddrInfo) cs))"

lemma address_lists_simps [simp]:
  "address_lists [] = 0"
  "address_lists (cs @ ds) = address_lists cs + address_lists ds"
  "address_lists (c # cs) = (if \<exists>s. c = GetAddrInfo s 0 then 1 else 0)
     - (if c = FreeAddrInfo then 1 else 0) + address_lists cs"
  "address_lists (map Metric ms) = 0"
proof -
  show map: "address_lists (map Metric ms) = 0" for ms
    by (induction ms) (simp_all add: address_lists_def)
qed (simp_all add: address_lists_def)

lemma prompt_update_self [simp]: "\<exists>p. c = c\<lparr>m_promptString := p\<rparr>"
  by (rule exI [of _ "m_promptString c"]) simp

lemma server_initialise_Inr:
  assumes "server_initialise E port flag prompt reg name srv w = Inr (ok, srv', w')"
  shows "vCheckFlag w' = vCheckFlag w"
    and "\<exists>cs. calls w' = calls w @ cs \<and> address_lists cs = 0 \<and>
       (if ok then \<exists>fd. opens cs = [fd] \<and> fd \<noteq> - 1 \<and> closes cs = [] \<and> m_listenSocket srv' = fd
        else opens cs = closes cs)"
    and "m_sessions srv' = m_sessions srv"
    and "ok \<Longrightarrow> \<not> m_initialised srv \<and> m_initialised srv' \<and> m_serverThread srv' \<and>
       m_promptString (srv_cfg srv') = prompt \<and> m_checkFlag srv' = flag"
    and "\<not> ok \<Longrightarrow> m_initialised srv' = m_initialised srv \<and> m_serverThread srv' = m_serverThread srv"
    and "m_initialised srv \<Longrightarrow> srv' = srv"
    and "\<exists>p. srv_cfg srv' = (srv_cfg srv)\<lparr>m_promptString := p\<rparr>"
  using assms
  by (auto simp: server_initialise_def Let_def INVALID_SOCKET_def metrics_only_def
      dest!: TelnetStats_ctor_metrics split: if_splits sum.splits)

lemma close_sessions_calls:
  "(\<exists>cs. calls (close_sessions E ss w) = calls w @ cs \<and> closes cs = map m_socket ss \<and> opens cs = []) \<and>
     vCheckFlag (close_sessions E ss w) = vCheckFlag w"
proof (induction ss arbitrary: w)
  case (Cons s ss)
  let ?w = "wrld (closeClient E \<lparr>sess = s, wrld = w\<rparr>)"
  obtain a now where c: "calls ?w = calls w @ [Log info a, Shutdown (m_socket s), Close (m_socket s), Clock now]"
    "vCheckFlag ?w = vCheckFlag w"
    by (rule closeClient_calls [where E = E and x = "\<lparr>sess = s, wrld = w\<rparr>"]) simp
  obtain cs where cs: "calls (close_sessions E ss ?w) = calls ?w @ cs" "closes cs = map m_socket ss"
    "opens cs = []" "vCheckFlag (close_sessions E ss ?w) = vCheckFlag ?w"
    using Cons.IH [of ?w] by blast
  have step: "close_sessions E (s # ss) w = close_sessions E ss ?w"
    by (simp add: close_sessions_def)
  show ?case unfolding step
    by (rule conjI, rule exI [of _ "[Log info a, Shutdown (m_socket s), Close (m_socket s), Clock now] @ cs"])
      (simp_all add: c cs)
qed (simp add: close_sessions_def)

section \<open>The life of a server\<close>

text \<open>
  What the owner and the thread of a server do, in any order: \<open>initialise\<close> with any arguments,
  a round while the thread runs, \<open>shutdown\<close> of an initialised server.
\<close>

inductive server_step :: "env \<Rightarrow> telnet_server \<times> world \<Rightarrow> telnet_server \<times> world \<Rightarrow> bool" for E where
  initialise: "server_initialise E port flag prompt reg name srv w = Inr (ok, srv', w') \<Longrightarrow>
      server_step E (srv, w) (srv', w')"
| round: "m_serverThread srv \<Longrightarrow> server_update E srv w = Inr (srv', w') \<Longrightarrow>
      server_step E (srv, w) (srv', set_flag (m_checkFlag srv) w')"
| shutdown: "m_initialised srv \<Longrightarrow> server_shutdown E srv w = (srv', w') \<Longrightarrow>
      server_step E (srv, w) (srv', w')"

inductive_cases server_stepE: "server_step E (srv, w) (srv', w')"

inductive_simps server_step_fresh: "server_step E (new_server, w) x"

inductive server_reach :: "env \<Rightarrow> telnet_server \<times> world \<Rightarrow> telnet_server \<times> world \<Rightarrow> bool" for E where
  start: "server_reach E a a"
| step: "server_reach E a b \<Longrightarrow> server_step E b c \<Longrightarrow> server_reach E a c"

lemma set_flag_calls:
  "\<exists>cs. calls (set_flag f w) = calls w @ cs \<and> closes cs = [] \<and> opens cs = [] \<and>
     (\<forall>c \<in> set cs. call_sock c = None)"
  by (auto simp: set_flag_def split: option.splits)

lemma balanced_set_flag: "balanced srv (set_flag f w) = balanced srv w"
  using set_flag_calls [of f w] by (auto simp: balanced_def)

lemma make_cfg_prompt:
  "cfg = make_cfg q c n t \<Longrightarrow> cfg\<lparr>m_promptString := p\<rparr> = make_cfg p c n t"
  by (simp add: make_cfg_def)

context telnet_callbacks
begin

lemma server_step_ok:
  assumes step: "server_step E (srv, w) (srv', w')"
    and ok: "server_ok connected newline tab srv"
  shows "server_ok connected newline tab srv'"
    and "no_recv_error E \<Longrightarrow> balanced srv w \<Longrightarrow> balanced srv' w'"
proof -
  from step consider (init) port flag prompt reg name r
      where "server_initialise E port flag prompt reg name srv w = Inr (r, srv', w')"
    | (round) w1 where "m_serverThread srv" "server_update E srv w = Inr (srv', w1)"
        "w' = set_flag (m_checkFlag srv) w1"
    | (stop) "m_initialised srv" "server_shutdown E srv w = (srv', w')"
    by (rule server_stepE) blast+
  then have "server_ok connected newline tab srv' \<and>
      (no_recv_error E \<longrightarrow> balanced srv w \<longrightarrow> balanced srv' w')"
  proof cases
    case (init port flag prompt reg name r)
    note init = server_initialise_Inr [OF init]
    from init(2) obtain cs where "calls w' = calls w @ cs"
      "if r then \<exists>fd. opens cs = [fd] \<and> fd \<noteq> - 1 \<and> closes cs = [] \<and> m_listenSocket srv' = fd
       else opens cs = closes cs" by blast
    then show ?thesis
      using ok init(3-7) by (cases r) (auto simp: server_ok_def balanced_def owned_def INVALID_SOCKET_def
          intro!: make_cfg_prompt)
  next
    case (round w1)
    have i: "m_initialised srv" using ok round by (simp add: server_ok_def)
    from server_update_Inr [OF round(2) ok i] round show ?thesis
      by (auto simp: balanced_set_flag)
  next
    case stop
    obtain cs where "calls (close_sessions E (m_sessions srv) w) = calls w @ cs"
      "closes cs = map m_socket (m_sessions srv)" "opens cs = []"
      using close_sessions_calls by blast
    then show ?thesis
      using stop ok by (auto simp: server_shutdown_def Let_def server_ok_def balanced_def owned_def)
  qed
  then show "server_ok connected newline tab srv'"
    and "no_recv_error E \<Longrightarrow> balanced srv w \<Longrightarrow> balanced srv' w'" by blast+
qed

lemma server_reach_ok:
  assumes "server_reach E (srv, w) (srv', w')" and "server_ok connected newline tab srv"
  shows "server_ok connected newline tab srv' \<and>
    (no_recv_error E \<longrightarrow> balanced srv w \<longrightarrow> balanced srv' w')"
  using assms
proof (induction "(srv, w)" "(srv', w')" arbitrary: srv' w' rule: server_reach.induct)
  case (step b)
  obtain s v where b: "b = (s, v)" by (cases b)
  with step show ?case using server_step_ok by blast
qed simp

text \<open>A round in which no session receives anything does not fail.\<close>

lemma update_each_quiet:
  assumes "\<And>cs s. e_recv E cs s = RecvAgain" and "\<forall>s \<in> set ss. history_ok s"
  shows "\<exists>r. update_each E (make_cfg p connected newline tab) st ss w = Inr r"
  using assms(2)
proof (induction ss arbitrary: w)
  case (Cons s ss)
  have "history_ok s" using Cons.prems by simp
  then show ?case
  proof (cases rule: update_one_cases [where E = E and p = p and st = st and w = w])
    case past
    then show ?thesis using assms(1) by (simp add: update_faults_def)
  next
    case (fine expired t u cs)
    then show ?thesis using Cons.IH [of u] Cons.prems by auto
  qed
qed simp

lemma quiet_round:
  assumes inv: "server_ok connected newline tab srv" "m_initialised srv" "listen_in_range srv"
    and quiet: "\<And>cs s. e_recv E cs s = RecvAgain"
  shows "\<exists>srv' w'. server_update E srv w = Inr (srv', w')"
proof -
  obtain a r srv1 w1 where start: "round_start E srv w = (a, r, srv1, w1)" by (metis prod_cases4)
  from round_start_frame [OF start inv(1,2)] have ok: "server_ok connected newline tab srv1" by blast
  then have cfg: "srv_cfg srv1 = make_cfg (m_promptString (srv_cfg srv1)) connected newline tab"
    and len: "length (m_sessions srv1) \<le> 5" and hist: "\<forall>s \<in> set (m_sessions srv1). history_ok s"
    by (auto simp: server_ok_def MAX_AVAILABLE_SESSION_def)
  obtain q where "update_each E (make_cfg (m_promptString (srv_cfg srv1)) connected newline tab) (m_stats srv1)
      (m_sessions srv1) w1 = Inr q"
    using update_each_quiet [OF quiet hist] by blast
  then have "update_sessions E (srv_cfg srv1) (m_stats srv1) 0 (m_sessions srv1) w1 = Inr q"
    using len cfg by (subst update_sessions_each) auto
  then show ?thesis using inv(3) by (cases q) (simp add: server_update_eq start)
qed

end

end
