(* ===== verification/TelnetLines.thy ===== *)
theory TelnetLines
  imports TelnetLife
begin

text \<open>
  A plain command line in one read: the editing passes leave it alone, the line reaches the
  callback once, and the command \<open>quit\<close> closes the session in the same round.
\<close>

definition plain_line :: "string \<Rightarrow> bool" where
  "plain_line l \<longleftrightarrow> (\<forall>c \<in> set l. c \<notin> {CHR 0x00, CHR 0x0A, CHR 0x0D, CHR 0x1B, CHR 0xFF, CHR 0x7F, CHR 0x08, CHR 0x09})"

lemma plain_lineD:
  assumes "plain_line l"
  shows "ASCII_NULL \<notin> set (l @ CRLF)" "ASCII_NBSP \<notin> set (l @ CRLF)" "CHR 0x1B \<notin> set (l @ CRLF)"
    "BS_DEL \<notin> set (l @ CRLF)" "BS_BS \<notin> set (l @ CRLF)" "TAB \<notin> set (l @ CRLF)"
    "\<not> sublist CRLF l"
proof -
  have "CHR 0x0D \<notin> set l" using assms by (auto simp: plain_line_def)
  then show "\<not> sublist CRLF l"
    using set_mono_sublist [of CRLF l] by (auto simp: CRLF_def)
  show "ASCII_NULL \<notin> set (l @ CRLF)" "ASCII_NBSP \<notin> set (l @ CRLF)" "CHR 0x1B \<notin> set (l @ CRLF)"
    "BS_DEL \<notin> set (l @ CRLF)" "BS_BS \<notin> set (l @ CRLF)" "TAB \<notin> set (l @ CRLF)"
    using assms by (auto simp: plain_line_def CRLF_def ASCII_NULL_def ASCII_NBSP_def BS_DEL_def BS_BS_def TAB_def)
qed

lemma replace_nulls_id: "ASCII_NULL \<notin> set b \<Longrightarrow> replace_nulls b = b"
  unfolding replace_nulls_def by (rule map_idI) auto

lemma no_escape_no_arrow:
  "CHR 0x1B \<notin> set b \<Longrightarrow> a \<in> set cursors \<Longrightarrow> \<not> sublist a b"
  using set_mono_sublist [of a b] by (auto simp: cursors_def eval_simps)

lemma no_escape_strip: "CHR 0x1B \<notin> set b \<Longrightarrow> stripEscapeCharacters b = b"
proof -
  assume b: "CHR 0x1B \<notin> set b"
  have "fold erase_all cs b = b" if "set cs \<subseteq> set cursors" for cs
    using that by (induction cs) (auto simp: erase_all_id no_escape_no_arrow [OF b])
  then show ?thesis unfolding stripEscapeCharacters_def by simp
qed

lemma set_buffer_self [simp]: "set_buffer (m_buffer (sess x)) x = x"
  by (simp add: set_buffer_def on_sess_def)

lemma edit_buffer_untouched:
  assumes "CHR 0x1B \<notin> set (m_buffer (sess x))" "BS_DEL \<notin> set (m_buffer (sess x))"
    "BS_BS \<notin> set (m_buffer (sess x))" "TAB \<notin> set (m_buffer (sess x))"
  shows "edit_buffer E cfg x = Inr (False, x)"
proof -
  have "\<not> str_contains a (m_buffer (sess x))" if "a \<in> set cursors" for a
    using no_escape_no_arrow [OF assms(1) that] by (simp add: str_contains_sublist)
  then have "\<not> str_contains ANSI_ARROW_UP (m_buffer (sess x))" "\<not> str_contains ANSI_ARROW_DOWN (m_buffer (sess x))"
    "\<not> str_contains ANSI_ARROW_LEFT (m_buffer (sess x))" "\<not> str_contains ANSI_ARROW_RIGHT (m_buffer (sess x))"
    by (auto simp: cursors_def)
  then have "processCommandHistory E p x = Inr (False, x)" for p
    by (simp add: processCommandHistory_def Let_def)
  moreover have "processBackspace (m_buffer (sess x)) = (False, m_buffer (sess x))"
    using assms by (simp add: processBackspace_def backspace_loop_spec)
  moreover have "processTab E cfg x = Some (False, x)"
    using assms(4) by (simp add: processTab_def tab_loop.simps)
  ultimately show ?thesis
    by (simp add: edit_buffer_def no_escape_strip [OF assms(1)])
qed

text \<open>The context in which the line of a read is handed to the callback.\<close>

definition line_received :: "env \<Rightarrow> string \<Rightarrow> ctx \<Rightarrow> ctx" where
  "line_received E data x =
     (let x = on_sess reset_stats x;
          x = on_wrld (emit (Recv (m_socket (sess x)) DEFAULT_BUFLEN (int (length data)))) x
      in set_buffer [] (receive_start E data x))"

lemma session_update_line:
  assumes recv: "e_recv E (calls (wrld x)) (m_socket (sess x)) = RecvData (l @ CRLF)"
    and line: "plain_line l" "length l < 2 ^ 62" and empty: "m_buffer (sess x) = []"
  shows "session_update E cfg x = Inr (process_lines E cfg [l] (line_received E (l @ CRLF) x))"
proof -
  let ?x = "on_wrld (emit (Recv (m_socket (sess x)) DEFAULT_BUFLEN (int (length (l @ CRLF))))) (on_sess reset_stats x)"
  note p = plain_lineD [OF line(1)]
  have "fits (l @ CRLF)" using line(2) by (simp add: fits_def)
  moreover have "m_buffer (sess ?x) = []" using empty by (simp add: reset_stats_def)
  ultimately have buf: "m_buffer (sess (receive_start E (l @ CRLF) ?x)) = l @ CRLF"
    using p by (simp add: receive_start_simps(1) received_buffer_def replace_nulls_id
        stripNVT_eq_nvt_filter nvt_filter_id del: ctx_simps)
  have edit: "edit_buffer E cfg (receive_start E (l @ CRLF) ?x) = Inr (False, receive_start E (l @ CRLF) ?x)"
    by (rule edit_buffer_untouched; unfold buf; rule p)
  have "getCompleteLines (l @ CRLF) = ([l], [])"
    using getCompleteLines_unlines [of "[l]" "[]"] p(7) by (simp add: CRLF_def)
  then have "receive E cfg (l @ CRLF) ?x = Inr (process_lines E cfg [l] (set_buffer [] (receive_start E (l @ CRLF) ?x)))"
    by (simp only: receive_eq edit bind_sum_simps prod.case buf Let_def simp_thms if_False)
  moreover have "session_update E cfg x = receive E cfg (l @ CRLF) ?x"
    using recv by (simp add: session_update_def Let_def reset_stats_def)
  ultimately show ?thesis by (simp add: line_received_def Let_def reset_stats_def del: process_lines.simps)
qed

lemma markTimeout_last: "lastSeenTime (sess (markTimeout x)) = 0"
  by (simp add: markTimeout_def)

lemma quit_marks:
  assumes "constHasher (c_str line) = constHasher ''quit''"
  shows "TelnetMessageCallback E p line x =
    (True, markTimeout (sendLine E p ''Goodbye!'' (sendLine E p ''Closing connection''
       (sendLine E p line (on_wrld (emit (Log trace (''Received message '' @ line))) x)))))"
proof -
  have "line \<noteq> []"
  proof
    assume "line = []"
    then show False using assms by (simp add: c_str_def char_sz_def)
  qed
  with assms show ?thesis
    by (simp add: TelnetMessageCallback_def char_sz_def)
qed

end
