(* ===== verification/TelnetProperties.thy ===== *)
theory TelnetProperties
  imports TelnetLines
begin

text \<open>
  The properties of the telnet server, its sessions and its text processing, each followed by a
  run it applies to. \<open>sample_env\<close> is the kernel of those runs.
\<close>

definition sample_env :: "(call list \<Rightarrow> recv_result) \<Rightarrow> nanos \<Rightarrow> env" where
  [eval_simps]: "sample_env answer now =
     \<lparr>e_send = (\<lambda>_ _ b. int (length b)), e_recv = (\<lambda>cs _. answer cs), e_accept = (\<lambda>_ _. 9),
      e_select = (\<lambda>_ _. 1), e_getaddrinfo = (\<lambda>_ _. 0), e_socket = (\<lambda>_. 3),
      e_setsockopt = (\<lambda>_ _. 0), e_bind = (\<lambda>_ _. 0), e_listen = (\<lambda>_ _. 0), e_clock = (\<lambda>_. now),
      e_getpeername = (\<lambda>_ _. Some (127, 0, 0, 1)), e_gauge = (\<lambda>cs g. gauge_of g cs), e_time_iso = (\<lambda>_. ''now''),
      e_version = ''v1'', e_ndebug = True\<rparr>"

definition fresh_world :: world where
  [eval_simps]: "fresh_world = \<lparr>calls = [], vCheckFlag = [(''Telnet Server'', False)]\<rparr>"

definition shipped_server :: telnet_server where
  "shipped_server = new_server\<lparr>srv_cfg := shipped_cfg []\<rparr>"

lemma sample_env_simps [simp]:
  "e_recv (sample_env r t) cs s = r cs" "e_clock (sample_env r t) cs = t"
  "e_send (sample_env r t) cs s b = int (length b)" "e_accept (sample_env r t) cs s = 9"
  "e_select (sample_env r t) cs s = 1" "e_getaddrinfo (sample_env r t) cs p = 0"
  "e_socket (sample_env r t) cs = 3" "e_setsockopt (sample_env r t) cs s = 0"
  "e_bind (sample_env r t) cs s = 0" "e_listen (sample_env r t) cs s = 0"
  by (simp_all add: sample_env_def)

lemma sample_gauge_law: "gauge_law (sample_env r t)"
  by (simp add: gauge_law_def sample_env_def)

lemma fresh_world_simps [simp]: "calls fresh_world = []"
  by (simp add: fresh_world_def)

section \<open>Text of a session\<close>

text \<open>
  C27. \<open>stripNVT\<close>, whose loop computes positions in wrapping \<open>size_t\<close>, terminates and is the filter that
  drops every negotiation sequence (255 and the two bytes after it); what is left of 255 is at
  most an incomplete sequence at the end of the buffer.
\<close>

theorem stripNVT_correct:
  assumes "fits b"
  shows "stripNVT b = nvt_filter b \<and>
    (\<exists>p t. stripNVT b = p @ t \<and> ASCII_NBSP \<notin> set p \<and> length t \<le> 2)"
  using nvt_filter_tail [of b] by (simp add: stripNVT_eq_nvt_filter [OF assms])

lemma stripNVT_correct_witness:
  "stripNVT [CHR ''a'', CHR 0xFF, CHR 0xFB, CHR 0x01, CHR ''b'', CHR 0xFF] = [CHR ''a'', CHR ''b'', CHR 0xFF]"
  using stripNVT_correct [of "[CHR ''a'', CHR 0xFF, CHR 0xFB, CHR 0x01, CHR ''b'', CHR 0xFF]"]
  by (simp add: fits_def ASCII_NBSP_def)

text \<open>
  On a buffer that is a sequence of ordinary bytes and complete arrow keys,
  \<open>stripEscapeCharacters\<close> removes the arrow keys and nothing else.
\<close>

theorem stripEscape_removes_arrows:
  assumes "list_all key_ok ks"
  shows "stripEscapeCharacters (keys_bytes ks) = plain_bytes ks"
  using assms by (rule stripEscape_keys)

lemma stripEscape_removes_arrows_witness:
  "stripEscapeCharacters (keys_bytes [Plain (CHR ''a''), Arrow ANSI_ARROW_UP, Plain (CHR ''b'')]) = ''ab''"
  using stripEscape_removes_arrows [of "[Plain (CHR ''a''), Arrow ANSI_ARROW_UP, Plain (CHR ''b'')]"]
  by (simp add: cursors_def plain_bytes_def)

text \<open>
  C26. \<open>processBackspace\<close> is the line editor for the erase key 127, and then for the erase key 8; an
  erase on an empty line clears the whole buffer. It reports whether either key was there.
\<close>

theorem processBackspace_edits:
  "processBackspace b =
     (BS_DEL \<in> set b \<or> BS_BS \<in> set b, edit_or_clear BS_BS (edit_or_clear BS_DEL b))"
  by (simp add: processBackspace_def backspace_loop_spec)

text \<open>
  C24. \<open>getCompleteLines\<close> splits at every CR LF: it returns \<open>ls\<close> and keeps \<open>r\<close> exactly when the buffer is
  the lines \<open>ls\<close>, each with its terminator, followed by \<open>r\<close>, and neither a line nor \<open>r\<close> holds one.
\<close>

theorem getCompleteLines_iff:
  "getCompleteLines b = (ls, r) \<longleftrightarrow>
     b = unlines_crlf ls @ r \<and> list_all (\<lambda>l. \<not> sublist CRLF l) ls \<and> \<not> sublist CRLF r"
  using getCompleteLines_decompose [of b ls r] getCompleteLines_unlines [of ls r] by blast

text \<open>
  The lines do not depend on how TCP cuts the stream: reading \<open>b\<close> and then \<open>c\<close> gives the same lines
  and the same rest as reading both at once.
\<close>

theorem getCompleteLines_segments:
  assumes "getCompleteLines b = (ls, r)" and "getCompleteLines (r @ c) = (ms, q)"
  shows "getCompleteLines (b @ c) = (ls @ ms, q)"
  using assms by (rule getCompleteLines_append)

lemma getCompleteLines_segments_witness:
  "getCompleteLines ((''ping'' @ [CHR 0x0D]) @ [CHR 0x0A, CHR ''x'']) = ([] @ [''ping''], ''x'')"
proof (rule getCompleteLines_segments [where r = "''ping'' @ [CHR 0x0D]"])
  show "getCompleteLines (''ping'' @ [CHR 0x0D]) = ([], ''ping'' @ [CHR 0x0D])"
    using getCompleteLines_unlines [of "[]" "''ping'' @ [CHR 0x0D]"]
    by (simp add: sublist_CRLF_Cons)
  show "getCompleteLines ((''ping'' @ [CHR 0x0D]) @ [CHR 0x0A, CHR ''x'']) = ([''ping''], ''x'')"
    using getCompleteLines_unlines [of "[''ping'']" "''x''"]
    by (simp add: sublist_CRLF_Cons) (simp add: CRLF_def)
qed


section \<open>Commands\<close>

text \<open>
  Commands are told apart by a hash alone. The line \<open>Ojng\<close> is no command, but its hash is that of
  \<open>ping\<close>: it is answered \<open>pong\<close> and counted as a success.
\<close>

theorem Ojng_is_ping:
  "TelnetMessageCallback E p ''Ojng'' x =
     (True, sendLine E p ''pong''
        (sendLine E p ''Ojng'' (on_wrld (emit (Log trace ''Received message Ojng'')) x)))"
  by (simp add: TelnetMessageCallback_def char_sz_def)

text \<open>
  Every line handed to the callback is counted once, as a success or as a failure, and
  processing the lines leaves the rest of the buffer alone.
\<close>

theorem lines_counted_once:
  "successCmdCtr (stats (sess (process_lines E (shipped_cfg p) ls x))) +
     failCmdCtr (stats (sess (process_lines E (shipped_cfg p) ls x))) =
     successCmdCtr (stats (sess x)) + failCmdCtr (stats (sess x)) + of_nat (length ls) \<and>
   m_buffer (sess (process_lines E (shipped_cfg p) ls x)) = m_buffer (sess x)"
  unfolding shipped_cfg_def
  by (rule conjI [OF shipped.process_lines_counted shipped.process_lines_buffer])

text \<open>
  A plain line that arrives in one read on an idle session runs the callback once, on exactly
  that line; it is counted and appended to the history.
\<close>

theorem line_runs_command:
  assumes "e_recv E (calls (wrld x)) (m_socket (sess x)) = RecvData (l @ CRLF)"
    and "plain_line l" and "length l < 2 ^ 62" and "m_buffer (sess x) = []"
  shows "session_update E (shipped_cfg p) x =
     (let (ok, y) = TelnetMessageCallback E p l (line_received E (l @ CRLF) x)
      in Inr (on_sess (addToHistory l) (on_sess (count_command ok) y)))"
  using session_update_line [OF assms, of "shipped_cfg p"]
  by (simp add: shipped_cfg_def split: prod.split)

lemma line_runs_command_witness:
  "(let E = sample_env (\<lambda>_. RecvData (''ping'' @ CRLF)) 0;
        x = \<lparr>sess = new_session 5, wrld = fresh_world\<rparr>
    in session_update E (shipped_cfg ''> '') x =
     (let (ok, y) = TelnetMessageCallback E ''> '' ''ping'' (line_received E (''ping'' @ CRLF) x)
      in Inr (on_sess (addToHistory ''ping'') (on_sess (count_command ok) y))))"
  unfolding Let_def [of "sample_env _ _"] Let_def [of "ctx.make _ _"]
  by (unfold Let_def [of "\<lparr>sess = _, wrld = _\<rparr>"], rule line_runs_command)
    (simp_all add: plain_line_def new_session_def)

text \<open>
  C21. \<open>quit\<close> ends the connection in the round that reads it, whatever the statistics and the other
  state of the session, as long as the clock is more than two minutes past the epoch.
\<close>

theorem quit_closes:
  assumes recv: "e_recv E (calls w) (m_socket s) = RecvData (''quit'' @ CRLF)"
    and empty: "m_buffer s = []" and ok: "history_ok s" and clock: "\<And>cs. e_clock E cs \<ge> 121000000000"
  shows "\<exists>t w' cs. update_one E (shipped_cfg p) st s w = Inr (True, t, w') \<and>
    calls w' = calls w @ cs \<and> closes cs = [m_socket s]"
proof -
  let ?x = "\<lparr>sess = s, wrld = w\<rparr>"
  have plain: "plain_line ''quit''" by (simp add: plain_line_def)
  obtain y where y: "session_update E (shipped_cfg p) ?x = Inr y" and last: "lastSeenTime (sess y) = 0"
  proof
    let ?r = "line_received E (''quit'' @ CRLF) ?x"
    show "session_update E (shipped_cfg p) ?x = Inr (process_lines E (shipped_cfg p) [''quit''] ?r)"
      by (rule session_update_line) (use recv empty plain in simp_all)
    show "lastSeenTime (sess (process_lines E (shipped_cfg p) [''quit''] ?r)) = 0"
      by (simp add: shipped_cfg_def quit_marks c_str_def addToHistory_def count_command_def
          markTimeout_def Let_def)
  qed
  have "timed_out (e_clock E cs) (sess y)" for cs
    using clock [of cs] last by (simp add: timed_out_def seconds_def trunc_div_def TELNET_TIMEOUT_def)
  then have "fst (checkTimeout E y)" by (simp add: checkTimeout_def read_clock_def Let_def)
  with y have expired: "\<exists>t w'. update_one E (shipped_cfg p) st s w = Inr (True, t, w')"
    by (auto simp: update_one_def Let_def split: prod.splits)
  from ok show ?thesis
  proof (cases rule: shipped.update_one_cases [where E = E and p = p and st = st and w = w])
    case past
    with expired show ?thesis by (simp add: shipped_cfg_def)
  next
    case (fine e t w' cs)
    with expired recv show ?thesis by (auto simp: shipped_cfg_def)
  qed
qed

lemma quit_closes_witness:
  "\<exists>t w' cs. update_one (sample_env (\<lambda>_. RecvData (''quit'' @ CRLF)) 200000000000) (shipped_cfg ''> '') None
      (new_session 5) fresh_world = Inr (True, t, w') \<and> calls w' = calls fresh_world @ cs \<and> closes cs = [5]"
  using quit_closes [of "sample_env (\<lambda>_. RecvData (''quit'' @ CRLF)) 200000000000" fresh_world
      "new_session 5" "''> ''" None]
  by (simp add: new_session_def) (simp add: history_ok_def TELNET_HISTORY_LIMIT_def)

section \<open>One session\<close>

lemma session_update_contract_ok:
  "history_ok (sess x) \<Longrightarrow> session_update E (shipped_cfg p) x = Inr y \<Longrightarrow> history_ok (sess y)"
  unfolding shipped_cfg_def
  by (erule shipped.session_update_cases [where E = E and p = p]) simp_all

text \<open>
  C2. One update of a session with the callbacks of the program. It leaves the C++ standard exactly
  when an arrow down moves the history cursor past the end. Otherwise it touches no socket but
  its own, keeps the history well formed, and the upload count is the number of bytes its sends
  reported.
\<close>

theorem session_update_contract:
  assumes "history_ok (sess x)"
  shows "case session_update E (shipped_cfg p) x of
      Inl e \<Rightarrow> e = PastEndIterator \<and> update_faults E p (sess x) (wrld x)
    | Inr y \<Rightarrow> \<not> update_faults E p (sess x) (wrld x) \<and> history_ok (sess y) \<and>
        m_socket (sess y) = m_socket (sess x) \<and>
        (\<exists>cs. calls (wrld y) = calls (wrld x) @ cs \<and> only_sock (m_socket (sess x)) cs \<and>
           uploadBytes (stats (sess y)) = of_int (sent_bytes cs))"
  using assms
proof (cases rule: shipped.session_update_cases [where E = E and p = p])
  case (past data)
  then show ?thesis by (simp add: shipped_cfg_def update_faults_def)
next
  case (fine y cs)
  then show ?thesis
    by (auto simp: shipped_cfg_def update_faults_def split: recv_result.splits)
qed

lemma session_update_contract_witness:
  "case session_update (sample_env (\<lambda>_. RecvAgain) 0) (shipped_cfg ''> '')
      \<lparr>sess = new_session 5, wrld = fresh_world\<rparr> of
      Inl e \<Rightarrow> False | Inr y \<Rightarrow> m_socket (sess y) = 5"
  using session_update_contract [of "\<lparr>sess = new_session 5, wrld = fresh_world\<rparr>"
      "sample_env (\<lambda>_. RecvAgain) 0" "''> ''"]
  by (simp add: update_faults_def split: sum.splits)

text \<open>
  C34. Arrow down right after a command is undefined behaviour: once a client at an interactive prompt
  has sent a plain, non-empty line, the next read that holds just the arrow down sequence makes
  the server move the history iterator past the end of the list.
\<close>

theorem arrow_down_after_command:
  assumes line: "plain_line l" "l \<noteq> []" "length l < 2 ^ 62" and ok: "history_ok (sess x)"
    and idle: "m_buffer (sess x) = []" and prompt: "interactivePrompt p"
    and first: "e_recv E (calls (wrld x)) (m_socket (sess x)) = RecvData (l @ CRLF)"
    and upd: "session_update E (shipped_cfg p) x = Inr y"
    and then_down: "e_recv E (calls (wrld y)) (m_socket (sess y)) = RecvData ANSI_ARROW_DOWN"
  shows "session_update E (shipped_cfg p) y = Inl PastEndIterator"
proof -
  let ?r = "line_received E (l @ CRLF) x"
  have y: "y = process_lines E (shipped_cfg p) [l] ?r"
    using session_update_line [OF first line(1,3) idle, of "shipped_cfg p"] upd by simp
  have buf: "m_buffer (sess y) = []"
    unfolding y shipped_cfg_def shipped.process_lines_buffer by (simp add: line_received_def Let_def)
  have hist: "m_history (sess y) \<noteq> []" "m_historyCursor (sess y) = length (m_history (sess y))"
    using line(2) unfolding y
    by (auto simp: shipped_cfg_def addToHistory_def Let_def TELNET_HISTORY_LIMIT_def tl_append
        split: prod.splits list.splits)
  have "received_buffer (sess y) ANSI_ARROW_DOWN = ANSI_ARROW_DOWN"
    using stripNVT_eq_nvt_filter [of ANSI_ARROW_DOWN]
    by (simp add: received_buffer_def buf replace_nulls_def fits_def eval_simps)
  moreover have "\<not> str_contains ANSI_ARROW_UP ANSI_ARROW_DOWN" "str_contains ANSI_ARROW_DOWN ANSI_ARROW_DOWN"
    by (simp_all add: str_contains_def eval_simps)
  ultimately have faults: "update_faults E p (sess y) (wrld y)"
    using then_down hist prompt by (simp add: update_faults_def down_past_end_def) (simp add: eval_simps)
  from session_update_contract_ok [OF ok upd] show ?thesis
    by (cases rule: shipped.session_update_cases [where E = E and p = p])
      (use faults in \<open>auto simp: shipped_cfg_def update_faults_def split: recv_result.splits\<close>)
qed

lemma arrow_down_after_command_witness:
  "\<exists>y. session_update (sample_env (\<lambda>cs. if cs = [] then RecvData (''ping'' @ CRLF)
        else RecvData ANSI_ARROW_DOWN) 0) (shipped_cfg ''> '') y = Inl PastEndIterator"
proof -
  let ?E = "sample_env (\<lambda>cs. if cs = [] then RecvData (''ping'' @ CRLF) else RecvData ANSI_ARROW_DOWN) 0"
  let ?x = "\<lparr>sess = new_session 5, wrld = fresh_world\<rparr>"
  have plain: "plain_line ''ping''" by (simp add: plain_line_def)
  have idle: "m_buffer (new_session 5) = []" by (simp add: new_session_def)
  let ?r = "line_received ?E (''ping'' @ CRLF) ?x"
  let ?y = "process_lines ?E (shipped_cfg ''> '') [''ping''] ?r"
  have y: "session_update ?E (shipped_cfg ''> '') ?x = Inr ?y"
    by (rule session_update_line) (use plain idle in simp_all)
  have "accounted (on_wrld (emit (Recv 5 DEFAULT_BUFLEN 6)) (on_sess reset_stats ?x)) ?r"
    using accounted_comp [OF accounted_set_buffer receive_start_simps(3)]
    by (simp add: line_received_def Let_def reset_stats_def CRLF_def)
  then have "accounted (on_wrld (emit (Recv 5 DEFAULT_BUFLEN 6)) (on_sess reset_stats ?x)) ?y"
    unfolding shipped_cfg_def by (rule accounted_trans) (rule shipped.process_lines_accounted)
  then have "calls (wrld ?y) \<noteq> []" by (auto simp: accounted_def)
  have "session_update ?E (shipped_cfg ''> '') ?y = Inl PastEndIterator"
    by (rule arrow_down_after_command [where l = "''ping''" and x = ?x])
      (use plain idle y \<open>calls (wrld ?y) \<noteq> []\<close> in \<open>simp_all add: interactivePrompt_def\<close>)
  then show ?thesis ..
qed

section \<open>The server\<close>

text \<open>
  C9. The loop of \<open>update\<close>, which erases expired sessions while it counts up and steps its unsigned
  index back through the largest \<open>size_t\<close>, handles every session of the vector exactly once, in
  order, and keeps those that did not expire.
\<close>

theorem update_loop_is_pass:
  assumes "length ss < 2 ^ 64"
  shows "update_sessions E cfg st 0 ss w = update_each E cfg st ss w"
  using update_sessions_each [of ss E cfg st w] assms by (simp add: bind_sum_def split: sum.split)

lemma update_loop_is_pass_witness:
  "update_sessions (sample_env (\<lambda>_. RecvAgain) 200000000000) (shipped_cfg ''> '') None 0
      [new_session 5, new_session 6] fresh_world =
    update_each (sample_env (\<lambda>_. RecvAgain) 200000000000) (shipped_cfg ''> '') None
      [new_session 5, new_session 6] fresh_world"
  by (rule update_loop_is_pass) simp


lemma sample_initialise:
  "\<exists>srv w. server_initialise (sample_env r t) 23 None ''> '' False [] shipped_server fresh_world = Inr (True, srv, w)"
  by (simp add: server_initialise_def shipped_server_def new_server_def Let_def INVALID_SOCKET_def)


text \<open>
  C5. A round of an initialised server whose listening descriptor \<open>FD_SET\<close> takes ends with a well-formed
  server, or the client of some session moved the history past its end; nothing else goes wrong
  and no loop runs for ever.
\<close>

theorem server_round_total:
  assumes "server_ok TelnetConnectedCallback TelnetMessageCallback TelnetTabCallback srv"
    and "m_initialised srv" and "listen_in_range srv"
  shows "case server_update E srv w of
      Inl e \<Rightarrow> e = PastEndIterator
    | Inr (srv', w') \<Rightarrow> m_initialised srv' \<and> vCheckFlag w' = vCheckFlag w \<and>
        server_ok TelnetConnectedCallback TelnetMessageCallback TelnetTabCallback srv'"
proof (cases "server_update E srv w")
  case (Inl e)
  with shipped.server_update_Inl [OF Inl assms] show ?thesis by simp
next
  case (Inr r)
  obtain srv' w' where "r = (srv', w')" by (cases r)
  with Inr shipped.server_update_Inr [OF _ assms(1,2)] show ?thesis by simp
qed

lemma server_round_total_witness:
  "case server_update (sample_env (\<lambda>_. RecvAgain) 0)
      (shipped_server\<lparr>m_initialised := True, m_serverThread := True, m_listenSocket := 3\<rparr>) fresh_world of
    Inl e \<Rightarrow> e = PastEndIterator | Inr (srv', w') \<Rightarrow> m_initialised srv'"
proof -
  let ?srv = "shipped_server\<lparr>m_initialised := True, m_serverThread := True, m_listenSocket := 3\<rparr>"
  have "server_ok TelnetConnectedCallback TelnetMessageCallback TelnetTabCallback ?srv" "m_initialised ?srv"
    "listen_in_range ?srv"
    by (simp_all add: server_ok_def shipped_server_def new_server_def shipped_cfg_def listen_in_range_def
        INVALID_SOCKET_def FD_SETSIZE_def)
  from server_round_total [OF this, where E = "sample_env (\<lambda>_. RecvAgain) 0" and w = fresh_world] show ?thesis
    by (auto split: sum.splits)
qed




definition full_server :: telnet_server where
  "full_server = shipped_server\<lparr>m_initialised := True, m_serverThread := True, m_listenSocket := 3,
     m_sessions := map new_session [4, 5, 6, 7, 8]\<rparr>"


text \<open>
  A session whose receive fails is closed but not dropped: its descriptor is closed at once, the
  session keeps it, and closes it a second time when it expires.
\<close>

theorem recv_error_closes_twice:
  assumes "history_ok s" and "e_recv E (calls w) (m_socket s) = RecvError"
    and "update_one E (shipped_cfg p) st s w = Inr (expired, t, w')"
  shows "m_socket t = m_socket s \<and>
    (\<exists>cs. calls w' = calls w @ cs \<and> closes cs = m_socket s # (if expired then [m_socket s] else []))"
  using assms(1)
proof (cases rule: shipped.update_one_cases [where E = E and p = p and st = st and w = w])
  case past
  then show ?thesis using assms(3) by (simp add: shipped_cfg_def)
next
  case (fine e u v cs)
  then show ?thesis using assms(2,3) by (auto simp: shipped_cfg_def)
qed

lemma recv_error_closes_twice_witness:
  "\<exists>t w. update_one (sample_env (\<lambda>_. RecvError) 200000000000) (shipped_cfg ''> '') None (new_session 5) fresh_world =
     Inr (True, t, w) \<and> closes (calls w) = [5, 5]"
proof -
  let ?E = "sample_env (\<lambda>_. RecvError) 200000000000"
  obtain t w where r: "update_one ?E (shipped_cfg ''> '') None (new_session 5) fresh_world = Inr (True, t, w)"
    by (simp add: update_one_def session_update_def Let_def checkTimeout_def read_clock_def timed_out_def
        seconds_def trunc_div_def TELNET_TIMEOUT_def new_session_def reset_stats_def)
  from recv_error_closes_twice [OF history_ok_new _ this] r show ?thesis by auto
qed

text \<open>
  After a failed \<open>bind\<close> the object keeps the descriptor it has just closed, and \<open>shutdown\<close> (which the
  destructor runs) closes that number again.
\<close>

theorem failed_bind_closes_twice:
  assumes "\<not> m_initialised srv" and "m_sessions srv = []" and "e_socket E cs \<noteq> - 1"
    and "cs = calls w @ [GetAddrInfo (dec_of_nat (unat port)) 0]"
    and "e_getaddrinfo E (calls w) (dec_of_nat (unat port)) = 0"
    and "\<And>cs s. e_setsockopt E cs s = 0" and "\<And>cs s. e_bind E cs s = - 1"
    and "server_initialise E port flag prompt reg name srv w = Inr (ok, srv', w')"
  shows "\<not> ok \<and> closes (calls (snd (server_shutdown E srv' w'))) =
     closes (calls w) @ [e_socket E cs, e_socket E cs]"
  using assms
  by (auto simp: server_initialise_def server_shutdown_def close_sessions_def INVALID_SOCKET_def Let_def)

definition bind_fails :: env where
  "bind_fails = (sample_env (\<lambda>_. RecvAgain) 0)\<lparr>e_bind := (\<lambda>_ _. - 1)\<rparr>"

lemma failed_bind_closes_twice_witness:
  "\<exists>srv w. server_initialise bind_fails 23 None ''> '' False [] shipped_server fresh_world = Inr (False, srv, w) \<and>
     closes (calls (snd (server_shutdown bind_fails srv w))) = [3, 3]"
proof -
  have env: "e_setsockopt bind_fails cs s = 0" "e_bind bind_fails cs s = - 1" "e_socket bind_fails cs = 3"
    "e_getaddrinfo bind_fails cs q = 0" for cs s q
    by (simp_all add: bind_fails_def sample_env_def)
  obtain srv w where i: "server_initialise bind_fails 23 None ''> '' False [] shipped_server fresh_world = Inr (False, srv, w)"
    by (simp add: server_initialise_def shipped_server_def new_server_def Let_def INVALID_SOCKET_def env)
  from failed_bind_closes_twice [OF _ _ _ refl _ _ _ this] i show ?thesis
    by (simp add: env shipped_server_def new_server_def)
qed

section \<open>Statistics\<close>

lemma server_stats_gauge:
  "gauge_of (ts_name ts @ ''active_connections'') (calls (consumeServerStats E ts st w)) =
     dbl (uint (activeConnectionCtr st))"
  by (simp add: consumeServerStats_def consumeBaseStats_def Let_def)

text \<open>
  C28. After every round of a server with statistics the gauge \<open>active_connections\<close> holds the number of
  its sessions.
\<close>

theorem active_connections_gauge:
  assumes "server_ok TelnetConnectedCallback TelnetMessageCallback TelnetTabCallback srv"
    and "m_initialised srv" and "m_stats srv = Some ts"
    and upd: "server_update E srv w = Inr (srv', w')"
  shows "gauge_of (ts_name ts @ ''active_connections'') (calls w') = int (length (m_sessions srv'))"
proof -
  have ok: "server_ok TelnetConnectedCallback TelnetMessageCallback TelnetTabCallback srv'"
    and "\<exists>sessions. srv' = srv\<lparr>m_sessions := sessions\<rparr>"
    using shipped.server_update_Inr [OF upd assms(1,2)] by blast+
  then have len: "length (m_sessions srv') \<le> 5" and st: "m_stats srv' = Some ts"
    using assms(3) by (auto simp: server_ok_def MAX_AVAILABLE_SESSION_def)
  obtain a r v start where "w' = sessions_stats E srv' a r start v"
    using upd by (auto simp: server_update_eq split: if_splits prod.splits)
  then have "gauge_of (ts_name ts @ ''active_connections'') (calls w') =
      dbl (uint (sz_length (m_sessions srv') :: u64))"
    using st by (simp add: sessions_stats_def read_clock_def Let_def server_stats_gauge)
  moreover have "uint (sz_length (m_sessions srv') :: u64) = int (length (m_sessions srv'))"
    using len unat_sz_length [of "m_sessions srv'"] by (simp add: uint_nat)
  ultimately show ?thesis using len by (simp add: dbl_exact)
qed

lemma active_connections_gauge_witness:
  "case server_update (sample_env (\<lambda>_. RecvAgain) 0) (full_server\<lparr>m_stats := Some \<lparr>ts_name = ''telnet_''\<rparr>\<rparr>)
      fresh_world of
    Inl e \<Rightarrow> True
  | Inr (srv', w') \<Rightarrow> gauge_of ''telnet_active_connections'' (calls w') = int (length (m_sessions srv'))"
proof -
  let ?srv = "full_server\<lparr>m_stats := Some \<lparr>ts_name = ''telnet_''\<rparr>\<rparr>"
  have "server_ok TelnetConnectedCallback TelnetMessageCallback TelnetTabCallback ?srv" "m_initialised ?srv"
    "m_stats ?srv = Some \<lparr>ts_name = ''telnet_''\<rparr>"
    by (simp_all add: full_server_def server_ok_def shipped_server_def new_server_def shipped_cfg_def
        INVALID_SOCKET_def MAX_AVAILABLE_SESSION_def)
  from active_connections_gauge [OF this] show ?thesis by (auto split: sum.splits)
qed

text \<open>
  The pair of duration gauges, over any run of closed sessions: the minimum gauge ends as the smallest
  of its value before and the durations reported, the maximum gauge as the largest.
\<close>

theorem duration_gauges_range:
  assumes "gauge_law E"
  shows "gauge_of (name @ ''minimum_session_duration'') (calls (fold (consume_duration E name) vs w)) =
      Min (insert (gauge_of (name @ ''minimum_session_duration'') (calls w)) (set vs)) \<and>
    gauge_of (name @ ''maximum_session_duration'') (calls (fold (consume_duration E name) vs w)) =
      Max (insert (gauge_of (name @ ''maximum_session_duration'') (calls w)) (set vs))"
  using duration.range [OF assms, of name vs w] by simp

lemma duration_gauges_range_witness:
  "gauge_of ''telnet_maximum_session_duration''
     (calls (fold (consume_duration (sample_env (\<lambda>_. RecvAgain) 0) ''telnet_'') [30, 7] fresh_world)) = 30"
  using duration_gauges_range [OF sample_gauge_law [of "\<lambda>_. RecvAgain" 0], of "''telnet_''" "[30, 7]" fresh_world]
  by simp

text \<open>
  The processing time gauges take in positive times only: the minimum and the maximum over any run
  of reports are those of the value before and the positive times, while the three command
  counters grow with every report, received by the sum of the other two.
\<close>

theorem base_stats_report:
  assumes "gauge_law E"
  shows "gauge_of (name @ ''minimum_processing_time'') (calls (fold (consumeBaseStats E name ok bad) vs w)) =
      Min (insert (gauge_of (name @ ''minimum_processing_time'') (calls w)) (set (filter (\<lambda>v. 0 < v) vs))) \<and>
    gauge_of (name @ ''maximum_processing_time'') (calls (fold (consumeBaseStats E name ok bad) vs w)) =
      Max (insert (gauge_of (name @ ''maximum_processing_time'') (calls w)) (set (filter (\<lambda>v. 0 < v) vs))) \<and>
    counter_of (name @ ''received_commands'') (calls (consumeBaseStats E name ok bad v w)) =
      counter_of (name @ ''received_commands'') (calls w) + dbl (uint (ok + bad))"
  using base.range [OF assms, of name ok bad vs w] consumeBaseStats_counters(3) by simp

lemma base_stats_report_witness:
  "gauge_of ''telnet_minimum_processing_time'' (calls (fold (consumeBaseStats (sample_env (\<lambda>_. RecvAgain) 0) ''telnet_'' 1 0)
      [40, 25, 0] (metric (GaugeSet ''telnet_minimum_processing_time'' INT_MAX) fresh_world))) = 25"
  using base_stats_report [OF sample_gauge_law [of "\<lambda>_. RecvAgain" 0], of "''telnet_''" 1 0 "[40, 25, 0]"
      "metric (GaugeSet ''telnet_minimum_processing_time'' INT_MAX) fresh_world"]
  by (simp add: INT_MAX_def gauge_of_def)

end
