(* ===== verification/Metrics.thy ===== *)
theory Metrics
  imports BaseStats
begin

text \<open>
  \<open>src/metrics\<close>: the registries of \<open>PrometheusServer\<close>, the event counters of \<open>StatusTracker\<close> with
  its guard \<open>TrackStatus\<close>, and the timer of \<open>PerformanceTracker\<close>. The locale \<open>registry_store\<close> is the
  contract of a table that numbers what it stores.
\<close>

section \<open>A table that numbers its entries\<close>

text \<open>
  The table as its users see it: a map to objects in which a creation adds an object that is not in
  it under an id that is neither in use nor reserved, and the reserved entry cannot be deleted.
\<close>

datatype 'i reg_op = Create | Delete 'i

inductive table_run :: "'i \<Rightarrow> ('i \<rightharpoonup> 'r) \<Rightarrow> 'i reg_op list \<Rightarrow> ('i \<rightharpoonup> 'r) \<Rightarrow> bool" for reserved m where
  start: "table_run reserved m [] m"
| create: "table_run reserved m ops m1 \<Longrightarrow> m1 i = None \<Longrightarrow> i \<noteq> reserved \<Longrightarrow> r \<notin> ran m1 \<Longrightarrow>
    table_run reserved m (ops @ [Create]) (m1(i \<mapsto> r))"
| delete: "table_run reserved m ops m1 \<Longrightarrow>
    table_run reserved m (ops @ [Delete i]) (if i = reserved then m1 else m1(i := None))"

lemma table_run_reserved: "table_run reserved m ops m1 \<Longrightarrow> m1 reserved = m reserved"
  by (induction rule: table_run.induct) auto

text \<open>No object is in the table under two ids.\<close>

lemma inj_on_dom_iff: "inj_on m (dom m) \<longleftrightarrow> (\<forall>a b v. m a = Some v \<longrightarrow> m b = Some v \<longrightarrow> a = b)"
  by (auto simp: inj_on_def dom_def)

lemma inj_on_dom_remove: "inj_on m (dom m) \<Longrightarrow> inj_on (m(i := None)) (dom (m(i := None)))"
  by (auto simp: inj_on_def)

lemma inj_on_dom_insert:
  assumes "inj_on m (dom m)" and "r \<notin> ran m"
  shows "inj_on (m(i \<mapsto> r)) (dom (m(i \<mapsto> r)))"
proof -
  have "m a \<noteq> Some r" for a using assms(2) by (simp add: ran_def)
  then show ?thesis using assms(1) unfolding inj_on_dom_iff by simp blast
qed

lemma table_run_inj: "table_run reserved m ops m1 \<Longrightarrow> inj_on m (dom m) \<Longrightarrow> inj_on m1 (dom m1)"
  by (induction rule: table_run.induct) (simp_all only: inj_on_dom_remove inj_on_dom_insert simp_thms split: if_split)

locale registry_store =
  fixes lookup :: "'s \<Rightarrow> 'i \<Rightarrow> 'r option"
    and create :: "'s \<Rightarrow> 'i \<times> 'r \<times> 's"
    and remove :: "'i \<Rightarrow> 's \<Rightarrow> bool \<times> 's"
    and inv :: "'s \<Rightarrow> bool"
    and room :: "'s \<Rightarrow> bool"
    and reserved :: 'i
  assumes create_inv: "inv s \<Longrightarrow> room s \<Longrightarrow> create s = (i, r, s') \<Longrightarrow> inv s'"
    and create_lookup: "inv s \<Longrightarrow> room s \<Longrightarrow> create s = (i, r, s') \<Longrightarrow>
        lookup s' = (lookup s)(i \<mapsto> r) \<and> lookup s i = None \<and> i \<noteq> reserved"
    and create_fresh: "inv s \<Longrightarrow> room s \<Longrightarrow> create s = (i, r, s') \<Longrightarrow> r \<notin> ran (lookup s)"
    and remove_inv: "inv s \<Longrightarrow> inv (snd (remove i s))"
    and remove_lookup: "inv s \<Longrightarrow>
        lookup (snd (remove i s)) = (if i = reserved then lookup s else (lookup s)(i := None))"
begin

lemma create_keeps:
  assumes "inv s" and "room s" and "create s = (i, r, s')" and "lookup s j = Some q"
  shows "j \<noteq> i" and "lookup s' j = Some q" and "lookup s' i = Some r"
  using create_lookup [OF assms(1-3)] assms(4) by auto

lemma create_remove:
  assumes "inv s" and "room s" and "create s = (i, r, s')"
  shows "lookup (snd (remove i s')) = lookup s"
  using remove_lookup [OF create_inv [OF assms], of i] create_lookup [OF assms] by (auto simp: fun_eq_iff)

text \<open>One operation on the store is one operation on the table.\<close>

lemma op_refines:
  assumes "inv s" and "room s" and "table_run reserved m ops (lookup s)"
    and "s' = (case op of Create \<Rightarrow> snd (snd (create s)) | Delete i \<Rightarrow> snd (remove i s))"
  shows "table_run reserved m (ops @ [op]) (lookup s') \<and> inv s'"
proof (cases op)
  case Create
  obtain i r q where c: "create s = (i, r, q)" by (cases "create s")
  with assms(4) Create have "s' = q" by simp
  with c create_lookup [OF assms(1,2) c] create_fresh [OF assms(1,2) c] create_inv [OF assms(1,2) c]
  show ?thesis using table_run.create [OF assms(3), of i r] Create by simp
next
  case (Delete i)
  then show ?thesis
    using table_run.delete [OF assms(3), of i] remove_lookup [OF assms(1), of i] remove_inv [OF assms(1), of i] assms(4)
    by simp
qed

end

section \<open>\<open>PrometheusServer\<close>\<close>

text \<open>
  A registry is a fresh object, named by the number of objects made before it. \<open>exposed\<close> are the
  registries the exposer was told to collect.
\<close>

record prometheus_server =
  vRegister :: "(u64 \<times> nat) list"
  exposed :: "nat list"
  made :: nat

text \<open>
  The exposer of prometheus-cpp is a parameter: for an address, the text of the exception its
  constructor throws, or none. \<open>project\<close> and \<open>revision\<close> are \<open>PROJECT_NAME\<close> and
  \<open>PROJECT_FULL_REVISION\<close>.
\<close>

definition PrometheusServer ::
    "env \<Rightarrow> (string \<Rightarrow> string option) \<Rightarrow> string \<Rightarrow> string \<Rightarrow> string \<Rightarrow> world
     \<Rightarrow> (string + prometheus_server) \<times> world" where
  "PrometheusServer E exposer project revision serverAddr w =
     (case exposer serverAddr of
        Some e \<Rightarrow> (Inl e, w)
      | None \<Rightarrow>
          (let w = metric (Register KInfo project (project @ '' information'')) w;
               w = metric (InfoAdd project [(''init_time'', e_time_iso E (calls w))]) w;
               w = metric (InfoAdd project [(''version'', revision)]) w
           in (Inr \<lparr>vRegister = [(- 1, 0)], exposed = [0], made = 1\<rparr>, w)))"

lemma PrometheusServer_Inr:
  "PrometheusServer E exposer project revision addr w = (Inr ps, w') \<longleftrightarrow>
     exposer addr = None \<and> ps = \<lparr>vRegister = [(- 1, 0)], exposed = [0], made = 1\<rparr> \<and>
     w' = emits (map Metric [Register KInfo project (project @ '' information''),
       InfoAdd project [(''init_time'', e_time_iso E (calls w @ [Metric (Register KInfo project (project @ '' information''))]))],
       InfoAdd project [(''version'', revision)]]) w"
  by (auto simp: PrometheusServer_def metric_def emit_emits Let_def split: option.splits)

definition getRegistry :: "prometheus_server \<Rightarrow> u64 \<Rightarrow> nat option" where
  "getRegistry ps regId = map_option snd (find (\<lambda>val. regId = fst val) (vRegister ps))"

definition createNewRegistry :: "prometheus_server \<Rightarrow> u64 \<times> nat \<times> prometheus_server" where
  "createNewRegistry ps =
     (let reg = made ps;
          regId = fst (last (vRegister ps)) + 1
      in (regId, reg,
          \<lparr>vRegister = vRegister ps @ [(fst (last (vRegister ps)) + 1, reg)],
           exposed = exposed ps @ [reg], made = Suc reg\<rparr>))"

definition deleteRegistry :: "u64 \<Rightarrow> prometheus_server \<Rightarrow> bool \<times> prometheus_server" where
  "deleteRegistry regId ps =
     (if regId = - 1 then (False, ps)
      else (True, ps\<lparr>vRegister := filter (\<lambda>val. regId \<noteq> fst val) (vRegister ps)\<rparr>))"

text \<open>
  The information registry stays first, under the largest id; the others are in increasing
  order, and none has an id as large as the number of registries made, nor is any of them yet to
  be made.
\<close>

definition registries_ok :: "prometheus_server \<Rightarrow> bool" where
  "registries_ok ps \<longleftrightarrow>
     (\<exists>r rest. vRegister ps = (- 1, r) # rest \<and>
        sorted_wrt (\<lambda>a b. unat (fst a) < unat (fst b)) rest \<and>
        (\<forall>a \<in> set rest. unat (fst a) + 1 < made ps \<and> fst a \<noteq> - 1)) \<and> 0 < made ps \<and>
     (\<forall>a \<in> set (vRegister ps). snd a < made ps)"

definition registries_room :: "prometheus_server \<Rightarrow> bool" where
  "registries_room ps \<longleftrightarrow> made ps < 2 ^ 64"

lemma unat_max_word: "unat (- 1 :: u64) = 2 ^ 64 - 1"
  by (simp add: unsigned_minus_1_eq_mask mask_eq_exp_minus_1)

lemma registries_last:
  assumes "registries_ok ps" and "registries_room ps"
  shows "unat (fst (last (vRegister ps)) + 1) < made ps" and "fst (last (vRegister ps)) + 1 \<noteq> - 1"
    and "\<forall>a \<in> set (tl (vRegister ps)). unat (fst a) < unat (fst (last (vRegister ps)) + 1)"
proof -
  obtain r rest where v: "vRegister ps = (- 1, r) # rest"
    "sorted_wrt (\<lambda>a b. unat (fst a) < unat (fst b)) rest"
    "\<forall>a \<in> set rest. unat (fst a) + 1 < made ps \<and> fst a \<noteq> - 1" "0 < made ps"
    using assms(1) by (auto simp: registries_ok_def)
  have bound: "made ps < 2 ^ 64" using assms(2) by (simp add: registries_room_def)
  have "unat (fst (last (vRegister ps)) + 1) < made ps \<and> fst (last (vRegister ps)) + 1 \<noteq> - 1 \<and>
     (\<forall>a \<in> set rest. unat (fst a) < unat (fst (last (vRegister ps)) + 1))"
  proof (cases rest rule: rev_cases)
    case Nil
    then show ?thesis using v by simp
  next
    case (snoc ys y)
    then have y: "unat (fst y) + 1 < made ps" "last (vRegister ps) = y" using v by auto
    have u: "unat (fst y + 1) = unat (fst y) + 1"
      using y(1) bound by (simp add: unat_word_ariths(1))
    have "unat (fst y + 1) < 2 ^ 64 - 1" unfolding u using y(1) bound by linarith
    then have "fst y + 1 \<noteq> - 1" using unat_max_word by (metis less_irrefl)
    with u y v snoc show ?thesis
      by (auto simp: sorted_wrt_append)
  qed
  then show "unat (fst (last (vRegister ps)) + 1) < made ps" and "fst (last (vRegister ps)) + 1 \<noteq> - 1"
    and "\<forall>a \<in> set (tl (vRegister ps)). unat (fst a) < unat (fst (last (vRegister ps)) + 1)"
    using v by auto
qed

lemma find_append_new:
  "find P (xs @ [x]) = (case find P xs of None \<Rightarrow> (if P x then Some x else None) | Some y \<Rightarrow> Some y)"
  by (induction xs) auto

lemma find_filter: "find P (filter Q xs) = find (\<lambda>x. P x \<and> Q x) xs"
  by (induction xs) auto

lemma find_cong_all: "(\<And>x. x \<in> set xs \<Longrightarrow> P x = Q x) \<Longrightarrow> find P xs = find Q xs"
  by (induction xs) auto

interpretation registries: registry_store getRegistry createNewRegistry deleteRegistry
  registries_ok registries_room "- 1"
proof
  fix s s' :: prometheus_server and i :: u64 and r :: nat
  assume inv: "registries_ok s" and room: "registries_room s" and c: "createNewRegistry s = (i, r, s')"
  note l = registries_last [OF inv room]
  obtain q rest where v: "vRegister s = (- 1, q) # rest" "sorted_wrt (\<lambda>a b. unat (fst a) < unat (fst b)) rest"
    "\<forall>a \<in> set rest. unat (fst a) + 1 < made s \<and> fst a \<noteq> - 1" "0 < made s"
    using inv by (auto simp: registries_ok_def)
  have old: "\<forall>a \<in> set (vRegister s). snd a < made s" using inv by (simp add: registries_ok_def)
  have i: "i = fst (last (vRegister s)) + 1" "r = made s" "made s' = Suc (made s)"
    "vRegister s' = vRegister s @ [(i, r)]"
    using c by (auto simp: createNewRegistry_def Let_def)
  show "registries_ok s'"
    unfolding registries_ok_def i(3,4) v(1)
    using l v i old by (auto simp: sorted_wrt_append less_Suc_eq intro!: exI [of _ q] exI [of _ "rest @ [(i, r)]"])
  have "a \<in> set (vRegister s)" if "find P (vRegister s) = Some a" for P a
    using that by (auto simp: find_Some_iff)
  then show "r \<notin> ran (getRegistry s)"
    using old i(2) by (fastforce simp: ran_def getRegistry_def)
  have fresh: "\<forall>a \<in> set (vRegister s). fst a \<noteq> i"
    using l i v by auto
  then have none: "find (\<lambda>val. i = fst val) (vRegister s) = None"
    by (auto simp: find_None_iff)
  then show "getRegistry s' = (getRegistry s)(i \<mapsto> r) \<and> getRegistry s i = None \<and> i \<noteq> - 1"
    using l i by (auto simp: getRegistry_def fun_eq_iff find_append_new split: option.splits)
next
  fix s :: prometheus_server and i :: u64
  assume inv: "registries_ok s"
  then show "registries_ok (snd (deleteRegistry i s))"
    by (auto simp: registries_ok_def deleteRegistry_def sorted_wrt_filter)
  have "getRegistry (snd (deleteRegistry i s)) j = ((getRegistry s)(i := None)) j" if "i \<noteq> - 1" for j
  proof (cases "j = i")
    case True
    have "find (\<lambda>x. i = fst x \<and> i \<noteq> fst x) (vRegister s) = None" by (simp add: find_None_iff)
    with True that show ?thesis by (simp add: deleteRegistry_def getRegistry_def find_filter)
  next
    case False
    have "find (\<lambda>x. j = fst x \<and> i \<noteq> fst x) (vRegister s) = find (\<lambda>x. j = fst x) (vRegister s)"
      by (rule find_cong_all) (use False in auto)
    with False that show ?thesis by (simp add: deleteRegistry_def getRegistry_def find_filter)
  qed
  then show "getRegistry (snd (deleteRegistry i s)) =
      (if i = - 1 then getRegistry s else (getRegistry s)(i := None))"
    by (auto simp: deleteRegistry_def)
qed

lemma registries_ok_start:
  "PrometheusServer E exposer project revision addr w = (Inr ps, w') \<Longrightarrow> registries_ok ps \<and> registries_room ps"
  by (auto simp: PrometheusServer_Inr registries_ok_def registries_room_def)

text \<open>A run of creations and deletions; at most one registry is made in each step.\<close>

definition reg_do :: "u64 reg_op \<Rightarrow> prometheus_server \<Rightarrow> prometheus_server" where
  "reg_do op ps = (case op of Create \<Rightarrow> snd (snd (createNewRegistry ps)) | Delete i \<Rightarrow> snd (deleteRegistry i ps))"

lemma reg_do_made: "made (reg_do op ps) \<le> Suc (made ps)"
  by (cases op) (simp_all add: reg_do_def createNewRegistry_def deleteRegistry_def Let_def)

lemma reg_run_refines:
  assumes "registries_ok ps" and "made ps + length ops \<le> 2 ^ 64"
  shows "table_run (- 1) (getRegistry ps) ops (getRegistry (fold reg_do ops ps)) \<and>
    registries_ok (fold reg_do ops ps) \<and> made (fold reg_do ops ps) \<le> made ps + length ops"
  using assms(2)
proof (induction ops rule: rev_induct)
  case Nil
  then show ?case using assms(1) by (simp add: table_run.start)
next
  case (snoc op ops)
  let ?s = "fold reg_do ops ps"
  from snoc have ih: "table_run (- 1) (getRegistry ps) ops (getRegistry ?s)" "registries_ok ?s"
    "made ?s \<le> made ps + length ops" by simp_all
  have "registries_room ?s" using ih(3) snoc.prems by (simp add: registries_room_def)
  from registries.op_refines [OF ih(2) this ih(1) reg_do_def [of op ?s]] show ?case
    using ih(3) reg_do_made [of op ?s] by simp
qed

section \<open>\<open>StatusTracker\<close>\<close>

definition status_metric :: "string \<Rightarrow> string \<Rightarrow> u64 \<Rightarrow> string" where
  "status_metric name kind metricID = name @ kind @ dec_of_nat (unat metricID)"

record status_tracker =
  activeCtr :: string
  totalCtr :: string
  successCtr :: string
  failedCtr :: string

definition StatusTracker :: "string \<Rightarrow> u64 \<Rightarrow> world \<Rightarrow> status_tracker \<times> world" where
  "StatusTracker name metricID w =
     (let st = \<lparr>activeCtr = status_metric name ''_active_event_ctr_'' metricID,
                totalCtr = status_metric name ''_total_event_ctr_'' metricID,
                successCtr = status_metric name ''_success_event_ctr_'' metricID,
                failedCtr = status_metric name ''_fail_event_ctr_'' metricID\<rparr>;
          w = metric (Register KGauge (activeCtr st) (''Currently active number of events of '' @ name)) w;
          w = metric (Register KCounter (totalCtr st) (''Total occurrences of '' @ name)) w;
          w = metric (Register KCounter (successCtr st) (''Successful events of '' @ name)) w;
          w = metric (Register KCounter (failedCtr st) (''Failed events of '' @ name)) w
      in (st, w))"

definition incrementActive :: "status_tracker \<Rightarrow> world \<Rightarrow> world" where
  "incrementActive st w = metric (GaugeIncrement (activeCtr st)) w"

definition decrementActive :: "status_tracker \<Rightarrow> world \<Rightarrow> world" where
  "decrementActive st w = metric (GaugeDecrement (activeCtr st)) w"

definition incrementSuccess :: "env \<Rightarrow> status_tracker \<Rightarrow> world \<Rightarrow> world" where
  "incrementSuccess E st w =
     (let w = metric (CounterIncrement (successCtr st) 1) w;
          w = metric (CounterIncrement (totalCtr st) 1) w
      in if e_gauge E (calls w) (activeCtr st) > 0
         then metric (GaugeDecrement (activeCtr st)) w else w)"

definition incrementFail :: "env \<Rightarrow> status_tracker \<Rightarrow> world \<Rightarrow> world" where
  "incrementFail E st w =
     (let w = metric (CounterIncrement (failedCtr st) 1) w;
          w = metric (CounterIncrement (totalCtr st) 1) w
      in if e_gauge E (calls w) (activeCtr st) > 0
         then metric (GaugeDecrement (activeCtr st)) w else w)"

text \<open>The guard \<open>TrackStatus\<close> around a block: the constructor, the block, the destructor.\<close>

definition TrackStatus :: "status_tracker \<Rightarrow> (world \<Rightarrow> world) \<Rightarrow> world \<Rightarrow> world" where
  "TrackStatus st block w = decrementActive st (block (incrementActive st w))"

definition distinct_metrics :: "status_tracker \<Rightarrow> bool" where
  "distinct_metrics st \<longleftrightarrow> distinct [totalCtr st, successCtr st, failedCtr st]"

lemma StatusTracker_distinct: "StatusTracker name i w = (st, w') \<Longrightarrow> distinct_metrics st"
  by (auto simp: StatusTracker_def Let_def distinct_metrics_def status_metric_def)

datatype status_event = Started | Succeeded | Failed

fun status_step :: "env \<Rightarrow> status_tracker \<Rightarrow> status_event \<Rightarrow> world \<Rightarrow> world" where
  "status_step E st Started w = incrementActive st w"
| "status_step E st Succeeded w = incrementSuccess E st w"
| "status_step E st Failed w = incrementFail E st w"

lemma status_step_counts:
  assumes "gauge_law E" and "distinct_metrics st"
  shows "counter_of (successCtr st) (calls (status_step E st e w)) =
      counter_of (successCtr st) (calls w) + of_bool (e = Succeeded)"
    and "counter_of (failedCtr st) (calls (status_step E st e w)) =
      counter_of (failedCtr st) (calls w) + of_bool (e = Failed)"
    and "counter_of (totalCtr st) (calls (status_step E st e w)) =
      counter_of (totalCtr st) (calls w) + of_bool (e = Succeeded) + of_bool (e = Failed)"
    and "gauge_of (activeCtr st) (calls (status_step E st e w)) =
      (if e = Started then gauge_of (activeCtr st) (calls w) + 1
       else if gauge_of (activeCtr st) (calls w) > 0 then gauge_of (activeCtr st) (calls w) - 1
       else gauge_of (activeCtr st) (calls w))"
proof -
  have ne: "successCtr st \<noteq> failedCtr st" "successCtr st \<noteq> totalCtr st" "failedCtr st \<noteq> totalCtr st"
    "failedCtr st \<noteq> successCtr st" "totalCtr st \<noteq> successCtr st" "totalCtr st \<noteq> failedCtr st"
    using assms(2) by (auto simp: distinct_metrics_def)
  note defs = incrementActive_def incrementSuccess_def incrementFail_def Let_def gauge_lawD [OF assms(1)]
  show "counter_of (successCtr st) (calls (status_step E st e w)) =
      counter_of (successCtr st) (calls w) + of_bool (e = Succeeded)"
    by (cases e) (simp_all add: defs ne)
  show "counter_of (failedCtr st) (calls (status_step E st e w)) =
      counter_of (failedCtr st) (calls w) + of_bool (e = Failed)"
    by (cases e) (simp_all add: defs ne)
  show "counter_of (totalCtr st) (calls (status_step E st e w)) =
      counter_of (totalCtr st) (calls w) + of_bool (e = Succeeded) + of_bool (e = Failed)"
    by (cases e) (simp_all add: defs ne)
  show "gauge_of (activeCtr st) (calls (status_step E st e w)) =
      (if e = Started then gauge_of (activeCtr st) (calls w) + 1
       else if gauge_of (activeCtr st) (calls w) > 0 then gauge_of (activeCtr st) (calls w) - 1
       else gauge_of (activeCtr st) (calls w))"
    by (cases e) (simp_all add: defs)
qed

lemma status_run:
  assumes "gauge_law E" and "distinct_metrics st" and "gauge_of (activeCtr st) (calls w) \<ge> 0"
  defines "run es \<equiv> fold (status_step E st) es w"
  shows "counter_of (totalCtr st) (calls (run es)) - counter_of (totalCtr st) (calls w) =
      (counter_of (successCtr st) (calls (run es)) - counter_of (successCtr st) (calls w)) +
      (counter_of (failedCtr st) (calls (run es)) - counter_of (failedCtr st) (calls w))"
    and "0 \<le> gauge_of (activeCtr st) (calls (run es))"
    and "gauge_of (activeCtr st) (calls (run es)) \<le>
      gauge_of (activeCtr st) (calls w) + int (count_list es Started)"
  unfolding run_def
  by (induction es rule: rev_induct)
    (use assms status_step_counts [OF assms(1,2)] in \<open>auto simp: fold_append\<close>)

section \<open>\<open>PerformanceTracker\<close>\<close>

record performance_tracker =
  startTime :: nanos
  perfTiming :: string
  maxTiming :: string
  minTiming :: string

definition PerformanceTracker :: "string \<Rightarrow> u64 \<Rightarrow> world \<Rightarrow> performance_tracker \<times> world" where
  "PerformanceTracker name metricID w =
     (let pt = \<lparr>startTime = 0, perfTiming = status_metric name ''_processing_time_'' metricID,
                maxTiming = status_metric name ''_maximum_processing_time_'' metricID,
                minTiming = status_metric name ''_minimum_processing_time_'' metricID\<rparr>;
          w = metric (Register KSummary (perfTiming pt) (name @ '' processing performance'')) w;
          w = metric (Register KGauge (maxTiming pt)
                (''Maximum value of the '' @ name @ '' processing performance'')) w;
          w = metric (Register KGauge (minTiming pt)
                (''Minimum value of the '' @ name @ '' processing performance'')) w
      in (pt, metric (GaugeSet (minTiming pt) INT_MAX) w))"

definition startTimer :: "env \<Rightarrow> performance_tracker \<Rightarrow> world \<Rightarrow> performance_tracker \<times> world" where
  "startTimer E pt w = (let (now, w) = read_clock E w in (pt\<lparr>startTime := now\<rparr>, w))"

definition observe_timing :: "env \<Rightarrow> string \<Rightarrow> string \<Rightarrow> string \<Rightarrow> int \<Rightarrow> world \<Rightarrow> world" where
  "observe_timing E perf mx mn v w =
     (let w = metric (SummaryObserve perf v) w;
          w = (if v < e_gauge E (calls w) mn then metric (GaugeSet mn v) w else w)
      in if v > e_gauge E (calls w) mx then metric (GaugeSet mx v) w else w)"

definition endTimer :: "env \<Rightarrow> performance_tracker \<Rightarrow> world \<Rightarrow> int \<times> world" where
  "endTimer E pt w =
     (let (now, w) = read_clock E w;
          v = dbl (now - startTime pt)
      in (v, observe_timing E (perfTiming pt) (maxTiming pt) (minTiming pt) v w))"

text \<open>The guard \<open>TrackPerformance\<close> around a block that does not use the tracker itself.\<close>

definition TrackPerformance ::
    "env \<Rightarrow> (world \<Rightarrow> world) \<Rightarrow> performance_tracker \<Rightarrow> world \<Rightarrow> performance_tracker \<times> world" where
  "TrackPerformance E block pt w =
     (let (pt, w) = startTimer E pt w in (pt, snd (endTimer E pt (block w))))"

definition perf_observe :: "env \<Rightarrow> string \<Rightarrow> u64 \<Rightarrow> int \<Rightarrow> world \<Rightarrow> world" where
  "perf_observe E name i v =
     observe_timing E (status_metric name ''_processing_time_'' i)
       (status_metric name ''_maximum_processing_time_'' i)
       (status_metric name ''_minimum_processing_time_'' i) v"

interpretation timing: minmax_gauges
  "\<lambda>E v. perf_observe E name i v" "\<lambda>v. True"
  "status_metric name ''_minimum_processing_time_'' i"
  "status_metric name ''_maximum_processing_time_'' i"
  for name i
  by unfold_locales
    (auto simp: perf_observe_def observe_timing_def status_metric_def Let_def gauge_lawD)

end
