(* ===== verification/ConfigParser.thy ===== *)
theory ConfigParser
  imports CppString
begin

text \<open>
  \<open>src/utils/ConfigParser.cpp\<close>: the settings read from a JSON file. rapidjson is a parameter: what
  it makes of the bytes of a file, and the bytes it writes for an object of strings. The
  files are a map from paths to contents; the order in which an \<open>unordered_map\<close> is traversed is
  a parameter as well. The locale \<open>kv_store\<close> is the contract of \<open>get\<close>, \<open>set\<close> and \<open>remove\<close>.
\<close>

section \<open>A store of keys and values\<close>

datatype ('k, 'v) kv_op = KSet 'k 'v | KRemove 'k

fun op_key :: "('k, 'v) kv_op \<Rightarrow> 'k" where
  "op_key (KSet k v) = k"
| "op_key (KRemove k) = k"

locale kv_store =
  fixes get :: "'s \<Rightarrow> 'k \<Rightarrow> 'v"
    and set :: "'k \<Rightarrow> 'v \<Rightarrow> 's \<Rightarrow> 's"
    and remove :: "'k \<Rightarrow> 's \<Rightarrow> 's"
    and absent :: 'v
  assumes get_set: "get (set k v s) k' = (if k' = k then v else get s k')"
    and get_remove: "get (remove k s) k' = (if k' = k then absent else get s k')"
begin

text \<open>After any sequence of changes, a key has the value of the last one that names it.\<close>

lemma get_fold:
  "get (fold (\<lambda>c s. case c of KSet k v \<Rightarrow> set k v s | KRemove k \<Rightarrow> remove k s) ops s) k =
     (case find (\<lambda>c. op_key c = k) (rev ops) of
        None \<Rightarrow> get s k | Some (KSet k v) \<Rightarrow> v | Some (KRemove k) \<Rightarrow> absent)"
proof (induction ops arbitrary: s)
  case (Cons c ops)
  have find_snoc: "find P (xs @ [x]) = (case find P xs of None \<Rightarrow> (if P x then Some x else None) | r \<Rightarrow> r)"
    for P and xs :: "('k, 'v) kv_op list" and x
    by (induction xs) auto
  show ?case
    by (cases c) (auto simp: Cons.IH find_snoc get_set get_remove split: option.splits)
qed simp

end

section \<open>The library below and the files\<close>

text \<open>\<open>JOther t\<close> is any value that is no string; \<open>t\<close> is what the \<open>Writer\<close> prints for it.\<close>

datatype json_value = JString string | JOther string

datatype json_doc =
    JParseError nat                      \<comment> \<open>offset of the error\<close>
  | JObject "(string \<times> json_value) list"  \<comment> \<open>the members, in order, repeated names kept\<close>
  | JNotObject                           \<comment> \<open>null, an array, a number, ...\<close>

record json_lib =
  j_parse :: "string \<Rightarrow> json_doc"
  j_write :: "(string \<times> string) list \<Rightarrow> string"
  j_order :: "(string \<rightharpoonup> string) \<Rightarrow> (string \<times> string) list"

type_synonym files = "string \<rightharpoonup> string"

section \<open>\<open>ConfigParser\<close>\<close>

record config_parser =
  configPath :: string
  configMap :: "string \<rightharpoonup> string"
  isValid :: bool
  lastError :: string

definition value_text :: "json_value \<Rightarrow> string" where
  "value_text v = (case v of JString s \<Rightarrow> c_str s | JOther t \<Rightarrow> c_str t)"

definition read_members ::
    "(string \<times> json_value) list \<Rightarrow> (string \<rightharpoonup> string) \<Rightarrow> (string \<rightharpoonup> string)" where
  "read_members members m = fold (\<lambda>(name, v) m. m(c_str name \<mapsto> value_text v)) members m"

definition readJson :: "json_lib \<Rightarrow> files \<Rightarrow> config_parser \<Rightarrow> bool \<times> config_parser" where
  "readJson L fs cp =
     (case fs (configPath cp) of
        None \<Rightarrow> (False, cp\<lparr>lastError := ''Can't open config file: '' @ configPath cp\<rparr>)
      | Some bytes \<Rightarrow>
          (case j_parse L bytes of
             JParseError offset \<Rightarrow>
               (False, cp\<lparr>lastError := ''JSON parse error at offset '' @ dec_of_nat offset\<rparr>)
           | JNotObject \<Rightarrow> (False, cp\<lparr>lastError := ''Config is empty or not a JSON object''\<rparr>)
           | JObject members \<Rightarrow> (True, cp\<lparr>configMap := read_members members (configMap cp)\<rparr>)))"

definition config_load :: "json_lib \<Rightarrow> files \<Rightarrow> config_parser \<Rightarrow> bool \<times> config_parser" where
  "config_load L fs cp =
     (let (valid, cp) = readJson L fs (cp\<lparr>configMap := Map.empty\<rparr>) in (valid, cp\<lparr>isValid := valid\<rparr>))"

definition ConfigParser :: "json_lib \<Rightarrow> files \<Rightarrow> string \<Rightarrow> config_parser" where
  "ConfigParser L fs path =
     snd (config_load L fs \<lparr>configPath = path, configMap = Map.empty, isValid = False, lastError = []\<rparr>)"

definition config_get :: "config_parser \<Rightarrow> string \<Rightarrow> string" where
  "config_get cp key = (case configMap cp key of None \<Rightarrow> [] | Some v \<Rightarrow> v)"

definition config_set :: "string \<Rightarrow> string \<Rightarrow> config_parser \<Rightarrow> config_parser" where
  "config_set key v cp = cp\<lparr>configMap := (configMap cp)(key \<mapsto> v)\<rparr>"

definition config_remove :: "string \<Rightarrow> config_parser \<Rightarrow> config_parser" where
  "config_remove key cp = cp\<lparr>configMap := (configMap cp)(key := None)\<rparr>"

text \<open>\<open>writeJson\<close>: \<open>writable\<close> says whether the file can be opened for writing. \<open>Inl\<close> is the exception.\<close>

definition config_save :: "json_lib \<Rightarrow> (string \<Rightarrow> bool) \<Rightarrow> files \<Rightarrow> config_parser \<Rightarrow> string + files" where
  "config_save L writable fs cp =
     (if \<not> writable (configPath cp)
      then Inl (''Cannot open config file for writing: '' @ configPath cp)
      else Inr (fs(configPath cp \<mapsto>
             j_write L (map (\<lambda>(k, v). (c_str k, c_str v)) (j_order L (configMap cp))))))"

interpretation config: kv_store config_get config_set config_remove "[]"
  by unfold_locales (auto simp: config_get_def config_set_def config_remove_def)

section \<open>What loading and saving do\<close>

lemma read_members_map_of:
  "read_members members m = m ++ map_of (rev (map (\<lambda>(n, v). (c_str n, value_text v)) members))"
  by (induction members arbitrary: m) (auto simp: read_members_def)

text \<open>
  The documented behaviour of rapidjson and of \<open>unordered_map\<close>: an object of strings reads back
  as it was written, and a traversal visits every entry once.
\<close>

definition json_law :: "json_lib \<Rightarrow> bool" where
  "json_law L \<longleftrightarrow> (\<forall>ms. j_parse L (j_write L ms) = JObject (map (\<lambda>(k, v). (k, JString v)) ms))"

definition order_law :: "json_lib \<Rightarrow> (string \<rightharpoonup> string) \<Rightarrow> bool" where
  "order_law L m \<longleftrightarrow> map_of (j_order L m) = m \<and> distinct (map fst (j_order L m))"

definition no_nul :: "(string \<rightharpoonup> string) \<Rightarrow> bool" where
  "no_nul m \<longleftrightarrow> (\<forall>k v. m k = Some v \<longrightarrow> CHR 0x00 \<notin> set k \<and> CHR 0x00 \<notin> set v)"

lemma c_str_idem [simp]: "c_str (c_str s) = c_str s"
  by simp

lemma load_saved:
  assumes law: "json_law L" and fin: "order_law L (configMap cp)" and nul: "no_nul (configMap cp)"
    and save: "config_save L writable fs cp = Inr fs'" and path: "configPath cp' = configPath cp"
  shows "config_load L fs' cp' = (True, cp'\<lparr>configMap := configMap cp, isValid := True\<rparr>)"
proof -
  let ?ms = "j_order L (configMap cp)"
  have order: "map_of ?ms = configMap cp" "distinct (map fst ?ms)"
    using fin by (auto simp: order_law_def)
  have same: "(c_str k, c_str v) = (k, v)" if "(k, v) \<in> set ?ms" for k v
  proof -
    have "configMap cp k = Some v" using that order map_of_is_SomeI [of ?ms k v] by simp
    with nul show ?thesis by (auto simp: no_nul_def)
  qed
  then have strs: "map (\<lambda>(k, v). (c_str k, c_str v)) ?ms = ?ms"
    by (intro map_idI) auto
  have "read_members (map (\<lambda>(k, v). (k, JString v)) ?ms) Map.empty = map_of (rev ?ms)"
    using strs by (simp add: read_members_map_of comp_def value_text_def case_prod_unfold)
  also have "\<dots> = configMap cp"
    using order map_of_inject_set [of "rev ?ms" ?ms] by (simp add: rev_map [symmetric])
  finally have "read_members (map (\<lambda>(k, v). (k, JString v)) ?ms) Map.empty = configMap cp" .
  then show ?thesis
    using save law path strs
    by (auto simp: config_load_def readJson_def config_save_def json_law_def split: if_splits)
qed

lemma load_cases:
  "config_load L fs cp =
     (case fs (configPath cp) of
        None \<Rightarrow> (False, cp\<lparr>configMap := Map.empty, isValid := False,
          lastError := ''Can't open config file: '' @ configPath cp\<rparr>)
      | Some bytes \<Rightarrow>
          (case j_parse L bytes of
             JParseError offset \<Rightarrow> (False, cp\<lparr>configMap := Map.empty, isValid := False,
               lastError := ''JSON parse error at offset '' @ dec_of_nat offset\<rparr>)
           | JNotObject \<Rightarrow> (False, cp\<lparr>configMap := Map.empty, isValid := False,
               lastError := ''Config is empty or not a JSON object''\<rparr>)
           | JObject members \<Rightarrow> (True, cp\<lparr>isValid := True,
               configMap := map_of (rev (map (\<lambda>(n, v). (c_str n, value_text v)) members))\<rparr>)))"
  by (simp add: config_load_def readJson_def read_members_map_of split: option.splits json_doc.splits)

end
