(* ===== verification/FileWatch.thy ===== *)
theory FileWatch
  imports World
begin

text \<open>
  \<open>utils/FileHelpers\<close>: the search for lines in a file and the inotify monitor. The answers of the
  kernel in one pass of the monitor's thread are a record; the regular expressions of the
  standard library are a predicate.
\<close>

unbundle bit_operations_syntax

section \<open>\<open>findFromFile\<close>\<close>

text \<open>The lines \<open>std::getline\<close> reads: a file that ends with a line feed has no empty last line.\<close>

function file_lines :: "string \<Rightarrow> string list" where
  "file_lines s =
     (case str_find_char (CHR 0x0A) s of
        None \<Rightarrow> (if s = [] then [] else [s])
      | Some i \<Rightarrow> take i s # file_lines (drop (Suc i) s))"
  by pat_completeness auto
termination
  by (relation "measure length") (auto dest: str_find_char_Some)

declare file_lines.simps [simp del]

text \<open>\<open>lastWord\<close> is an in and out argument, left alone when nothing is found; a file that cannot be
  opened has no lines.\<close>

definition findFromFile ::
    "(string \<Rightarrow> string \<Rightarrow> bool) \<Rightarrow> string option \<Rightarrow> string \<Rightarrow> string \<Rightarrow> string list \<times> string" where
  "findFromFile regex_search content pattern lastWord =
     (let readLines = (case content of None \<Rightarrow> [] | Some s \<Rightarrow> file_lines s);
          matchedLines = filter (\<lambda>l. regex_search l pattern) readLines
      in (matchedLines,
          if matchedLines = [] then lastWord
          else case str_find_last (CHR '' '') (hd matchedLines) of
                 None \<Rightarrow> lastWord
               | Some pos \<Rightarrow> (if pos \<noteq> length (hd matchedLines)
                              then drop (pos + 1) (hd matchedLines) else lastWord)))"

lemma file_lines_Nil [simp]: "file_lines [] = []"
  by (simp add: file_lines.simps)

lemma file_lines_Cons [simp]:
  "CHR 0x0A \<notin> set l \<Longrightarrow> file_lines (l @ CHR 0x0A # rest) = l # file_lines rest"
  by (subst file_lines.simps) (simp add: str_find_char_append)

lemma file_lines_concat:
  "\<forall>l \<in> set ls. CHR 0x0A \<notin> set l \<Longrightarrow> file_lines (concat (map (\<lambda>l. l @ [CHR 0x0A]) ls)) = ls"
  by (induction ls) simp_all

lemma str_find_last_word:
  assumes "CHR '' '' \<notin> set v"
  shows "str_find_last (CHR '' '') (u @ CHR '' '' # v) = Some (length u)"
proof -
  have "str_find_char (CHR '' '') (rev v @ CHR '' '' # rev u) = Some (length (rev v))"
    by (rule str_find_char_append) (use assms in simp)
  then show ?thesis by (simp add: str_find_last_def)
qed

section \<open>\<open>FileMonitor\<close>\<close>

text \<open>An event of the kernel: 16 bytes of header, then \<open>len\<close> bytes of name.\<close>

record inotify_event =
  ev_wd :: u32
  ev_mask :: u32
  ev_cookie :: u32
  ev_name :: string

definition encode_event :: "inotify_event \<Rightarrow> string" where
  "encode_event ev = le_bytes (ev_wd ev) @ le_bytes (ev_mask ev) @ le_bytes (ev_cookie ev) @
     le_bytes (of_nat (length (ev_name ev))) @ ev_name ev"

definition field :: "string \<Rightarrow> nat \<Rightarrow> u32" where
  "field buffer i = of_nat (le_nat (take 4 (drop i buffer)))"

text \<open>The loop over the bytes read. A header that does not lie in the buffer is read out of bounds.\<close>

function scan_events :: "u32 \<Rightarrow> string \<Rightarrow> int \<Rightarrow> nat \<Rightarrow> fault + bool" where
  "scan_events notifyEvents buffer nRead idx =
     (if int idx < nRead
      then if length buffer < idx + 16 then Inl OutOfBounds
      else if field buffer (idx + 4) AND notifyEvents \<noteq> 0 then Inr True
      else scan_events notifyEvents buffer nRead (idx + 16 + unat (field buffer (idx + 12)))
      else Inr False)"
  by pat_completeness auto
termination
  by (relation "measure (\<lambda>(m, b, n, idx). nat (n - int idx))")
    (auto intro: order.strict_trans2 [OF _ unsigned_greater_eq])

declare scan_events.simps [simp del]

lemma field_encode:
  assumes "length (ev_name ev) < 2 ^ 32"
  shows "field (u @ encode_event ev @ v) (length u + 4) = ev_mask ev"
    and "unat (field (u @ encode_event ev @ v) (length u + 12)) = length (ev_name ev)"
    and "length (encode_event ev) = 16 + length (ev_name ev)"
  using assms by (simp_all add: field_def encode_event_def drop_append unat_of_nat)

text \<open>On whole events, as the kernel delivers them, the loop asks whether one of them matches.\<close>

lemma scan_events_whole:
  assumes "\<forall>ev \<in> set evs. length (ev_name ev) < 2 ^ 32"
  shows "scan_events m (u @ concat (map encode_event evs) @ pad)
      (int (length (u @ concat (map encode_event evs)))) (length u) =
    Inr (\<exists>ev \<in> set evs. ev_mask ev AND m \<noteq> 0)"
  using assms
proof (induction evs arbitrary: u)
  case Nil
  show ?case by (subst scan_events.simps) simp
next
  case (Cons ev evs)
  let ?rest = "concat (map encode_event evs) @ pad"
  have f: "field (u @ encode_event ev @ ?rest) (length u + 4) = ev_mask ev"
    "unat (field (u @ encode_event ev @ ?rest) (length u + 12)) = length (ev_name ev)"
    "length (encode_event ev) = 16 + length (ev_name ev)"
    using Cons.prems by (auto intro: field_encode)
  have step: "scan_events m ((u @ encode_event ev) @ ?rest)
      (int (length ((u @ encode_event ev) @ concat (map encode_event evs)))) (length (u @ encode_event ev)) =
      Inr (\<exists>ev \<in> set evs. ev_mask ev AND m \<noteq> 0)"
    using Cons.IH [of "u @ encode_event ev"] Cons.prems by simp
  show ?case
    using f step by (subst scan_events.simps) (simp add: add.assoc)
qed

text \<open>One pass of the thread, with the answers of the kernel, and the thread over several passes.\<close>

datatype read_answer = ReadBytes string | ReadAgain | ReadFailed

record watch_pass =
  wp_ioctl :: int
  wp_available :: nat
  wp_read :: read_answer
  wp_errno :: strerror_answer

record file_monitor =
  fDescriptor :: int
  wDescriptor :: int
  filePath :: string
  notifyCallback :: bool                \<comment> \<open>a callback is set\<close>
  notifyEvents :: u32
  fm_thread :: bool

definition watch_once :: "file_monitor \<Rightarrow> watch_pass \<Rightarrow> world \<Rightarrow> fault + world" where
  "watch_once fm p w =
     (let w = (if wp_ioctl p < 0
               then emit (Log err (''Failed to get available events for file monitoring: '' @ getErrnoString (wp_errno p))) w
               else w);
          data = (case wp_read p of ReadBytes b \<Rightarrow> b | _ \<Rightarrow> []);
          nRead = (case wp_read p of ReadBytes b \<Rightarrow> int (length b) | _ \<Rightarrow> - 1);
          buffer = data @ replicate (wp_available p + 1 - length data) (CHR 0x00);
          w = emit (Sys (InotifyRead (fDescriptor fm) nRead)) w;
          w = (case wp_read p of
                 ReadFailed \<Rightarrow> emit (Log err (''Failed to read events for file monitoring: '' @ getErrnoString (wp_errno p))) w
               | ReadAgain \<Rightarrow> w
               | ReadBytes b \<Rightarrow> (if b = [] then emit (Log debug ''No events read for file monitoring'') w else w))
      in if notifyCallback fm
         then bind_sum (scan_events (notifyEvents fm) buffer nRead 0)
                (\<lambda>hit. Inr (if hit then emit (Sys Notify) w else w))
         else Inr w)"

fun watch_thread :: "file_monitor \<Rightarrow> watch_pass list \<Rightarrow> world \<Rightarrow> fault + world" where
  "watch_thread fm [] w = Inr w"
| "watch_thread fm (p # ps) w = bind_sum (watch_once fm p w) (watch_thread fm ps)"

text \<open>The constructor, with the results of \<open>inotify_init\<close>, \<open>inotify_add_watch\<close> and \<open>fcntl\<close>.\<close>

definition FileMonitor ::
    "int \<Rightarrow> int \<Rightarrow> bool \<Rightarrow> string \<Rightarrow> u32 \<Rightarrow> world \<Rightarrow> (string + file_monitor) \<times> world" where
  "FileMonitor fd wd nonblock path events w =
     (let w = emit (Sys (InotifyInit fd)) w
      in if fd < 0 then (Inl ''Failed to initialize inotify'', w)
      else
        let w = emit (Sys (InotifyAdd fd wd)) w
        in if wd < 0
           then (Inl ''Failed to add watch descriptor'', emit (Sys (CloseFd fd True)) w)
      else
        let w = emit (Sys (NonBlocking fd nonblock)) w
        in if \<not> nonblock
           then (Inl ''Failed to set file descriptor to non-blocking mode'', emit (Sys (CloseFd fd True)) w)
      else (Inr \<lparr>fDescriptor = fd, wDescriptor = wd, filePath = path, notifyCallback = False,
                 notifyEvents = events, fm_thread = True\<rparr>, emit (Sys ThreadStart) w))"

definition FileMonitor_destroy :: "bool \<Rightarrow> bool \<Rightarrow> string \<Rightarrow> file_monitor \<Rightarrow> world \<Rightarrow> file_monitor \<times> world" where
  "FileMonitor_destroy rm_ok close_ok errstr fm w =
     (let w = (if fm_thread fm then emit Join w else w);
          w = (if wDescriptor fm \<ge> 0
               then let w = emit (Sys (InotifyRemove (fDescriptor fm) (wDescriptor fm) rm_ok)) w
                    in if rm_ok then w
                       else emit (Log err (''Failed to remove watch descriptor: '' @ errstr)) w
               else w);
          w = (if fDescriptor fm \<ge> 0
               then let w = emit (Sys (CloseFd (fDescriptor fm) close_ok)) w
                    in if close_ok then w
                       else emit (Log err (''Failed to close file descriptor: '' @ errstr)) w
               else w)
      in (fm\<lparr>fDescriptor := - 1, wDescriptor := - 1, fm_thread := False\<rparr>, w))"

text \<open>The inotify descriptors a trace leaves open.\<close>

fun inotify_open :: "call list \<Rightarrow> int" where
  "inotify_open [] = 0"
| "inotify_open (Sys (InotifyInit fd) # cs) = of_bool (fd \<ge> 0) + inotify_open cs"
| "inotify_open (Sys (CloseFd fd ok) # cs) = inotify_open cs - 1"
| "inotify_open (_ # cs) = inotify_open cs"

lemma inotify_open_append [simp]: "inotify_open (cs @ ds) = inotify_open cs + inotify_open ds"
  by (induction cs rule: inotify_open.induct) auto

lemma FileMonitor_open:
  "FileMonitor fd wd nb path ev w = (r, w') \<Longrightarrow>
     inotify_open (calls w') - inotify_open (calls w) = (case r of Inl _ \<Rightarrow> 0 | Inr _ \<Rightarrow> 1)"
  by (auto simp: FileMonitor_def Let_def split: if_splits)

lemma FileMonitor_destroy_open:
  "fDescriptor fm \<ge> 0 \<Longrightarrow> FileMonitor_destroy a b e fm w = (fm', w') \<Longrightarrow>
     inotify_open (calls w') - inotify_open (calls w) = - 1"
  by (auto simp: FileMonitor_destroy_def Let_def)

end
