(* ===== verification/CommandLine.thy ===== *)
theory CommandLine
  imports CppString
begin

text \<open>
  \<open>include/utils/InputParser.hpp\<close>, the command line, and the conversions \<open>std::stoul\<close> and
  \<open>std::stoull\<close> that \<open>main\<close> and \<open>ProcessMetrics\<close> apply to option values and file contents.
\<close>

section \<open>\<open>InputParser\<close>\<close>

text \<open>The object is its vector of tokens: the arguments after the program name.\<close>

definition InputParser :: "string list \<Rightarrow> string list" where
  "InputParser argv = drop 1 argv"

fun getCmdOption :: "string list \<Rightarrow> string \<Rightarrow> string" where
  "getCmdOption [] option = []"
| "getCmdOption (t # tokens) option =
     (if t = option then (case tokens of [] \<Rightarrow> [] | v # _ \<Rightarrow> v) else getCmdOption tokens option)"

definition is_option :: "string \<Rightarrow> bool" where
  "is_option t \<longleftrightarrow> (case t of [] \<Rightarrow> False | c # _ \<Rightarrow> c = CHR ''-'')"

fun getCmdOptions :: "string list \<Rightarrow> (string \<times> string) list" where
  "getCmdOptions [] = []"
| "getCmdOptions (t # tokens) =
     (if is_option t
      then (t, case tokens of
                 v # _ \<Rightarrow> (if v \<noteq> [] \<and> \<not> is_option v then v else [])
               | [] \<Rightarrow> []) # getCmdOptions tokens
      else getCmdOptions tokens)"

definition cmdOptionExists :: "string list \<Rightarrow> string \<Rightarrow> bool" where
  "cmdOptionExists tokens option \<longleftrightarrow> option \<in> set tokens"

text \<open>\<open>getCmdOption\<close> returns what follows the first occurrence, whatever it looks like.\<close>

lemma getCmdOption_first:
  "option \<notin> set before \<Longrightarrow> getCmdOption (before @ option # v # rest) option = v"
  by (induction before) auto

lemma getCmdOption_absent: "option \<notin> set (butlast tokens) \<Longrightarrow> getCmdOption tokens option = []"
proof (induction tokens)
  case (Cons t tokens)
  then show ?case by (cases tokens) auto
qed simp

text \<open>The options listed are exactly the tokens with a dash, in order.\<close>

lemma getCmdOptions_names: "map fst (getCmdOptions tokens) = filter is_option tokens"
  by (induction tokens) auto

lemma getCmdOptions_value:
  "(t, v) \<in> set (getCmdOptions tokens) \<Longrightarrow> v \<noteq> [] \<Longrightarrow> \<not> is_option v \<and> sublist [t, v] tokens"
proof (induction tokens)
  case (Cons u tokens)
  show ?case
  proof (cases "(t, v) \<in> set (getCmdOptions tokens)")
    case True
    with Cons show ?thesis by (simp add: sublist_Cons_right)
  next
    case False
    with Cons.prems obtain w ws where "tokens = w # ws" "u = t" "v = w" "\<not> is_option w"
      by (cases tokens) (auto split: if_splits)
    then show ?thesis by (simp add: sublist_Cons_right prefix_Cons)
  qed
qed simp

text \<open>
  Rendering options and parsing them back. A command line is rendered as the token of every
  option, followed by its value when it has one.
\<close>

definition render_options :: "(string \<times> string) list \<Rightarrow> string list" where
  "render_options opts = concat (map (\<lambda>(t, v). if v = [] then [t] else [t, v]) opts)"

definition proper_options :: "(string \<times> string) list \<Rightarrow> bool" where
  "proper_options opts \<longleftrightarrow> (\<forall>(t, v) \<in> set opts. is_option t \<and> \<not> is_option v)"

lemma proper_options_Nil [simp]: "proper_options []"
  by (simp add: proper_options_def)

lemma proper_options_Cons [simp]:
  "proper_options ((t, v) # opts) \<longleftrightarrow> is_option t \<and> \<not> is_option v \<and> proper_options opts"
  by (auto simp: proper_options_def)

lemma render_options_Nil [simp]: "render_options [] = []"
  by (simp add: render_options_def)

lemma render_options_Cons [simp]:
  "render_options ((t, v) # opts) = (if v = [] then [t] else [t, v]) @ render_options opts"
  by (simp add: render_options_def)

lemma render_options_head:
  "proper_options opts \<Longrightarrow> render_options opts = t # ts \<Longrightarrow> is_option t"
  by (cases opts) (auto split: if_splits)

lemma getCmdOptions_render: "proper_options opts \<Longrightarrow> getCmdOptions (render_options opts) = opts"
proof (induction opts)
  case (Cons o' opts)
  obtain t v where o': "o' = (t, v)" by (cases o')
  from Cons have "getCmdOptions (render_options opts) = opts" by (simp add: o')
  with Cons.prems show ?case
    by (auto simp: o' dest: render_options_head split: list.splits)
qed (simp add: render_options_def)

section \<open>\<open>std::stoul\<close> and \<open>std::stoull\<close>\<close>

text \<open>
  White space is skipped, a sign is taken, then digits as long as there are any; what follows is
  ignored. No digit, or a value the type does not hold, is an exception; a minus sign
  negates modulo \<open>2 ^ 64\<close>.
\<close>

definition is_space :: "char \<Rightarrow> bool" where
  "is_space c \<longleftrightarrow> c \<in> {CHR '' '', CHR 0x09, CHR 0x0A, CHR 0x0B, CHR 0x0C, CHR 0x0D}"

definition is_digit :: "char \<Rightarrow> bool" where
  "is_digit c \<longleftrightarrow> 48 \<le> (of_char c :: nat) \<and> (of_char c :: nat) \<le> 57"

definition digits_value :: "string \<Rightarrow> nat" where
  "digits_value ds = foldl (\<lambda>n c. 10 * n + (of_char c - 48)) 0 ds"

definition parse_unsigned :: "string \<Rightarrow> string \<Rightarrow> string + u64" where
  "parse_unsigned what s =
     (let s = dropWhile is_space s;
          neg = (s \<noteq> [] \<and> hd s = CHR ''-'');
          s = (if s \<noteq> [] \<and> (hd s = CHR ''-'' \<or> hd s = CHR ''+'') then tl s else s);
          ds = takeWhile is_digit s
      in if ds = [] then Inl what
         else if digits_value ds \<ge> 2 ^ 64 then Inl what
         else Inr (if neg then - of_nat (digits_value ds) else of_nat (digits_value ds)))"

text \<open>The name of the function is the text of its exceptions.\<close>

definition stoul :: "string \<Rightarrow> string + u64" where
  "stoul s = parse_unsigned ''stoul'' s"

definition stoull :: "string \<Rightarrow> string + u64" where
  "stoull s = parse_unsigned ''stoull'' s"

lemma dec_digits_digits: "c \<in> set (dec_digits n) \<Longrightarrow> is_digit c"
proof (induction n rule: dec_digits.induct)
  case (1 n)
  have small: "is_digit (char_of (48 + k))" if "k < 10" for k :: nat
    using that by (simp add: is_digit_def)
  show ?case
  proof (cases "n < 10")
    case True
    with "1.prems" show ?thesis by (subst (asm) dec_digits.simps) (simp add: small)
  next
    case False
    with 1 show ?thesis
      by (subst (asm) (2) dec_digits.simps) (auto simp: small)
  qed
qed

lemma digits_value_dec: "digits_value (dec_digits n) = n"
proof (induction n rule: dec_digits.induct)
  case (1 n)
  show ?case
  proof (cases "n < 10")
    case True
    then show ?thesis by (subst dec_digits.simps) (simp add: digits_value_def)
  next
    case False
    with 1 show ?thesis
      by (subst dec_digits.simps) (simp add: digits_value_def)
  qed
qed

lemma dec_digits_not_Nil [simp]: "dec_digits n \<noteq> []"
  by (subst dec_digits.simps) simp

lemma digit_not_space: "is_digit c \<Longrightarrow> \<not> is_space c \<and> c \<noteq> CHR ''-'' \<and> c \<noteq> CHR ''+''"
  by (auto simp: is_digit_def is_space_def)

text \<open>The decimal form of a number reads back, whatever follows it up to the next digit.\<close>

lemma stoul_dec:
  assumes "n < 2 ^ 64" and "rest = [] \<or> \<not> is_digit (hd rest)"
  shows "stoul (dec_of_nat n @ rest) = Inr (of_nat n)"
    and "stoull (dec_of_nat n @ rest) = Inr (of_nat n)"
proof -
  obtain d ds where dec: "dec_digits n = d # ds" by (cases "dec_digits n") auto
  then have digits: "is_digit d" "\<forall>c \<in> set ds. is_digit c"
    using dec_digits_digits [of _ n] by auto
  have "takeWhile is_digit ((d # ds) @ rest) = d # ds"
    using digits assms(2) by (cases rest) (auto simp: takeWhile_append)
  then have "parse_unsigned what (dec_of_nat n @ rest) = Inr (of_nat n)" for what
    using assms(1) digits digits_value_dec [of n] digit_not_space [OF digits(1)]
    by (simp add: parse_unsigned_def dec_of_nat_def dec Let_def)
  then show "stoul (dec_of_nat n @ rest) = Inr (of_nat n)"
    and "stoull (dec_of_nat n @ rest) = Inr (of_nat n)"
    by (simp_all add: stoul_def stoull_def)
qed

end
