(* ===== verification/ProcessMetrics.thy ===== *)
theory ProcessMetrics
  imports FileWatch BaseStats CommandLine
begin

text \<open>
  \<open>src/metrics/ProcessMetrics.cpp\<close>: the self monitoring. What the kernel answers in one update is
  the record \<open>proc_reading\<close>; what the object keeps from one update to the next is the record
  \<open>process_metrics\<close>.
\<close>

record proc_reading =
  pr_maxrss :: int
  pr_majflt :: int
  pr_times :: "int \<times> int"             \<comment> \<open>result of \<open>times\<close>, user time it stored\<close>
  pr_io_first :: "string option"      \<comment> \<open>contents of \<open>/proc/self/io\<close>, as read twice\<close>
  pr_io_second :: "string option"
  pr_tasks :: "nat option"            \<comment> \<open>entries of \<open>/proc/self/task\<close>, if it opens\<close>
  pr_fds :: "nat option"              \<comment> \<open>entries of \<open>/proc/self/fd\<close>\<close>

record process_metrics =
  pm_checkFlag :: "nat option"
  oldReadBytes :: size_t
  oldWriteBytes :: size_t
  oldCpuTime :: int
  oldCpuUser :: int

text \<open>Every entry \<open>readdir\<close> returns is counted, the entries \<open>.\<close> and \<open>..\<close> too.\<close>

definition countDirectoryEntries :: "nat option \<Rightarrow> size_t" where
  "countDirectoryEntries dir = (case dir of None \<Rightarrow> 0 | Some n \<Rightarrow> of_nat n)"

definition getMemoryUsage :: "proc_reading \<Rightarrow> int" where
  "getMemoryUsage r = pr_maxrss r"

definition getPageFaults :: "proc_reading \<Rightarrow> int" where
  "getPageFaults r = pr_majflt r"

text \<open>The usage is \<open>100 * a / b\<close> for the pair \<open>(a, b)\<close> returned.\<close>

definition getCpuUsage :: "proc_reading \<Rightarrow> process_metrics \<Rightarrow> (int \<times> int) \<times> process_metrics" where
  "getCpuUsage r pm =
     (case pr_times r of (now, user) \<Rightarrow>
        if oldCpuTime pm = 0
        then ((0, 1), pm\<lparr>oldCpuTime := (if now = - 1 then 0 else now), oldCpuUser := user\<rparr>)
        else ((user - oldCpuUser pm, now - oldCpuTime pm), pm\<lparr>oldCpuTime := now, oldCpuUser := user\<rparr>))"

definition getDiskIO ::
    "(string \<Rightarrow> string \<Rightarrow> bool) \<Rightarrow> proc_reading \<Rightarrow> process_metrics
     \<Rightarrow> string + (size_t \<times> size_t) \<times> process_metrics" where
  "getDiskIO regex r pm =
     (let buffer = snd (findFromFile regex (pr_io_first r) ''read_bytes'' [])
      in if buffer = [] then Inr ((0, 0), pm)
      else bind_sum (stoull buffer) (\<lambda>readBytes.
        let buffer = snd (findFromFile regex (pr_io_second r) ''write_bytes'' [])
        in if buffer = [] then Inr ((0, 0), pm)
        else bind_sum (stoull buffer) (\<lambda>writeBytes.
          Inr ((readBytes - oldReadBytes pm, writeBytes - oldWriteBytes pm),
               pm\<lparr>oldReadBytes := readBytes, oldWriteBytes := writeBytes\<rparr>))))"

definition getThreadCount :: "proc_reading \<Rightarrow> size_t" where
  "getThreadCount r = countDirectoryEntries (pr_tasks r)"

definition getFileDescriptorCount :: "proc_reading \<Rightarrow> size_t" where
  "getFileDescriptorCount r = countDirectoryEntries (pr_fds r)"

definition pm_update ::
    "(string \<Rightarrow> string \<Rightarrow> bool) \<Rightarrow> proc_reading \<Rightarrow> process_metrics \<Rightarrow> world
     \<Rightarrow> (string + unit) \<times> process_metrics \<times> world" where
  "pm_update regex r pm w =
     (let w = metric (GaugeSetNow ''current_time'') w;
          w = metric (GaugeSet ''memory_usage'' (dbl (getMemoryUsage r))) w;
          w = metric (GaugeSet ''page_faults'' (dbl (getPageFaults r))) w;
          ((a, b), pm) = getCpuUsage r pm;
          w = metric (GaugeSetQuotient ''cpu_usage'' a b) w
      in case getDiskIO regex r pm of
           Inl e \<Rightarrow> (Inl e, pm, w)
         | Inr ((diskRead, diskWrite), pm) \<Rightarrow>
             (let w = metric (GaugeSet ''disk_read'' (dbl (uint diskRead))) w;
                  w = metric (GaugeSet ''disk_write'' (dbl (uint diskWrite))) w;
                  w = metric (GaugeSet ''thread_count'' (dbl (uint (getThreadCount r)))) w;
                  w = metric (GaugeSet ''file_descriptor_count'' (dbl (uint (getFileDescriptorCount r)))) w
              in (Inr (), pm, w)))"

text \<open>\<open>threadRunner\<close>, one reading for every round.\<close>

fun pm_thread ::
    "(string \<Rightarrow> string \<Rightarrow> bool) \<Rightarrow> proc_reading list \<Rightarrow> process_metrics \<Rightarrow> world
     \<Rightarrow> process_metrics \<times> world" where
  "pm_thread regex [] pm w = (pm, w)"
| "pm_thread regex (r # rs) pm w =
     (case pm_update regex r pm w of
        (Inl e, pm, w) \<Rightarrow> pm_thread regex rs pm (emit (Log err (''Self monitoring failed: '' @ e)) w)
      | (Inr _, pm, w) \<Rightarrow> pm_thread regex rs pm (set_flag (pm_checkFlag pm) w))"

definition ProcessMetrics :: "nat option \<Rightarrow> bool \<Rightarrow> world \<Rightarrow> string + process_metrics \<times> world" where
  "ProcessMetrics checkFlag reg w =
     (if \<not> reg then Inl ''Registry is nullptr''
      else
        let w = metric (Register KGauge ''init_time'' ''Initialization time of application'') w;
            w = metric (Register KGauge ''current_time'' ''Current time of application'') w;
            w = metric (Register KGauge ''memory_usage'' ''Memory usage of application'') w;
            w = metric (Register KGauge ''page_faults'' ''Page faults of application'') w;
            w = metric (Register KGauge ''cpu_usage'' ''CPU usage of application'') w;
            w = metric (Register KGauge ''disk_read'' ''Disk read of application'') w;
            w = metric (Register KGauge ''disk_write'' ''Disk write of application'') w;
            w = metric (Register KGauge ''thread_count'' ''Thread count of application'') w;
            w = metric (Register KGauge ''file_descriptor_count''
                  ''File descriptor count of application'') w;
            w = metric (GaugeSetNow ''init_time'') w
        in Inr (\<lparr>pm_checkFlag = checkFlag, oldReadBytes = 0, oldWriteBytes = 0, oldCpuTime = 0,
                 oldCpuUser = 0\<rparr>, emit (Sys ThreadStart) w))"

section \<open>Reading the kernel's counters\<close>

text \<open>For a pattern without special characters a regular expression search is a substring search.\<close>

definition regex_law :: "(string \<Rightarrow> string \<Rightarrow> bool) \<Rightarrow> bool" where
  "regex_law regex \<longleftrightarrow>
     (\<forall>p \<in> {''read_bytes'', ''write_bytes''}. \<forall>l. regex l p = str_contains p l)"

text \<open>The file as the kernel prints it.\<close>

definition proc_line :: "string \<Rightarrow> nat \<Rightarrow> string" where
  "proc_line name n = name @ '': '' @ dec_of_nat n"

definition proc_io :: "nat \<Rightarrow> nat \<Rightarrow> nat \<Rightarrow> nat \<Rightarrow> nat \<Rightarrow> nat \<Rightarrow> nat \<Rightarrow> string" where
  "proc_io rchar wchar syscr syscw rd wr cancelled =
     concat (map (\<lambda>l. l @ [CHR 0x0A])
       [proc_line ''rchar'' rchar, proc_line ''wchar'' wchar, proc_line ''syscr'' syscr,
        proc_line ''syscw'' syscw, proc_line ''read_bytes'' rd, proc_line ''write_bytes'' wr,
        proc_line ''cancelled_write_bytes'' cancelled])"

lemma digit_chars: "c \<in> set (dec_of_nat n) \<Longrightarrow> is_digit c"
  by (simp add: dec_of_nat_def dec_digits_digits)

lemma not_digit: "\<not> is_digit c \<Longrightarrow> c \<notin> set (dec_of_nat n)"
  using digit_chars [of c n] by blast

text \<open>A pattern that ends in a character the second part does not hold lies in the first part.\<close>

lemma sublist_last_in:
  assumes "sublist (p @ [c]) (a @ b)" and "c \<notin> set b"
  shows "sublist (p @ [c]) a"
  using assms(1) unfolding sublist_append
proof (elim disjE exE conjE)
  assume "sublist (p @ [c]) b"
  then have "c \<in> set b" using set_mono_sublist by fastforce
  with assms(2) show ?thesis by blast
next
  fix u v
  assume uv: "p @ [c] = u @ v" "suffix u a" "prefix v b"
  have "v = []"
  proof (rule ccontr)
    assume "v \<noteq> []"
    then have "last v = c" using uv(1) by (metis last_appendR last_snoc)
    with \<open>v \<noteq> []\<close> uv(3) assms(2) show False
      by (metis last_in_set set_mono_prefix subsetD)
  qed
  with uv show ?thesis by (simp add: suffix_imp_sublist)
qed

lemma proc_line_match:
  "c \<notin> {CHR '':'', CHR '' ''} \<Longrightarrow> \<not> is_digit c \<Longrightarrow>
     str_contains (p @ [c]) (proc_line name n) = sublist (p @ [c]) name"
  unfolding str_contains_sublist proc_line_def
  by (rule iffI, erule sublist_last_in) (auto simp: not_digit intro: sublist_order.order_trans)

lemma proc_line_match_bytes:
  "str_contains ''read_bytes'' (proc_line name n) = sublist ''read_bytes'' name"
  "str_contains ''write_bytes'' (proc_line name n) = sublist ''write_bytes'' name"
  using proc_line_match [of "CHR ''s''" "''read_byte''" name n]
    proc_line_match [of "CHR ''s''" "''write_byte''" name n] by (simp_all add: is_digit_def)

lemma proc_line_word:
  "CHR '' '' \<notin> set name \<Longrightarrow> CHR 0x0A \<notin> set name \<Longrightarrow>
     CHR 0x0A \<notin> set (proc_line name n) \<and>
     str_find_last (CHR '' '') (proc_line name n) = Some (length name + 1)"
  using str_find_last_word [of "dec_of_nat n" "name @ '':''"]
  by (simp add: proc_line_def not_digit is_digit_def)

lemma proc_io_lines:
  "file_lines (proc_io a b c d rd wr e) =
     [proc_line ''rchar'' a, proc_line ''wchar'' b, proc_line ''syscr'' c, proc_line ''syscw'' d,
      proc_line ''read_bytes'' rd, proc_line ''write_bytes'' wr, proc_line ''cancelled_write_bytes'' e]"
  unfolding proc_io_def by (rule file_lines_concat) (auto simp: proc_line_word)

lemma proc_io_find:
  assumes "regex_law regex"
  shows "snd (findFromFile regex (Some (proc_io a b c d rd wr e)) ''read_bytes'' lw) = dec_of_nat rd"
    and "snd (findFromFile regex (Some (proc_io a b c d rd wr e)) ''write_bytes'' lw) = dec_of_nat wr"
proof -
  have re: "regex l ''read_bytes'' = str_contains ''read_bytes'' l"
    "regex l ''write_bytes'' = str_contains ''write_bytes'' l" for l
    using assms by (auto simp: regex_law_def)
  have word: "str_find_last (CHR '' '') (proc_line ''read_bytes'' rd) = Some 11"
    "str_find_last (CHR '' '') (proc_line ''write_bytes'' wr) = Some 12"
    using proc_line_word [of "''read_bytes''" rd] proc_line_word [of "''write_bytes''" wr] by simp_all
  have len: "length (proc_line ''read_bytes'' rd) > 11" "length (proc_line ''write_bytes'' wr) > 12"
    by (simp_all add: proc_line_def dec_of_nat_def)
  have drops: "drop 12 (proc_line ''read_bytes'' rd) = dec_of_nat rd"
    "drop 13 (proc_line ''write_bytes'' wr) = dec_of_nat wr"
    by (simp_all add: proc_line_def)
  have match: "filter (\<lambda>l. regex l ''read_bytes'') (file_lines (proc_io a b c d rd wr e)) =
      [proc_line ''read_bytes'' rd]"
    "filter (\<lambda>l. regex l ''write_bytes'') (file_lines (proc_io a b c d rd wr e)) =
      [proc_line ''write_bytes'' wr, proc_line ''cancelled_write_bytes'' e]"
    unfolding proc_io_lines re by (simp_all add: proc_line_match_bytes sublist_Cons_right prefix_Cons)
  show "snd (findFromFile regex (Some (proc_io a b c d rd wr e)) ''read_bytes'' lw) = dec_of_nat rd"
    "snd (findFromFile regex (Some (proc_io a b c d rd wr e)) ''write_bytes'' lw) = dec_of_nat wr"
    using len by (simp_all add: findFromFile_def match word drops)
qed

text \<open>
  With the kernel's file, \<open>getDiskIO\<close> returns the growth of both counters since its last call.
\<close>

lemma getDiskIO_proc:
  assumes "regex_law regex" and "rd < 2 ^ 64" and "wr < 2 ^ 64"
    and "pr_io_first r = Some (proc_io a b c d rd wr0 e)"
    and "pr_io_second r = Some (proc_io a' b' c' d' rd0 wr e')"
  shows "getDiskIO regex r pm =
     Inr ((of_nat rd - oldReadBytes pm, of_nat wr - oldWriteBytes pm),
       pm\<lparr>oldReadBytes := of_nat rd, oldWriteBytes := of_nat wr\<rparr>)"
proof -
  have "stoull (dec_of_nat rd) = Inr (of_nat rd)" "stoull (dec_of_nat wr) = Inr (of_nat wr)"
    using stoul_dec(2) [of rd "[]"] stoul_dec(2) [of wr "[]"] assms by simp_all
  then show ?thesis
    using assms(1,4,5) by (simp add: getDiskIO_def Let_def proc_io_find dec_of_nat_def)
qed

end
