(* ===== verification/Tracer.thy ===== *)
theory Tracer
  imports World
begin

text \<open>
  \<open>src/utils/Tracer.cpp\<close>: the start of the crashpad handler and the thread that watches it. The
  answers of the kernel and of crashpad in one round of the thread are the record
  \<open>crash_probe\<close>; what they answer at start-up are arguments.
\<close>

definition CRASHPAD_RETRY_COUNT :: int where [eval_simps]: "CRASHPAD_RETRY_COUNT = 10"

record crash_probe =
  cp_handler :: "(int \<times> int) option"    \<comment> \<open>\<open>GetHandlerSocket\<close>: socket and process id\<close>
  cp_getsockopt :: "int \<Rightarrow> int \<times> int"   \<comment> \<open>result, \<open>SO_ERROR\<close>\<close>
  cp_peek :: "int \<Rightarrow> int"               \<comment> \<open>result of a \<open>recv\<close> that peeks\<close>
  cp_kill :: "int \<Rightarrow> int"               \<comment> \<open>result of \<open>kill(pid, 0)\<close>\<close>

definition checkPidIsRunning :: "crash_probe \<Rightarrow> int \<Rightarrow> bool" where
  "checkPidIsRunning p processId \<longleftrightarrow> cp_kill p processId = 0"

definition checkSocketIsRunning :: "crash_probe \<Rightarrow> int \<Rightarrow> bool" where
  "checkSocketIsRunning p sockId \<longleftrightarrow>
     (case cp_getsockopt p sockId of (result, error) \<Rightarrow> result = 0 \<and> error = 0 \<and> cp_peek p sockId \<noteq> 0)"

definition isRunning :: "crash_probe \<Rightarrow> bool" where
  "isRunning p \<longleftrightarrow>
     (case cp_handler p of
        None \<Rightarrow> False
      | Some (sockId, processId) \<Rightarrow>
          (if sockId \<ge> 0 \<and> \<not> checkSocketIsRunning p sockId then False
           else if processId > 0 \<and> \<not> checkPidIsRunning p processId then False
           else True))"

text \<open>
  \<open>threadFunc\<close>: one probe for every test of the stop token. The first component says that the
  thread gave up.
\<close>

fun tracer_loop :: "nat option \<Rightarrow> crash_probe list \<Rightarrow> int \<Rightarrow> world \<Rightarrow> bool \<times> world" where
  "tracer_loop checkFlag [] stopCounter w = (False, w)"
| "tracer_loop checkFlag (p # ps) stopCounter w =
     (if \<not> isRunning p
      then let stopCounter = stopCounter + 1
           in if stopCounter > CRASHPAD_RETRY_COUNT
              then (True, emit (Log info ''Crashpad handler closed'') w)
              else tracer_loop checkFlag ps 0 (set_flag checkFlag w)
      else tracer_loop checkFlag ps 0 (set_flag checkFlag w))"

definition tracer_threadFunc :: "nat option \<Rightarrow> crash_probe list \<Rightarrow> world \<Rightarrow> bool \<times> world" where
  "tracer_threadFunc checkFlag ps w = tracer_loop checkFlag ps 0 w"

definition getSelfExecutableDir :: "string option \<Rightarrow> string" where
  "getSelfExecutableDir link =
     (let path = (case link of None \<Rightarrow> [] | Some s \<Rightarrow> s)
      in case str_find_last (CHR 0x2F) path of None \<Rightarrow> [] | Some pos \<Rightarrow> str_substr 0 pos path)"

record tracer =
  tr_checkFlag :: "nat option"
  serverPath :: string
  serverProxy :: string
  handlerPath :: string
  reportPath :: string
  annotations :: "(string \<times> string) list"
  tr_thread :: bool

text \<open>\<open>startHandler\<close>, with what crashpad answers: the database, its settings, the handler.\<close>

definition startHandler ::
    "bool \<Rightarrow> bool \<Rightarrow> bool \<Rightarrow> tracer \<Rightarrow> world \<Rightarrow> (string + tracer) \<times> world" where
  "startHandler database settings started tr w =
     (let w = emit (Sys (CrashDatabase (reportPath tr) database)) w
      in if \<not> database then (Inl ''Can't initialize crash report database'', w)
      else if \<not> settings then (Inl ''Can't get crash report database settings'', w)
      else
        let w = emit (Sys CrashUploads) w;
            w = emit (Sys (CrashHandler (handlerPath tr) (reportPath tr) started)) w
        in if \<not> started then (Inl ''Can't start crash handler'', w)
           else (Inr (tr\<lparr>tr_thread := True\<rparr>), emit (Sys ThreadStart) w))"

definition Tracer ::
    "string option \<Rightarrow> bool \<Rightarrow> bool \<Rightarrow> bool \<Rightarrow> (string \<times> string) list \<Rightarrow> nat option \<Rightarrow> string \<Rightarrow> string
     \<Rightarrow> string \<Rightarrow> string \<Rightarrow> world \<Rightarrow> (string + tracer) \<times> world" where
  "Tracer link database settings started build_info checkFlag server proxy crashpadHandlerPath report w =
     (let selfDir = getSelfExecutableDir link
      in startHandler database settings started
           \<lparr>tr_checkFlag = checkFlag, serverPath = server, serverProxy = proxy,
            handlerPath = (if crashpadHandlerPath = [] then selfDir @ ''/crashpad_handler''
                           else crashpadHandlerPath),
            reportPath = (if report = [] then selfDir else report),
            annotations = build_info, tr_thread = False\<rparr> w)"

section \<open>What the thread does\<close>

text \<open>
  The counter is reset in every round, so it never passes 1: whatever the probes say, the
  thread sets the flag in every round and never gives up.
\<close>

lemma tracer_loop_zero:
  "tracer_loop f ps 0 w = (False, fold (\<lambda>_. set_flag f) ps w)"
  by (induction ps arbitrary: w) (simp_all add: CRASHPAD_RETRY_COUNT_def)

lemma Tracer_result:
  assumes "Tracer link db settings started build f server proxy exe report w = (r, w')"
  shows "(case r of Inl _ \<Rightarrow> \<not> (db \<and> settings \<and> started) | Inr tr \<Rightarrow> db \<and> settings \<and> started \<and>
       tr_thread tr \<and> tr_checkFlag tr = f \<and>
       handlerPath tr = (if exe = [] then getSelfExecutableDir link @ ''/crashpad_handler'' else exe) \<and>
       reportPath tr = (if report = [] then getSelfExecutableDir link else report)) \<and>
     vCheckFlag w' = vCheckFlag w \<and> (\<exists>cs. calls w' = calls w @ cs)"
  using assms by (auto simp: Tracer_def startHandler_def Let_def split: if_splits)

end
