(* ===== verification/ServiceProperties.thy ===== *)
theory ServiceProperties
  imports ZeroMQShutdown TelnetProperties Metrics ConfigParser ProcessMetrics Tracer
begin

text \<open>
  The properties of the request server, the metrics, the configuration, the command line, the file
  monitor and the crash handler's watchdog, each followed by an input it applies to.
\<close>

unbundle bit_operations_syntax

section \<open>The request server\<close>

definition sample_zmq :: "string list \<Rightarrow> zmq_env" where
  "sample_zmq msgs =
     \<lparr>z_socket = (\<lambda>_. True), z_bind = (\<lambda>_ _. True), z_connect = (\<lambda>_ _. True), z_unbind = (\<lambda>_ _. True),
      z_disconnect = (\<lambda>_ _. True), z_recv = (\<lambda>_. ZMsgs msgs),
      z_send = (\<lambda>_ parts. ZSent (Some (length parts)) (map (\<lambda>_. []) parts)), z_monitor = (\<lambda>_ _. True),
      z_failed = 0x0800, z_succeeded = 0x1000\<rparr>"

definition sample_server :: zmq_server where
  "sample_server = \<lparr>zsock = \<lparr>zIsActive = True, zIsBinded = True, zSocketAddr = ''tcp''\<rparr>, zCheckFlag = Some 0,
     zStats = Some \<lparr>zs_name = ''zeromq_''\<rparr>, zCallback = Some ZeroMQServerMessageCallback, zThread = True\<rparr>"

lemma sample_zmq_simps [simp]: "zmq_env_ok (sample_zmq msgs)" "send_empties (sample_zmq msgs)"
  "z_succeeded (sample_zmq msgs) = 0x1000"
  "z_send (sample_zmq msgs) cs parts = ZSent (Some (length parts)) (map (\<lambda>_. []) parts)"
  by (simp_all add: zmq_env_ok_def sample_zmq_def send_empties_def)

text \<open>
  C20. The callback answers every request whose first frame has four bytes, with two frames: a code and
  a body. The code is the one for success exactly if the command is known and comes with the
  right number of frames, which is also the value returned; the flags are left alone.
\<close>

theorem callback_replies:
  assumes "zmq_env_ok Z" and "recvMsgs \<noteq> []" and "length (hd recvMsgs) = 4"
  shows "\<exists>body w'. ZeroMQServerMessageCallback E Z recvMsgs w =
      Inr (request_ok recvMsgs, [le_bytes (if request_ok recvMsgs then z_succeeded Z else z_failed Z), body], w') \<and>
      vCheckFlag w' = vCheckFlag w"
  using callback_cases [of Z recvMsgs E w] assms by (auto simp: zmq_env_ok_def)

lemma callback_replies_witness:
  "\<exists>body w'. ZeroMQServerMessageCallback (sample_env (\<lambda>_. RecvAgain) 0) (sample_zmq []) [''PING''] fresh_world =
     Inr (True, [le_bytes 0x1000, body], w')"
proof -
  have "request_ok [''PING'']" by (simp add: request_ok_def command_ids)
  with callback_replies [of "sample_zmq []" "[''PING'']" "sample_env (\<lambda>_. RecvAgain) 0" fresh_world]
  show ?thesis by auto
qed

text \<open>
  The body of a status reply is a JSON object with one member for every service, in the order of the
  table, unless the table is empty: then it is the lone bracket \<open>}\<close>.
\<close>

theorem status_reply_json:
  "status_reply flags =
     (if flags = [] then ''}'' else ''{'' @ join_with '','' (map json_entry flags) @ ''}'')"
  using status_reply_join [of flags] by (auto simp: status_reply_def)

text \<open>
  C10. With the callback of the program the thread of the request server never fails, whatever arrives
  and whatever cppzmq answers or throws, and it hands exactly one reply to the socket for every
  request it receives.
\<close>

theorem one_reply_per_request:
  assumes "zmq_env_ok Z" and "zCallback srv = Some ZeroMQServerMessageCallback"
  shows "\<exists>w' cs. zmq_rounds E Z n srv w = Inr w' \<and> calls w' = calls w @ cs \<and> owed cs = 0"
  using assms by (rule zmq_rounds_shipped)

lemma one_reply_per_request_witness:
  "\<exists>w' cs. zmq_rounds (sample_env (\<lambda>_. RecvAgain) 0) (sample_zmq [''PING'']) 3 sample_server fresh_world = Inr w' \<and>
     calls w' = calls fresh_world @ cs \<and> owed cs = 0"
  by (rule one_reply_per_request) (simp_all add: sample_server_def)

text \<open>
  What one request adds to the counters: one command, succeeded or failed; every frame to the total
  and to one of its two shares; the size of every frame to the downloaded bytes.
\<close>

theorem request_counters:
  "counter_of (zs_name zs @ ''received_commands'') (calls (consumeZmqStats E zs rs ss ok t w)) =
     counter_of (zs_name zs @ ''received_commands'') (calls w) + 1 \<and>
   counter_of (zs_name zs @ ''succeeded_commands'') (calls (consumeZmqStats E zs rs ss ok t w)) =
     counter_of (zs_name zs @ ''succeeded_commands'') (calls w) + of_bool ok \<and>
   counter_of (zs_name zs @ ''total_command_parts'') (calls (consumeZmqStats E zs rs ss ok t w)) =
     counter_of (zs_name zs @ ''total_command_parts'') (calls w) + int (length rs) \<and>
   counter_of (zs_name zs @ ''failed_command_parts'') (calls (consumeZmqStats E zs rs ss ok t w)) =
     counter_of (zs_name zs @ ''failed_command_parts'') (calls w) + (if ok then 0 else int (length rs)) \<and>
   counter_of (zs_name zs @ ''downloaded_bytes'') (calls (consumeZmqStats E zs rs ss ok t w)) =
     counter_of (zs_name zs @ ''downloaded_bytes'') (calls w) + (\<Sum>r\<leftarrow>rs. dbl (int (length r)))"
  using consumeZmqStats_counters(1,3,5,6,7) [of zs E rs ss ok t w] by linarith

text \<open>
  The uploaded bytes of the request server stay what they were: the sizes are taken from the messages
  after they were sent, and libzmq has emptied them.
\<close>

theorem uploads_not_counted:
  assumes "send_empties Z" and "zIsActive (zsock srv)" and "zStats srv = Some zs"
    and "z_send Z (calls w) reply = ZSent (Some n) left"
    and "send_reply E Z srv msgs start ok reply w = (Inr (), w')"
  shows "counter_of (zs_name zs @ ''uploaded_bytes'') (calls w') =
     counter_of (zs_name zs @ ''uploaded_bytes'') (calls w)"
proof -
  have "left = map (\<lambda>_. []) reply" using assms(1,4) by (auto simp: send_empties_def)
  then obtain v now where w': "w' = consumeZmqStats E zs msgs (map (\<lambda>_. []) reply) ok now v"
    and v: "counter_of (zs_name zs @ ''uploaded_bytes'') (calls v) = counter_of (zs_name zs @ ''uploaded_bytes'') (calls w)"
    using assms(2-5)
    by (auto simp: send_reply_def sendMessages_def read_clock_def Let_def split: if_splits)
  show ?thesis
    unfolding w' using v consumeZmqStats_counters(8) [of zs E msgs "map (\<lambda>_. []) reply" ok now v]
      sum_list_empty [of reply] by linarith
qed

lemma uploads_not_counted_witness:
  "counter_of ''zeromq_uploaded_bytes'' (calls (snd (send_reply (sample_env (\<lambda>_. RecvAgain) 0) (sample_zmq [])
     sample_server [''PING''] 0 True [''code'', ''PONG''] fresh_world))) = 0"
proof -
  obtain w' where r: "send_reply (sample_env (\<lambda>_. RecvAgain) 0) (sample_zmq []) sample_server [''PING''] 0 True
      [''code'', ''PONG''] fresh_world = (Inr (), w')"
    by (simp add: send_reply_def sendMessages_def sample_server_def sample_zmq_def read_clock_def Let_def)
  show ?thesis
    using uploads_not_counted [OF sample_zmq_simps(2) _ _ _ r, of "\<lparr>zs_name = ''zeromq_''\<rparr>" 2 "[[], []]"]
    unfolding r by (simp add: sample_server_def)
qed

text \<open>
  C16. The request server can be shut down at any moment: \<open>shutdown\<close> stops and joins the thread before it
  touches the socket, so under every schedule it has the effect of one step after the rounds that were
  made before its first statement.
\<close>

theorem zmq_shutdown_any_schedule:
  assumes "zThread srv" and "2 \<le> count_list sched Owner"
  shows "run_moves (zmq_move E Z) sched (ZStopThread, srv, w) =
    bind_sum (zmq_rounds E Z (rounds_at sched 0) srv w) (\<lambda>w.
      case zmq_shutdown Z srv w of (r, srv, w) \<Rightarrow> Inr (ZReturned r, srv, w))"
proof -
  obtain n where n: "count_list sched Owner = Suc (Suc n)"
    using assms(2) by (metis add_2_eq_Suc le_Suc_ex)
  have "zmq_pc_ok (ZStopThread, srv, w)" by (simp add: zmq_pc_ok_def)
  from zmq_stop_order.any_schedule [OF this] show ?thesis
    by (simp only: n run_moves_append zmq_rounds_moves [OF assms(1)])
      (simp add: bind_sum_def zmq_statements del: replicate.simps split: sum.split)
qed

lemma zmq_shutdown_any_schedule_witness:
  "run_moves (zmq_move (sample_env (\<lambda>_. RecvAgain) 0) (sample_zmq [''PING'']))
      [Worker, Owner, Worker, Worker, Owner, Worker] (ZStopThread, sample_server, fresh_world) =
    bind_sum (zmq_rounds (sample_env (\<lambda>_. RecvAgain) 0) (sample_zmq [''PING'']) 1 sample_server fresh_world) (\<lambda>w.
      case zmq_shutdown (sample_zmq [''PING'']) sample_server w of (r, srv, w) \<Rightarrow> Inr (ZReturned r, srv, w))"
  using zmq_shutdown_any_schedule [of sample_server "[Worker, Owner, Worker, Worker, Owner, Worker]"]
  by (simp add: sample_server_def del: run_moves.simps zmq_rounds.simps)

text \<open>
  C29. A socket is never bound twice nor released twice: in any run of starts and stops, exceptions of
  the library included, the address is attached exactly while the object is active.
\<close>

theorem socket_attached_while_active:
  assumes "attached (zSocketAddr s) (calls w) = of_bool (zIsActive s)"
    and "fold (zmq_do Z) ops (s, w) = (s', w')"
  shows "attached (zSocketAddr s) (calls w') = of_bool (zIsActive s')"
  using zmq_run_ok [of "(s, w)" Z ops] assms by (auto simp: socket_ok_def)

lemma socket_attached_while_active_witness:
  "attached ''tcp'' (calls (snd (fold (zmq_do (sample_zmq [])) [OpStart, OpStart, OpStop, OpStart]
     (\<lparr>zIsActive = False, zIsBinded = True, zSocketAddr = ''tcp''\<rparr>, fresh_world)))) = 1"
proof -
  let ?x = "fold (zmq_do (sample_zmq [])) [OpStart, OpStart, OpStop, OpStart]
     (\<lparr>zIsActive = False, zIsBinded = True, zSocketAddr = ''tcp''\<rparr>, fresh_world)"
  obtain s' w' where x: "?x = (s', w')" by (cases ?x)
  then have "zIsActive s'" by (auto simp: zmq_start_def zmq_stop_def sample_zmq_def Let_def)
  with socket_attached_while_active [OF _ x] x show ?thesis by simp
qed

text \<open>
  The monitor's peer count is the number of connected events minus the number of disconnected ones,
  in 32-bit arithmetic. Accepted peers do not enter it, so on a bound socket it goes negative.
\<close>

theorem peer_count:
  "fst (fold (\<lambda>(ev, addr). monitor_event ev addr) evs (n, w)) =
     n + of_nat (count_list (map fst evs) Connected) - of_nat (count_list (map fst evs) Disconnected)"
  by (rule monitor_events_count)

section \<open>Metrics\<close>

text \<open>
  Registry ids are unique: as long as fewer than \<open>2 ^ 64\<close> registries were made, a new registry gets an
  id no other registry has, the id of the information registry is never given out although the
  first new id is computed by wrapping around it, and the other registries keep theirs.
\<close>

theorem new_registry_id:
  assumes "registries_ok ps" and "made ps < 2 ^ 64" and "createNewRegistry ps = (i, r, ps')"
  shows "getRegistry ps i = None \<and> getRegistry ps' = (getRegistry ps)(i \<mapsto> r) \<and> i \<noteq> - 1 \<and> registries_ok ps'"
  using registries.create_lookup [OF assms(1) _ assms(3)] registries.create_inv [OF assms(1) _ assms(3)] assms(2)
  by (simp add: registries_room_def)

lemma new_registry_id_witness:
  "\<exists>ps v ps'. PrometheusServer (sample_env (\<lambda>_. RecvAgain) 0) (\<lambda>_. None) ''p'' ''1'' ''a'' fresh_world = (Inr ps, v) \<and> createNewRegistry ps = (0, 1, ps') \<and>
     getRegistry ps 0 = None \<and> getRegistry ps' (- 1) = Some 0"
proof -
  obtain ps v where ps: "PrometheusServer (sample_env (\<lambda>_. RecvAgain) 0) (\<lambda>_. None) ''p'' ''1'' ''a'' fresh_world = (Inr ps, v)" "made ps = 1" by (simp add: PrometheusServer_Inr)
  obtain ps' where c: "createNewRegistry ps = (0, 1, ps')"
    using ps(1) by (auto simp: PrometheusServer_Inr createNewRegistry_def Let_def)
  have "registries_ok ps" "made ps < 2 ^ 64" using registries_ok_start [OF ps(1)] ps(2) by simp_all
  from new_registry_id [OF this c] have "getRegistry ps 0 = None" "getRegistry ps' (- 1) = getRegistry ps (- 1)"
    by simp_all
  moreover have "getRegistry ps (- 1) = Some 0" using ps(1) by (auto simp: PrometheusServer_Inr getRegistry_def)
  ultimately show ?thesis using ps(1) c by simp
qed

text \<open>
  Deleting never fails for an id other than the reserved one, whether it exists or not; the registry
  is gone afterwards, every other one stays, and deleting what was just created restores the table.
\<close>

theorem delete_registry:
  assumes "registries_ok ps" and "i \<noteq> - 1"
  shows "fst (deleteRegistry i ps) \<and> getRegistry (snd (deleteRegistry i ps)) = (getRegistry ps)(i := None) \<and>
    deleteRegistry (- 1) ps = (False, ps)"
  using registries.remove_lookup [OF assms(1), of i] assms(2) by (simp add: deleteRegistry_def)

lemma delete_registry_witness:
  "\<exists>ps v. PrometheusServer (sample_env (\<lambda>_. RecvAgain) 0) (\<lambda>_. None) ''p'' ''1'' ''a'' fresh_world = (Inr ps, v) \<and> fst (deleteRegistry 5 ps) \<and>
     getRegistry (snd (deleteRegistry 5 ps)) (- 1) = Some 0"
proof -
  obtain ps v where ps: "PrometheusServer (sample_env (\<lambda>_. RecvAgain) 0) (\<lambda>_. None) ''p'' ''1'' ''a'' fresh_world = (Inr ps, v)" by (simp add: PrometheusServer_Inr)
  have "registries_ok ps" using registries_ok_start [OF ps] by simp
  from delete_registry [OF this, of 5] have "fst (deleteRegistry 5 ps)"
    "getRegistry (snd (deleteRegistry 5 ps)) (- 1) = getRegistry ps (- 1)" by simp_all
  moreover have "getRegistry ps (- 1) = Some 0" using ps by (auto simp: PrometheusServer_Inr getRegistry_def)
  ultimately show ?thesis using ps by simp
qed

text \<open>
  C32. The registries refine a table: in any run of fewer than \<open>2 ^ 64\<close> creations and deletions,
  every creation adds a registry that is not in the table under an id that is neither in use nor
  that of the information registry, every deletion removes that id only, the information registry
  stays, and no registry is ever found under two ids.
\<close>

theorem registries_refine_map:
  assumes "PrometheusServer E exposer project revision addr w = (Inr ps, v)" and "length ops < 2 ^ 64"
  shows "table_run (- 1) [- 1 \<mapsto> 0] ops (getRegistry (fold reg_do ops ps)) \<and>
    getRegistry (fold reg_do ops ps) (- 1) = Some 0 \<and>
    inj_on (getRegistry (fold reg_do ops ps)) (dom (getRegistry (fold reg_do ops ps)))"
proof -
  have "getRegistry ps = [- 1 \<mapsto> 0]" "made ps + length ops \<le> 2 ^ 64"
    using assms by (auto simp: PrometheusServer_Inr getRegistry_def fun_eq_iff)
  with reg_run_refines [of ps ops] registries_ok_start [OF assms(1)]
  have "table_run (- 1) [- 1 \<mapsto> 0] ops (getRegistry (fold reg_do ops ps))" by simp
  from this table_run_reserved [OF this] table_run_inj [OF this] show ?thesis by simp
qed

lemma registries_refine_map_witness:
  "\<exists>ps v. PrometheusServer (sample_env (\<lambda>_. RecvAgain) 0) (\<lambda>_. None) ''p'' ''1'' ''a'' fresh_world = (Inr ps, v) \<and>
     table_run (- 1) [- 1 \<mapsto> 0] [Create, Delete 0, Create, Delete (- 1)]
       (getRegistry (fold reg_do [Create, Delete 0, Create, Delete (- 1)] ps)) \<and>
     getRegistry (fold reg_do [Create, Delete 0, Create, Delete (- 1)] ps) (- 1) = Some 0"
proof -
  obtain ps v where ps: "PrometheusServer (sample_env (\<lambda>_. RecvAgain) 0) (\<lambda>_. None) ''p'' ''1'' ''a'' fresh_world = (Inr ps, v)" by (simp add: PrometheusServer_Inr)
  from registries_refine_map [OF this, of "[Create, Delete 0, Create, Delete (- 1)]"] ps show ?thesis by simp
qed

text \<open>
  A \<open>StatusTracker\<close> driven by starts, successes and failures in any order: the total counter grows by
  the sum of the other two, and the gauge of active events stays between 0 and the events started.
\<close>

theorem status_tracker_consistent:
  assumes "gauge_law E" and "StatusTracker name i v = (st, v')" and "gauge_of (activeCtr st) (calls w) = 0"
    and "w' = fold (status_step E st) es w"
  shows "counter_of (totalCtr st) (calls w') - counter_of (totalCtr st) (calls w) =
      (counter_of (successCtr st) (calls w') - counter_of (successCtr st) (calls w)) +
      (counter_of (failedCtr st) (calls w') - counter_of (failedCtr st) (calls w)) \<and>
    0 \<le> gauge_of (activeCtr st) (calls w') \<and>
    gauge_of (activeCtr st) (calls w') \<le> int (count_list es Started)"
  using status_run [OF assms(1) StatusTracker_distinct [OF assms(2)], of w es] assms(3,4) by simp

lemma status_tracker_consistent_witness:
  "\<exists>st v. StatusTracker ''e'' 2 fresh_world = (st, v) \<and>
     0 \<le> gauge_of (activeCtr st) (calls (fold (status_step (sample_env (\<lambda>_. RecvAgain) 0) st)
        [Failed, Started, Succeeded] v))"
proof -
  obtain st v where st: "StatusTracker ''e'' 2 fresh_world = (st, v)" by fastforce
  have "gauge_of (activeCtr st) (calls v) = 0"
    using st by (auto simp: StatusTracker_def Let_def gauge_of_def)
  from status_tracker_consistent [OF sample_gauge_law st this refl] st show ?thesis by blast
qed

text \<open>
  The guard \<open>TrackStatus\<close> and the report of a success both decrement the gauge of active events: a block
  that reports its success leaves the gauge one below where it was, negative on a fresh tracker.
\<close>

theorem guarded_success_undercounts:
  assumes "gauge_law E" and "gauge_of (activeCtr st) (calls w) \<ge> 0"
  shows "gauge_of (activeCtr st) (calls (TrackStatus st (incrementSuccess E st) w)) =
     gauge_of (activeCtr st) (calls w) - 1"
  using assms by (simp add: TrackStatus_def incrementSuccess_def incrementActive_def decrementActive_def
      Let_def gauge_lawD)

lemma guarded_success_undercounts_witness:
  "gauge_of ''a'' (calls (TrackStatus \<lparr>activeCtr = ''a'', totalCtr = ''t'', successCtr = ''s'', failedCtr = ''f''\<rparr>
     (incrementSuccess (sample_env (\<lambda>_. RecvAgain) 0)
        \<lparr>activeCtr = ''a'', totalCtr = ''t'', successCtr = ''s'', failedCtr = ''f''\<rparr>) fresh_world)) = - 1"
  using guarded_success_undercounts [OF sample_gauge_law,
      of "\<lparr>activeCtr = ''a'', totalCtr = ''t'', successCtr = ''s'', failedCtr = ''f''\<rparr>" fresh_world] by simp

text \<open>
  The gauges of a \<open>PerformanceTracker\<close> over any run of timings: the minimum gauge ends as the smallest of
  its value before and the timings, the maximum gauge as the largest.
\<close>

theorem timing_gauges_range:
  assumes "gauge_law E"
  shows "gauge_of (status_metric name ''_minimum_processing_time_'' i) (calls (fold (perf_observe E name i) vs w)) =
      Min (insert (gauge_of (status_metric name ''_minimum_processing_time_'' i) (calls w)) (set vs)) \<and>
    gauge_of (status_metric name ''_maximum_processing_time_'' i) (calls (fold (perf_observe E name i) vs w)) =
      Max (insert (gauge_of (status_metric name ''_maximum_processing_time_'' i) (calls w)) (set vs))"
  using timing.range [OF assms, of name i vs w] by simp

lemma timing_gauges_range_witness:
  "gauge_of (status_metric ''x'' ''_maximum_processing_time_'' 0)
     (calls (fold (perf_observe (sample_env (\<lambda>_. RecvAgain) 0) ''x'' 0) [5, 9] fresh_world)) = 9"
  using timing_gauges_range [OF sample_gauge_law [of "\<lambda>_. RecvAgain" 0], of "''x''" 0 "[5, 9]" fresh_world] by simp

section \<open>Configuration and command line\<close>

text \<open>
  C31. What is saved is what a later load finds: after a successful \<open>save\<close>, a parser on the same path reads
  exactly the entries of the saved one, whatever it held before, provided no key or value holds a
  null byte.
\<close>

theorem saved_config_loads:
  assumes "json_law L" and "order_law L (configMap cp)" and "no_nul (configMap cp)"
    and "config_save L writable fs cp = Inr fs'" and "configPath cp' = configPath cp"
  shows "fst (config_load L fs' cp') \<and> isValid (snd (config_load L fs' cp')) \<and>
    configMap (snd (config_load L fs' cp')) = configMap cp"
  using load_saved [OF assms] by simp

definition one_config :: config_parser where
  "one_config = \<lparr>configPath = ''f'', configMap = [''k'' \<mapsto> ''v''], isValid = True, lastError = []\<rparr>"

text \<open>A JSON library for the example: it writes the members one after another, each ended by a null byte.\<close>

definition toy_write :: "(string \<times> string) list \<Rightarrow> string" where
  "toy_write ms = concat (map (\<lambda>(k, v). concat (map (\<lambda>c. [CHR 0x01, c]) k) @ [CHR 0x00] @
     concat (map (\<lambda>c. [CHR 0x01, c]) v) @ [CHR 0x00]) ms)"

fun toy_read :: "string \<Rightarrow> string \<Rightarrow> string list" where
  "toy_read acc [] = []"
| "toy_read acc [c] = [acc]"
| "toy_read acc (m # c # s) = (if m = CHR 0x00 then acc # toy_read [] (c # s) else toy_read (acc @ [c]) s)"

fun pair_up :: "string list \<Rightarrow> (string \<times> json_value) list" where
  "pair_up (k # v # s) = (k, JString v) # pair_up s"
| "pair_up _ = []"

lemma toy_read_word:
  "toy_read acc (concat (map (\<lambda>c. [CHR 0x01, c]) k) @ CHR 0x00 # s) = (acc @ k) # toy_read [] s"
proof (induction k arbitrary: acc)
  case Nil
  show ?case by (cases s) simp_all
qed simp

lemma toy_read_write: "pair_up (toy_read [] (toy_write ms)) = map (\<lambda>(k, v). (k, JString v)) ms"
  by (induction ms) (auto simp: toy_write_def toy_read_word)

definition toy_json :: json_lib where
  "toy_json = \<lparr>j_parse = (\<lambda>s. JObject (pair_up (toy_read [] s))), j_write = toy_write,
     j_order = (\<lambda>_. [(''k'', ''v'')])\<rparr>"

lemma toy_json_law: "json_law toy_json" "order_law toy_json (configMap one_config)"
  by (simp_all add: json_law_def order_law_def toy_json_def toy_read_write one_config_def)

lemma saved_config_loads_witness:
  "\<exists>fs. config_save toy_json (\<lambda>_. True) Map.empty one_config = Inr fs \<and>
     configMap (ConfigParser toy_json fs ''f'') = [''k'' \<mapsto> ''v'']"
proof -
  obtain fs where fs: "config_save toy_json (\<lambda>_. True) Map.empty one_config = Inr fs"
    by (simp add: config_save_def)
  let ?p = "\<lparr>configPath = ''f'', configMap = Map.empty, isValid = False, lastError = []\<rparr>"
  have "configMap (snd (config_load toy_json fs ?p)) = configMap one_config"
    using saved_config_loads [OF toy_json_law _ fs, of ?p] by (simp add: one_config_def no_nul_def)
  with fs show ?thesis by (simp add: ConfigParser_def one_config_def)
qed

text \<open>
  A load that fails leaves no setting behind: the object is invalid, every key reads as the empty
  string and the error message is not empty. A load that succeeds gives a repeated name its last value.
\<close>

theorem config_load_result:
  "if fst (config_load L fs cp)
   then isValid (snd (config_load L fs cp)) \<and>
     (\<exists>bytes members. fs (configPath cp) = Some bytes \<and> j_parse L bytes = JObject members \<and>
        configMap (snd (config_load L fs cp)) =
          map_of (rev (map (\<lambda>(n, v). (c_str n, value_text v)) members)))
   else \<not> isValid (snd (config_load L fs cp)) \<and> lastError (snd (config_load L fs cp)) \<noteq> [] \<and>
     config_get (snd (config_load L fs cp)) key = []"
  unfolding load_cases by (auto simp: config_get_def split: option.splits json_doc.splits)

text \<open>
  After any sequence of \<open>set\<close> and \<open>remove\<close>, \<open>get\<close> returns the value of the last change of its key: the
  value set, the empty string for a removal, and what was there before if nothing changed it.
\<close>

theorem config_last_change:
  "config_get (fold (\<lambda>c s. case c of KSet k v \<Rightarrow> config_set k v s | KRemove k \<Rightarrow> config_remove k s) ops cp) key =
     (case find (\<lambda>c. op_key c = key) (rev ops) of
        None \<Rightarrow> config_get cp key | Some (KSet k v) \<Rightarrow> v | Some (KRemove k) \<Rightarrow> [])"
  by (rule config.get_fold)

text \<open>
  The option parser reads back what a command line was made of: options with a dash, each followed by
  its value when it has one, come out as they went in.
\<close>

theorem options_roundtrip:
  assumes "proper_options opts"
  shows "getCmdOptions (InputParser (program # render_options opts)) = opts"
  using getCmdOptions_render [OF assms] by (simp add: InputParser_def)

lemma options_roundtrip_witness:
  "getCmdOptions (InputParser [''p'', ''-v'', ''--config'', ''c.json'']) = [(''-v'', []), (''--config'', ''c.json'')]"
  using options_roundtrip [of "[(''-v'', []), (''--config'', ''c.json'')]" "''p''"]
  by (simp add: is_option_def)

text \<open>
  The port option accepts trailing text: a decimal number below \<open>2 ^ 64\<close> reads as itself whatever
  follows it, as long as that does not start with a digit.
\<close>

theorem stoul_reads_prefix:
  assumes "n < 2 ^ 64" and "rest = [] \<or> \<not> is_digit (hd rest)"
  shows "stoul (dec_of_nat n @ rest) = Inr (of_nat n)"
  using assms by (rule stoul_dec(1))

lemma stoul_reads_prefix_witness: "stoul (dec_of_nat 23 @ ''xyz'') = Inr 23"
  using stoul_reads_prefix [of 23 "''xyz''"] by (simp add: is_digit_def)

section \<open>Files, process and crash handler\<close>

text \<open>
  C33. The loop of the file monitor, on the whole events the kernel delivers, stays in the buffer and finds
  out whether the mask of one of them meets the mask asked for.
\<close>

theorem scan_finds_matching_event:
  assumes "\<forall>ev \<in> set evs. length (ev_name ev) < 2 ^ 32"
  shows "scan_events m (concat (map encode_event evs) @ pad) (int (length (concat (map encode_event evs)))) 0 =
     Inr (\<exists>ev \<in> set evs. ev_mask ev AND m \<noteq> 0)"
  using scan_events_whole [OF assms, of m "[]" pad] by simp

lemma scan_finds_matching_event_witness:
  "scan_events 2 (concat (map encode_event [\<lparr>ev_wd = 1, ev_mask = 8, ev_cookie = 0, ev_name = ''ab''\<rparr>,
      \<lparr>ev_wd = 1, ev_mask = 2, ev_cookie = 0, ev_name = []\<rparr>]) @ []) 34 0 = Inr True"
  using scan_finds_matching_event [of "[\<lparr>ev_wd = 1, ev_mask = 8, ev_cookie = 0, ev_name = ''ab''\<rparr>,
      \<lparr>ev_wd = 1, ev_mask = 2, ev_cookie = 0, ev_name = []\<rparr>]" 2 "[]"]
  by (simp add: encode_event_def)

text \<open>
  The constructor of the file monitor leaks no descriptor: when it throws, what it opened is closed;
  when it returns, one descriptor is open, and the destructor closes it.
\<close>

theorem file_monitor_descriptor:
  assumes "FileMonitor fd wd nonblock path events w = (Inr fm, w')" and "FileMonitor_destroy a b e fm w' = (fm', w'')"
  shows "inotify_open (calls w'') = inotify_open (calls w) \<and> fDescriptor fm' = - 1 \<and>
    inotify_open (calls w') = inotify_open (calls w) + 1"
proof -
  have "fDescriptor fm \<ge> 0" using assms(1) by (auto simp: FileMonitor_def Let_def split: if_splits)
  then show ?thesis
    using FileMonitor_open [OF assms(1)] FileMonitor_destroy_open [OF _ assms(2)] assms(2)
    by (auto simp: FileMonitor_destroy_def Let_def)
qed

lemma file_monitor_descriptor_witness:
  "\<exists>fm w. FileMonitor 4 1 True ''f'' 2 fresh_world = (Inr fm, w) \<and>
     inotify_open (calls (snd (FileMonitor_destroy True True [] fm w))) = 0"
proof -
  obtain fm w where f: "FileMonitor 4 1 True ''f'' 2 fresh_world = (Inr fm, w)"
    by (simp add: FileMonitor_def Let_def)
  obtain fm' w' where d: "FileMonitor_destroy True True [] fm w = (fm', w')" by fastforce
  from file_monitor_descriptor [OF f d] f d show ?thesis by simp
qed

text \<open>
  With the file the kernel prints, \<open>getDiskIO\<close> reports how much the counters of bytes read and written
  grew since its last call, in wrapping 64-bit arithmetic, and remembers them for the next one; the
  line of cancelled writes, which matches the second pattern too, is not taken.
\<close>

theorem disk_io_growth:
  assumes "regex_law regex" and "rd < 2 ^ 64" and "wr < 2 ^ 64"
    and "pr_io_first r = Some (proc_io a b c d rd wr e)" and "pr_io_second r = Some (proc_io a b c d rd wr e)"
  shows "getDiskIO regex r pm =
     Inr ((of_nat rd - oldReadBytes pm, of_nat wr - oldWriteBytes pm),
       pm\<lparr>oldReadBytes := of_nat rd, oldWriteBytes := of_nat wr\<rparr>)"
  using assms by (rule getDiskIO_proc)

definition sample_reading :: proc_reading where
  "sample_reading = \<lparr>pr_maxrss = 100, pr_majflt = 0, pr_times = (5, 1), pr_io_first = Some (proc_io 1 2 3 4 4096 512 0),
     pr_io_second = Some (proc_io 1 2 3 4 4096 512 0), pr_tasks = Some 3, pr_fds = Some 6\<rparr>"

lemma disk_io_growth_witness:
  "getDiskIO (\<lambda>l p. str_contains p l) sample_reading
     \<lparr>pm_checkFlag = None, oldReadBytes = 96, oldWriteBytes = 500, oldCpuTime = 0, oldCpuUser = 0\<rparr> =
   Inr ((4000, 12), \<lparr>pm_checkFlag = None, oldReadBytes = 4096, oldWriteBytes = 512, oldCpuTime = 0, oldCpuUser = 0\<rparr>)"
  using disk_io_growth [of "\<lambda>l p. str_contains p l" 4096 512 sample_reading 1 2 3 4 0
      "\<lparr>pm_checkFlag = None, oldReadBytes = 96, oldWriteBytes = 500, oldCpuTime = 0, oldCpuUser = 0\<rparr>"]
  by (simp add: sample_reading_def regex_law_def)

text \<open>
  The watchdog of the crash handler never gives up: its counter of failed checks is reset in every
  round, so whatever the checks find, the thread runs until it is stopped and sets the flag in
  every round, also when the handler is gone.
\<close>

theorem tracer_never_gives_up:
  "tracer_threadFunc checkFlag probes w = (False, fold (\<lambda>_. set_flag checkFlag) probes w)"
  by (simp add: tracer_threadFunc_def tracer_loop_zero)

end
