(* ===== verification/RawSocket.thy ===== *)
theory RawSocket
  imports World
begin

text \<open>
  \<open>src/connection/RawSocket.cpp\<close>, \<open>include/connection/RawSocket.hpp\<close>: a packet socket on an
  interface, for reading or for writing, with counters of the bytes moved. The kernel is the
  parameter \<open>raw_env\<close>; \<open>r_errno\<close> is what \<open>strerror_r\<close> gives for the error of the last call.
\<close>

record raw_env =
  r_ifindex :: "call list \<Rightarrow> string \<Rightarrow> int"
  r_socket :: "call list \<Rightarrow> int \<Rightarrow> int \<Rightarrow> int \<Rightarrow> int"   \<comment> \<open>domain, type, protocol\<close>
  r_bind :: "call list \<Rightarrow> int \<Rightarrow> int \<Rightarrow> int"            \<comment> \<open>socket, index of the interface in \<open>_addr\<close>\<close>
  r_setsockopt :: "call list \<Rightarrow> int \<Rightarrow> int"
  r_write :: "call list \<Rightarrow> int \<Rightarrow> string \<Rightarrow> int"
  r_read :: "call list \<Rightarrow> int \<Rightarrow> nat \<Rightarrow> int \<times> string"   \<comment> \<open>result, bytes stored in the buffer\<close>
  r_errno :: "call list \<Rightarrow> strerror_answer"
  r_clock :: "call list \<Rightarrow> nanos"

record raw_stats =
  sentBytes :: size_t
  receivedBytes :: size_t
  processingTime :: int

record raw_socket =
  isReady :: bool
  writeMode :: bool
  sockFd :: int
  iFace :: string
  raw_stats :: raw_stats

definition EPERM :: int where [eval_simps]: "EPERM = 1"
definition IFNAMSIZ :: nat where [eval_simps]: "IFNAMSIZ = 16"

text \<open>The constants of the socket calls; \<open>PF_PACKET\<close> is \<open>AF_PACKET\<close>.\<close>

definition AF_PACKET :: int where [eval_simps]: "AF_PACKET = 17"
definition SOCK_RAW :: int where [eval_simps]: "SOCK_RAW = 3"
definition IPPROTO_RAW :: int where [eval_simps]: "IPPROTO_RAW = 255"
definition htons_ETH_P_ALL :: int where [eval_simps]: "htons_ETH_P_ALL = 0x0300"

definition raw_stats0 :: raw_stats where
  "raw_stats0 = \<lparr>sentBytes = 0, receivedBytes = 0, processingTime = 0\<rparr>"

definition raw_sys :: "sys_call \<Rightarrow> world \<Rightarrow> world" where
  "raw_sys c w = emit (Sys c) w"

lemma raw_sys_simps [simp]: "calls (raw_sys c w) = calls w @ [Sys c]" "vCheckFlag (raw_sys c w) = vCheckFlag w"
  by (simp_all add: raw_sys_def)

section \<open>Construction\<close>

text \<open>
  \<open>init\<close>: the descriptor, or the text of the exception. Of the address \<open>_addr\<close> only the index of
  the interface varies.
\<close>

definition raw_init :: "raw_env \<Rightarrow> int \<Rightarrow> int \<Rightarrow> int \<Rightarrow> int \<Rightarrow> world \<Rightarrow> (string + int) \<times> world" where
  "raw_init R ifindex domain type protocol w =
     (let fd = r_socket R (calls w) domain type protocol;
          w = emit (Socket fd) w
      in if fd < 0 then (Inl (getErrnoString (r_errno R (calls w))), w)
         else
           let r = r_bind R (calls w) fd ifindex;
               w = emit (Bind fd r) w
           in if r < 0 then (Inl (''Bind failed: '' @ getErrnoString (r_errno R (calls w))), w) else (Inr fd, w))"

definition RawSocket :: "raw_env \<Rightarrow> string \<Rightarrow> bool \<Rightarrow> world \<Rightarrow> (string + raw_socket) \<times> world" where
  "RawSocket R iface isWrite w =
     (let ifindex = r_ifindex R (calls w) (c_str iface);
          w = raw_sys (IfNameToIndex (c_str iface) ifindex) w
      in if ifindex = 0 then (Inl (''Can't find interface: '' @ getErrnoString (r_errno R (calls w))), w)
         else
           let maxIfaceNameLen = IFNAMSIZ - 1;
               ifr_name = take (if length iface < maxIfaceNameLen then length iface else maxIfaceNameLen) iface
           in case raw_init R ifindex AF_PACKET SOCK_RAW (if isWrite then IPPROTO_RAW else htons_ETH_P_ALL) w of
                (Inl e, w) \<Rightarrow> (Inl e, w)
              | (Inr fd, w) \<Rightarrow>
                  (let ready = \<lparr>isReady = True, writeMode = isWrite, sockFd = fd, iFace = iface,
                                raw_stats = raw_stats0\<rparr>
                   in if isWrite
                      then let r = r_setsockopt R (calls w) fd;
                               w = raw_sys (BindDevice fd ifr_name r) w
                           in if r < 0
                              then (Inl (''Can't set socket options: '' @ getErrnoString (r_errno R (calls w))), w)
                              else (Inr ready, w)
                      else (Inr ready, w)))"

definition RawSocket_destroy :: "raw_socket \<Rightarrow> world \<Rightarrow> world" where
  "RawSocket_destroy s w = emit (Close (sockFd s)) w"

section \<open>Reading and writing\<close>

text \<open>\<open>static_cast<int>\<close> of an \<open>ssize_t\<close>.\<close>

definition to_int :: "int \<Rightarrow> int" where
  "to_int r = sint (word_of_int r :: 32 word)"

definition raw_clock :: "raw_env \<Rightarrow> world \<Rightarrow> nanos \<times> world" where
  "raw_clock R w = (let t = r_clock R (calls w) in (t, emit (Clock t) w))"

definition add_time :: "int \<Rightarrow> raw_stats \<Rightarrow> raw_stats" where
  "add_time d st = st\<lparr>processingTime := dbl (processingTime st + dbl d)\<rparr>"

definition writeData :: "raw_env \<Rightarrow> string \<Rightarrow> raw_socket \<Rightarrow> world \<Rightarrow> int \<times> raw_socket \<times> world" where
  "writeData R data s w =
     (if \<not> isReady s \<or> \<not> writeMode s then (- EPERM, s, w)
      else
        let (start, w) = raw_clock R w;
            r = r_write R (calls w) (sockFd s) data;
            w = raw_sys (RawWrite (sockFd s) data r) w;
            retval = to_int r;
            (now, w) = raw_clock R w;
            st = add_time (now - start) (raw_stats s);
            st = (if retval > 0 then st\<lparr>sentBytes := sentBytes st + of_int retval\<rparr> else st)
        in (retval, s\<lparr>raw_stats := st\<rparr>, w))"

definition readData :: "raw_env \<Rightarrow> nat \<Rightarrow> raw_socket \<Rightarrow> world \<Rightarrow> (int \<times> string) \<times> raw_socket \<times> world" where
  "readData R dataLen s w =
     (if \<not> isReady s \<or> writeMode s then ((- EPERM, []), s, w)
      else
        let (start, w) = raw_clock R w;
            (r, data) = r_read R (calls w) (sockFd s) dataLen;
            w = raw_sys (RawRead (sockFd s) dataLen r) w;
            retval = to_int r;
            (now, w) = raw_clock R w;
            st = add_time (now - start) (raw_stats s);
            st = (if retval > 0 then st\<lparr>receivedBytes := receivedBytes st + of_int retval\<rparr> else st)
        in ((retval, data), s\<lparr>raw_stats := st\<rparr>, w))"

definition raw_getStats :: "bool \<Rightarrow> raw_socket \<Rightarrow> raw_stats \<times> raw_socket" where
  "raw_getStats resetInternalStats s =
     (if resetInternalStats then (raw_stats s, s\<lparr>raw_stats := raw_stats0\<rparr>) else (raw_stats s, s))"

section \<open>Runs of operations\<close>

datatype raw_op = OpWrite string | OpRead nat | OpStats bool

text \<open>One operation on the object, with what was reported by the statistics calls so far.\<close>

fun raw_do :: "raw_env \<Rightarrow> raw_op \<Rightarrow> raw_stats list \<times> raw_socket \<times> world \<Rightarrow> raw_stats list \<times> raw_socket \<times> world" where
  "raw_do R (OpWrite data) (out, s, w) = (let (_, s, w) = writeData R data s w in (out, s, w))"
| "raw_do R (OpRead n) (out, s, w) = (let (_, s, w) = readData R n s w in (out, s, w))"
| "raw_do R (OpStats reset) (out, s, w) =
     (let (st, s) = raw_getStats reset s in (if reset then out @ [st] else out, s, w))"

text \<open>The bytes the kernel took and gave, by the results the calls report.\<close>

fun written :: "call list \<Rightarrow> size_t" where
  "written [] = 0"
| "written (Sys (RawWrite fd data r) # cs) = of_int (max 0 (to_int r)) + written cs"
| "written (_ # cs) = written cs"

fun read_in :: "call list \<Rightarrow> size_t" where
  "read_in [] = 0"
| "read_in (Sys (RawRead fd n r) # cs) = of_int (max 0 (to_int r)) + read_in cs"
| "read_in (_ # cs) = read_in cs"

lemma written_append [simp]: "written (cs @ ds) = written cs + written ds"
  by (induction cs rule: written.induct) auto

lemma read_in_append [simp]: "read_in (cs @ ds) = read_in cs + read_in ds"
  by (induction cs rule: read_in.induct) auto

text \<open>
  The account of an object: what its statistics hold and what was reported before each reset
  adds up to what the kernel moved since \<open>w0\<close>, and only calls of its mode were made.
\<close>

definition raw_account :: "call list \<Rightarrow> raw_stats list \<times> raw_socket \<times> world \<Rightarrow> bool" where
  "raw_account cs0 m \<longleftrightarrow>
     (case m of (out, s, w) \<Rightarrow>
        \<exists>cs. calls w = cs0 @ cs \<and>
          written cs = sum_list (map sentBytes out) + sentBytes (raw_stats s) \<and>
          read_in cs = sum_list (map receivedBytes out) + receivedBytes (raw_stats s) \<and>
          (\<forall>fd data r. Sys (RawWrite fd data r) \<in> set cs \<longrightarrow> writeMode s) \<and>
          (\<forall>fd n r. Sys (RawRead fd n r) \<in> set cs \<longrightarrow> \<not> writeMode s))"

lemma raw_do_account:
  assumes "raw_account cs0 m"
  shows "raw_account cs0 (raw_do R op m)"
proof (cases op)
  case (OpWrite data)
  obtain out s w where m: "m = (out, s, w)" by (cases m) auto
  show ?thesis
    using assms unfolding m OpWrite
    by (auto simp: raw_account_def writeData_def raw_clock_def add_time_def Let_def max_def)
next
  case (OpRead n)
  obtain out s w where m: "m = (out, s, w)" by (cases m) auto
  show ?thesis
    using assms unfolding m OpRead
    by (auto simp: raw_account_def readData_def raw_clock_def add_time_def Let_def max_def split: prod.splits)
next
  case (OpStats reset)
  obtain out s w where m: "m = (out, s, w)" by (cases m) auto
  show ?thesis
    using assms unfolding m OpStats
    by (auto simp: raw_account_def raw_getStats_def raw_stats0_def)
qed

lemma raw_run_account:
  "raw_account cs0 m \<Longrightarrow> raw_account cs0 (fold (raw_do R) ops m)"
proof (induction ops arbitrary: m)
  case (Cons op ops)
  from Cons.IH [OF raw_do_account [OF Cons.prems]] show ?case by (simp only: fold_simps)
qed simp

text \<open>What the constructor opens, and what is left open when it throws.\<close>

lemma RawSocket_result:
  assumes "RawSocket R iface isWrite w = (res, w')"
  obtains cs where "calls w' = calls w @ cs" and "closes cs = []"
    and "case res of Inr s \<Rightarrow> opens cs = [sockFd s] \<and> sockFd s \<ge> 0 \<and> isReady s \<and> writeMode s = isWrite
         | Inl e \<Rightarrow> length (opens cs) \<le> 1"
  using assms that
  by (auto simp: RawSocket_def raw_init_def raw_sys_def emit_emits Let_def split: if_splits sum.splits prod.splits)

end
