(* ===== verification/Http.thy ===== *)
theory Http
  imports World
begin

text \<open>
  \<open>src/connection/Http.cpp\<close>, \<open>include/connection/Http.hpp\<close>: the HTTP client the Loki sink uses.
  libcurl is the parameter \<open>http_env\<close>: whether a handle is made, what a transfer returns and
  delivers to the write callback, what \<open>curl_easy_getinfo\<close> reads.
\<close>

record http_env =
  h_init :: "call list \<Rightarrow> bool"
  h_perform :: "call list \<Rightarrow> int \<times> string list \<times> int"
    \<comment> \<open>result, blocks handed to the write callback, response code of the server\<close>
  h_info :: "call list \<Rightarrow> string \<Rightarrow> int option"   \<comment> \<open>None when the call fails\<close>
  h_xxx_max :: int                                \<comment> \<open>\<open>HttpStatus::Code::xxx_max\<close>\<close>

definition CURLE_OK :: int where [eval_simps]: "CURLE_OK = 0"
definition HTTP_TIMEOUT_MS :: int where [eval_simps]: "HTTP_TIMEOUT_MS = 1000"

definition curl :: "curl_call \<Rightarrow> world \<Rightarrow> world" where
  "curl c w = emit (Curl c) w"

lemma curl_simps [simp]:
  "calls (curl c w) = calls w @ [Curl c]" "vCheckFlag (curl c w) = vCheckFlag w"
  by (simp_all add: curl_def)

section \<open>The object\<close>

record http =
  h_data :: string               \<comment> \<open>\<open>_data->data\<close>\<close>
  h_hostAddr :: string

definition HTTP :: "http_env \<Rightarrow> string \<Rightarrow> int \<Rightarrow> world \<Rightarrow> (string + http) \<times> world" where
  "HTTP H addr timeoutInMs w =
     (let ok = h_init H (calls w);
          w = curl (CurlHandle ok) w
      in if \<not> ok then (Inl ''Can't init curl context'', w)
         else
           let w = curl (CurlLong ''VERBOSE'' 0) w;
               w = curl (CurlLong ''FOLLOWLOCATION'' 1) w;
               w = curl (CurlLong ''TIMEOUT_MS'' timeoutInMs) w;
               w = curl (CurlLong ''CONNECTTIMEOUT_MS'' timeoutInMs) w;
               w = curl CurlWriteFunction w;
               w = curl (CurlLong ''SSLENGINE_DEFAULT'' 1) w;
               w = curl (CurlLong ''SSLVERSION'' 6) w     \<comment> \<open>\<open>CURL_SSLVERSION_TLSv1_2\<close>\<close>
           in (Inr \<lparr>h_data = [], h_hostAddr = addr\<rparr>, w))"

definition HTTP_destroy :: "world \<Rightarrow> world" where
  "HTTP_destroy w = curl CurlFree w"

text \<open>\<open>setOption\<close> with a number; \<open>answer\<close> is what \<open>curl_easy_setopt\<close> returns for it.\<close>

definition setOption :: "(string \<Rightarrow> int \<Rightarrow> int) \<Rightarrow> string \<Rightarrow> int \<Rightarrow> world \<Rightarrow> bool \<times> world" where
  "setOption answer opt v w = (answer opt v = CURLE_OK, curl (CurlLong opt v) w)"

definition setCommonFields :: "string \<Rightarrow> string \<Rightarrow> http \<Rightarrow> world \<Rightarrow> http \<times> world" where
  "setCommonFields fullURL method h w =
     (let h = h\<lparr>h_data := []\<rparr>;
          w = curl (CurlUrl (c_str fullURL)) w;
          w = curl CurlWriteData w;
          w = curl (CurlLong method 1) w
      in (h, w))"

definition setCommonFieldsPayload ::
    "string \<Rightarrow> string \<Rightarrow> string \<Rightarrow> http \<Rightarrow> world \<Rightarrow> http \<times> world" where
  "setCommonFieldsPayload fullURL method payload h w =
     (let h = h\<lparr>h_data := []\<rparr>;
          w = curl (CurlPostFields payload) w;
          w = curl (CurlLong ''POSTFIELDSIZE_LARGE'' (int (length payload))) w;
          w = curl (CurlUrl (c_str fullURL)) w;
          w = curl CurlWriteData w;
          w = curl (CurlLong method 1) w
      in (h, w))"

text \<open>
  The write callback with the number of bytes it reports and the string it appends to. libcurl
  passes a block of \<open>sz * nmemb\<close> bytes.
\<close>

definition writeDataCallback :: "string \<Rightarrow> size_t \<Rightarrow> size_t \<Rightarrow> string option \<Rightarrow> size_t \<times> string option" where
  "writeDataCallback contents sz nmemb userp =
     (case userp of
        None \<Rightarrow> (0, None)
      | Some s \<Rightarrow> (let recvSize = sz * nmemb in (recvSize, Some (s @ take (unat recvSize) contents))))"

text \<open>A transfer: libcurl hands over each block as elements of size 1.\<close>

definition deliver_block :: "string \<Rightarrow> http \<Rightarrow> http" where
  "deliver_block block h =
     (case writeDataCallback block 1 (of_nat (length block)) (Some (h_data h)) of
        (_, Some s) \<Rightarrow> h\<lparr>h_data := s\<rparr>
      | (_, None) \<Rightarrow> h)"

definition performRequest :: "http_env \<Rightarrow> http \<Rightarrow> world \<Rightarrow> (int \<times> string \<times> int) \<times> http \<times> world" where
  "performRequest H h w =
     (let (retval, blocks, code) = h_perform H (calls w);
          h = fold deliver_block blocks h;
          w = curl (CurlPerform retval) w;
          status = h_xxx_max H;
          (status, w) = (if retval = CURLE_OK then (code, curl (CurlInfo ''RESPONSE_CODE'') w) else (status, w))
      in ((retval, h_data h, status), h, w))"

text \<open>The requests return the result, the data received and the status code.\<close>

definition sendGETRequest :: "http_env \<Rightarrow> string \<Rightarrow> http \<Rightarrow> world \<Rightarrow> (int \<times> string \<times> int) \<times> http \<times> world" where
  "sendGETRequest H index h w =
     (let (h, w) = setCommonFields (h_hostAddr h @ index) ''HTTPGET'' h w in performRequest H h w)"

definition sendHEADRequest :: "http_env \<Rightarrow> string \<Rightarrow> http \<Rightarrow> world \<Rightarrow> (int \<times> string \<times> int) \<times> http \<times> world" where
  "sendHEADRequest H index h w =
     (let (h, w) = setCommonFields (h_hostAddr h @ index) ''NOBODY'' h w in performRequest H h w)"

definition sendPOSTRequest ::
    "http_env \<Rightarrow> string \<Rightarrow> string \<Rightarrow> http \<Rightarrow> world \<Rightarrow> (int \<times> string \<times> int) \<times> http \<times> world" where
  "sendPOSTRequest H index payload h w =
     (let (h, w) = setCommonFieldsPayload (h_hostAddr h @ index) ''POST'' payload h w
      in performRequest H h w)"

definition sendPUTRequest ::
    "http_env \<Rightarrow> string \<Rightarrow> string \<Rightarrow> http \<Rightarrow> world \<Rightarrow> (int \<times> string \<times> int) \<times> http \<times> world" where
  "sendPUTRequest H index payload h w =
     (let (h, w) = setCommonFieldsPayload (h_hostAddr h @ index) ''UPLOAD'' payload h w
      in performRequest H h w)"

section \<open>\<open>getStats\<close>\<close>

record http_stats =
  hs_uploadBytes :: size_t
  hs_downloadBytes :: size_t
  hs_headerBytes :: size_t
  hs_requestBytes :: size_t
  hs_uploadSpeed :: int
  hs_downloadSpeed :: int
  hs_connectionTime :: int
  hs_nameLookupTime :: int
  hs_preTransferTime :: int
  hs_redirectTime :: int
  hs_startTransferTime :: int
  hs_totalTime :: int

text \<open>One \<open>curl_easy_getinfo\<close>; the variable keeps its value when the call fails.\<close>

definition read_info :: "http_env \<Rightarrow> string \<Rightarrow> int \<Rightarrow> world \<Rightarrow> int \<times> world" where
  "read_info H name value w =
     (case h_info H (calls w) name of None \<Rightarrow> value | Some v \<Rightarrow> v, curl (CurlInfo name) w)"

definition http_getStats :: "http_env \<Rightarrow> world \<Rightarrow> http_stats \<times> world" where
  "http_getStats H w =
     (let (up, w) = read_info H ''SIZE_UPLOAD_T'' 0 w;
          (down, w) = read_info H ''SIZE_DOWNLOAD_T'' up w;
          (header, w) = read_info H ''HEADER_SIZE'' down w;
          (request, w) = read_info H ''REQUEST_SIZE'' header w;
          (upspeed, w) = read_info H ''SPEED_UPLOAD_T'' request w;
          (downspeed, w) = read_info H ''SPEED_DOWNLOAD_T'' upspeed w;
          (connect, w) = read_info H ''CONNECT_TIME_T'' downspeed w;
          (lookup, w) = read_info H ''NAMELOOKUP_TIME_T'' connect w;
          (pretransfer, w) = read_info H ''PRETRANSFER_TIME_T'' lookup w;
          (redirect, w) = read_info H ''REDIRECT_TIME_T'' pretransfer w;
          (starttransfer, w) = read_info H ''STARTTRANSFER_TIME_T'' redirect w;
          (total, w) = read_info H ''TOTAL_TIME_T'' starttransfer w
      in (\<lparr>hs_uploadBytes = of_int up, hs_downloadBytes = of_int down, hs_headerBytes = of_int header,
           hs_requestBytes = of_int request, hs_uploadSpeed = upspeed, hs_downloadSpeed = downspeed,
           hs_connectionTime = connect, hs_nameLookupTime = lookup, hs_preTransferTime = pretransfer,
           hs_redirectTime = redirect, hs_startTransferTime = starttransfer, hs_totalTime = total\<rparr>, w))"

section \<open>What a request returns\<close>

text \<open>Blocks shorter than \<open>2 ^ 64\<close> bytes are taken whole.\<close>

definition blocks_ok :: "http_env \<Rightarrow> bool" where
  "blocks_ok H \<longleftrightarrow> (\<forall>cs. \<forall>b \<in> set (fst (snd (h_perform H cs))). length b < 2 ^ 64)"

lemma deliver_block_append:
  "length b < 2 ^ 64 \<Longrightarrow> deliver_block b h = h\<lparr>h_data := h_data h @ b\<rparr>"
  by (simp add: deliver_block_def writeDataCallback_def Let_def unat_of_nat)

lemma deliver_blocks:
  "\<forall>b \<in> set bs. length b < 2 ^ 64 \<Longrightarrow> fold deliver_block bs h = h\<lparr>h_data := h_data h @ concat bs\<rparr>"
  by (induction bs arbitrary: h) (simp_all add: deliver_block_append)

lemma performRequest_result:
  assumes "blocks_ok H"
  shows "performRequest H h w =
    (let (retval, blocks, code) = h_perform H (calls w)
     in ((retval, h_data h @ concat blocks, if retval = CURLE_OK then code else h_xxx_max H),
         h\<lparr>h_data := h_data h @ concat blocks\<rparr>,
         emits (Curl (CurlPerform retval) #
           (if retval = CURLE_OK then [Curl (CurlInfo ''RESPONSE_CODE'')] else [])) w))"
proof -
  have "\<forall>b \<in> set (fst (snd (h_perform H (calls w)))). length b < 2 ^ 64"
    using assms by (simp add: blocks_ok_def)
  then show ?thesis
    by (cases "h_perform H (calls w)")
      (simp add: performRequest_def deliver_blocks curl_def emit_emits)
qed

end
