(* ===== verification/Logging.thy ===== *)
theory Logging
  imports Http FileWatch
begin

text \<open>
  The log sinks of the program: \<open>src/logging/Loki.cpp\<close> (batches records and posts them),
  \<open>src/logging/Sentry.cpp\<close> (forwards warnings and errors) and \<open>src/logging/Logger.cpp\<close>, which
  registers both behind spdlog's duplicate filter. spdlog is a parameter: what the filter hands on
  for a record is an argument.
\<close>

section \<open>What the sinks are told about the build and the host\<close>

record build_info =
  bi_name :: string                  \<comment> \<open>\<open>PROJECT_NAME\<close>\<close>
  bi_revision :: string              \<comment> \<open>\<open>PROJECT_FULL_REVISION\<close>\<close>
  bi_date :: string
  bi_time :: string
  bi_compiler :: string
  bi_compiler_version :: string
  bi_build :: string

record host_info =
  hi_hostname :: string
  hi_cpuinfo :: "nat \<Rightarrow> string option"            \<comment> \<open>\<open>/proc/cpuinfo\<close>, as each read finds it\<close>
  hi_regex :: "string \<Rightarrow> string \<Rightarrow> bool"           \<comment> \<open>\<open>std::regex_search\<close>: line, pattern\<close>

text \<open>The four fields of \<open>/proc/cpuinfo\<close> both sinks read; a field that is not found repeats the last one.\<close>

fun cpu_fields :: "host_info \<Rightarrow> nat \<Rightarrow> string list \<Rightarrow> string \<Rightarrow> string list" where
  "cpu_fields hi n [] word = []"
| "cpu_fields hi n (pattern # ps) word =
     (let word = snd (findFromFile (hi_regex hi) (hi_cpuinfo hi n) pattern word)
      in word # cpu_fields hi (Suc n) ps word)"

definition cpu_patterns :: "string list" where
  "cpu_patterns = [''^siblings'', ''^(cpu cores)'', ''^(model name)'', ''^vendor_id'']"

section \<open>The Loki sink\<close>

record log_msg =
  lm_level :: log_level
  lm_time :: nanos
  lm_payload :: string

type_synonym log_stream = "string \<times> (string \<times> string) list"

record loki_sink =
  lokiAvailable :: bool
  connHandler :: "http option"
  basicInformation :: string
  internalLogBuffer :: "log_stream list"

definition QUOTE :: string where [eval_simps]: "QUOTE = [CHR 0x22]"

definition loki_label :: "string \<Rightarrow> string \<Rightarrow> string" where
  "loki_label name v = QUOTE @ name @ QUOTE @ '':'' @ QUOTE @ v @ QUOTE @ '',''"

definition basic_information :: "build_info \<Rightarrow> host_info \<Rightarrow> string" where
  "basic_information bi hi =
     (let cpu = cpu_fields hi 0 cpu_patterns []
      in loki_label ''release_version'' (''v'' @ bi_revision bi) @
         loki_label ''release_date'' (bi_date bi @ '' '' @ bi_time bi) @
         loki_label ''compiler_name'' (bi_compiler bi) @
         loki_label ''compiler_version'' (bi_compiler_version bi) @
         loki_label ''build'' (bi_build bi) @
         loki_label ''hostname'' (c_str (hi_hostname hi)) @
         loki_label ''cpu_threadcount'' (cpu ! 0) @ loki_label ''cpu_corecount'' (cpu ! 1) @
         loki_label ''cpu_model'' (cpu ! 2) @ loki_label ''cpu_vendorid'' (cpu ! 3))"

definition loki_api_sink ::
    "http_env \<Rightarrow> build_info \<Rightarrow> host_info \<Rightarrow> string \<Rightarrow> world \<Rightarrow> (string + loki_sink) \<times> world" where
  "loki_api_sink H bi hi lokiAddress w =
     (if lokiAddress = []
      then (Inr \<lparr>lokiAvailable = False, connHandler = None, basicInformation = [], internalLogBuffer = []\<rparr>, w)
      else case HTTP H lokiAddress HTTP_TIMEOUT_MS w of
             (Inl e, w) \<Rightarrow> (Inl e, w)
           | (Inr h, w) \<Rightarrow>
               (Inr \<lparr>lokiAvailable = True, connHandler = Some h, basicInformation = basic_information bi hi,
                     internalLogBuffer = map (\<lambda>l. (l, [])) [''debug'', ''info'', ''warn'', ''error'', ''critical'']\<rparr>, w))"

definition loki_sink_it :: "log_msg \<Rightarrow> loki_sink \<Rightarrow> loki_sink" where
  "loki_sink_it msg s =
     (if \<not> lokiAvailable s then s
      else if lm_level msg \<ge> debug \<and> lm_level msg \<le> critical
      then let i = level_num (lm_level msg) - 1;
               (level, logs) = internalLogBuffer s ! i
           in s\<lparr>internalLogBuffer := (internalLogBuffer s)
                  [i := (level, logs @ [(dec_of_int (lm_time msg), lm_payload msg)])]\<rparr>
      else s)"

text \<open>The two loops of \<open>flush_\<close>, with their flags for the separating commas.\<close>

fun flush_values :: "bool \<Rightarrow> (string \<times> string) list \<Rightarrow> string" where
  "flush_values subflag [] = []"
| "flush_values subflag (subentry # rest) =
     (if subflag then '','' else []) @
     ''['' @ QUOTE @ fst subentry @ QUOTE @ '','' @ QUOTE @ snd subentry @ QUOTE @ '']'' @
     flush_values True rest"

fun flush_streams :: "string \<Rightarrow> bool \<Rightarrow> log_stream list \<Rightarrow> bool \<times> string \<times> log_stream list" where
  "flush_streams labels flag [] = (flag, [], [])"
| "flush_streams labels flag (entry # rest) =
     (if snd entry = []
      then let (flag, text, rest) = flush_streams labels flag rest in (flag, text, entry # rest)
      else let text = (if flag then '','' else []) @
                 ''{'' @ QUOTE @ ''stream'' @ QUOTE @ '':{'' @ labels @ QUOTE @ ''level'' @ QUOTE @ '':'' @ QUOTE @
                 fst entry @ QUOTE @ ''},'' @ QUOTE @ ''values'' @ QUOTE @ '':['' @
                 flush_values False (snd entry) @ '']}'';
               (flag, text', rest) = flush_streams labels True rest
           in (flag, text @ text', (fst entry, []) # rest))"

definition loki_flush :: "http_env \<Rightarrow> loki_sink \<Rightarrow> world \<Rightarrow> fault + loki_sink \<times> world" where
  "loki_flush H s w =
     (let (flag, text, buffer) = flush_streams (basicInformation s) False (internalLogBuffer s);
          sStream = ''{'' @ QUOTE @ ''streams'' @ QUOTE @ '':['' @ text @ '']}'';
          s = s\<lparr>internalLogBuffer := buffer\<rparr>
      in if flag
         then case connHandler s of
                None \<Rightarrow> Inl NullDeref
              | Some h \<Rightarrow>
                  (let (_, h, w) = sendPOSTRequest H ''/loki/api/v1/push'' sStream h w
                   in Inr (s\<lparr>connHandler := Some h\<rparr>, w))
         else Inr (s, w))"

text \<open>The destructor releases the HTTP object.\<close>

definition loki_destroy :: "loki_sink \<Rightarrow> world \<Rightarrow> world" where
  "loki_destroy s w = (case connHandler s of None \<Rightarrow> w | Some h \<Rightarrow> HTTP_destroy w)"

section \<open>The Sentry sink\<close>

text \<open>An interface as \<open>getifaddrs\<close> lists it; \<open>inet_ntop\<close> has made its text of an address.\<close>

datatype iface_addr = AfInet string | AfInet6 string | AfPacket "8 word list" | AfOther

record iface =
  if_name :: string
  if_addr :: "iface_addr option"
  if_running :: bool
  if_loopback :: bool

definition hex_digit :: "nat \<Rightarrow> char" where
  "hex_digit n = (''0123456789abcdef'' ! (n mod 16))"

definition hex2 :: "8 word \<Rightarrow> string" where
  "hex2 b = [hex_digit (unat b div 16), hex_digit (unat b)]"

definition MAC_LEN :: nat where [eval_simps]: "MAC_LEN = 18"

text \<open>\<open>format_to_n\<close> into a zeroed array of 18 bytes, read back as a C string.\<close>

definition mac_text :: "8 word list \<Rightarrow> string" where
  "mac_text a =
     take MAC_LEN (hex2 (a ! 0) @ '':'' @ hex2 (a ! 1) @ '':'' @ hex2 (a ! 2) @ '':'' @
       hex2 (a ! 3) @ '':'' @ hex2 (a ! 4) @ '':'' @ hex2 (a ! 5))"

definition iface_entry :: "iface \<Rightarrow> (string \<times> string) list" where
  "iface_entry ifa =
     (case if_addr ifa of
        None \<Rightarrow> []
      | Some a \<Rightarrow>
          (if \<not> if_running ifa \<or> if_loopback ifa then []
           else case a of
                  AfInet host \<Rightarrow> [(if_name ifa @ ''.ipv4'', host)]
                | AfInet6 host \<Rightarrow> [(if_name ifa @ ''.ipv6'', host)]
                | AfPacket sll_addr \<Rightarrow>
                    (if length (mac_text sll_addr) > 0 then [(if_name ifa @ ''.mac'', mac_text sll_addr)] else [])
                | AfOther \<Rightarrow> []))"

definition sink_call :: "sink_call \<Rightarrow> world \<Rightarrow> world" where
  "sink_call c w = emit (Sink c) w"

lemma sink_call_simps [simp]:
  "calls (sink_call c w) = calls w @ [Sink c]" "vCheckFlag (sink_call c w) = vCheckFlag w"
  by (simp_all add: sink_call_def)

definition setVersionContext :: "build_info \<Rightarrow> world \<Rightarrow> world" where
  "setVersionContext bi w =
     sink_call (SentryContext ''Version''
       [(bi_name bi, ''v'' @ bi_revision bi), (''Release Date'', bi_date bi @ '' '' @ bi_time bi)]) w"

definition setHostContext :: "host_info \<Rightarrow> world \<Rightarrow> world" where
  "setHostContext hi w =
     (let cpu = cpu_fields hi 0 cpu_patterns []
      in sink_call (SentryContext ''Host''
           [(''Hostname'', c_str (hi_hostname hi)), (''Thread count'', c_str (cpu ! 0)),
            (''Core count'', c_str (cpu ! 1)), (''Model'', c_str (cpu ! 2)),
            (''Vendor ID'', c_str (cpu ! 3))]) w)"

definition setNetworkContext :: "iface list option \<Rightarrow> world \<Rightarrow> world" where
  "setNetworkContext ifaddr w =
     (case ifaddr of
        None \<Rightarrow> w
      | Some ifs \<Rightarrow> sink_call (SentryContext ''Network'' (concat (map iface_entry ifs))) w)"

definition sentry_api_sink :: "build_info \<Rightarrow> host_info \<Rightarrow> iface list option \<Rightarrow> string \<Rightarrow> world \<Rightarrow> bool \<times> world" where
  "sentry_api_sink bi hi ifs sentryAddress w =
     (if sentryAddress = [] then (False, w)
      else
        let w = sink_call (SentryInit (bi_revision bi) (c_str sentryAddress)) w;
            w = sink_call (SentryTag ''compiler.name'' (bi_compiler bi)) w;
            w = sink_call (SentryTag ''compiler.version'' (bi_compiler_version bi)) w;
            w = sink_call (SentryTag ''build'' (bi_build bi)) w;
            w = setVersionContext bi w;
            w = setHostContext hi w;
            w = setNetworkContext ifs w
        in (True, w))"

definition sentry_sink_it :: "bool \<Rightarrow> log_msg \<Rightarrow> world \<Rightarrow> world" where
  "sentry_sink_it sentryAvailable msg w =
     (if \<not> sentryAvailable then w
      else case lm_level msg of
             warn \<Rightarrow> sink_call (SentryEvent ''warning'' (c_str (lm_payload msg))) w
           | err \<Rightarrow> sink_call (SentryEvent ''error'' (c_str (lm_payload msg))) w
           | critical \<Rightarrow> sink_call (SentryEvent ''fatal'' (c_str (lm_payload msg))) w
           | _ \<Rightarrow> w)"

definition sentry_destroy :: "world \<Rightarrow> world" where
  "sentry_destroy w = sink_call SentryClose w"

section \<open>The main logger\<close>

definition LOG_FLUSH_SECS :: nat where [eval_simps]: "LOG_FLUSH_SECS = 2"

record main_logger =
  ml_name :: string
  ml_loki :: loki_sink
  ml_sentry :: bool

text \<open>The level in force after a trace: the last one set, \<open>info\<close> at the start of spdlog.\<close>

definition level_after :: "log_level \<Rightarrow> call \<Rightarrow> log_level" where
  "level_after l c = (case c of SetLevel l' \<Rightarrow> l' | _ \<Rightarrow> l)"

definition current_level :: "call list \<Rightarrow> log_level" where
  "current_level cs = foldl level_after info cs"

text \<open>
  A log call of the program: spdlog drops it below the level in force; the duplicate filter hands
  on a list of records (none for a repeated one, a notice and the record after a repetition),
  which go to both sinks.
\<close>

definition to_sinks :: "log_msg \<Rightarrow> main_logger \<times> world \<Rightarrow> main_logger \<times> world" where
  "to_sinks msg m =
     (case m of (ml, w) \<Rightarrow>
        (ml\<lparr>ml_loki := loki_sink_it msg (ml_loki ml)\<rparr>, sentry_sink_it (ml_sentry ml) msg w))"

definition log_record :: "(log_msg \<Rightarrow> log_msg list) \<Rightarrow> log_msg \<Rightarrow> main_logger \<Rightarrow> world \<Rightarrow> main_logger \<times> world" where
  "log_record dup_filter msg ml w =
     (let w = emit (Log (lm_level msg) (lm_payload msg)) w
      in if lm_level msg \<ge> current_level (calls w) then fold to_sinks (dup_filter msg) (ml, w) else (ml, w))"

record log_setup =
  ls_http :: http_env
  ls_build :: build_info
  ls_host :: host_info
  ls_ifs :: "iface list option"
  ls_ppid :: int                     \<comment> \<open>\<open>getppid\<close>: 1 under systemd\<close>
  ls_time :: "call list \<Rightarrow> nanos"     \<comment> \<open>the time spdlog stamps a record with\<close>
  ls_dup_filter :: "call list \<Rightarrow> log_msg \<Rightarrow> log_msg list"   \<comment> \<open>what the duplicate filter hands on\<close>

definition log_line :: "log_setup \<Rightarrow> log_level \<Rightarrow> string \<Rightarrow> main_logger \<Rightarrow> world \<Rightarrow> main_logger \<times> world" where
  "log_line L l msg ml w =
     log_record (ls_dup_filter L (calls w)) \<lparr>lm_level = l, lm_time = ls_time L (calls w), lm_payload = msg\<rparr> ml w"

definition MainLogger ::
    "log_setup \<Rightarrow> env \<Rightarrow> string \<Rightarrow> string \<Rightarrow> world \<Rightarrow> (string + main_logger) \<times> world" where
  "MainLogger L E lokiAddr sentryAddr w =
     (let bi = ls_build L;
          w = emit (SetLevel off) w;
          w = (if ls_ppid L \<noteq> 1 then sink_call (AddSink ''stdout'') w else w);
          w = sink_call (AddSink ''syslog'') w
      in case loki_api_sink (ls_http L) bi (ls_host L) lokiAddr w of
           (Inl e, w) \<Rightarrow> (Inl e, w)
         | (Inr loki, w) \<Rightarrow>
             (let w = sink_call (AddSink ''loki'') w;
                  (sentry, w) = sentry_api_sink bi (ls_host L) (ls_ifs L) sentryAddr w;
                  w = sink_call (AddSink ''sentry'') w;
                  ml = \<lparr>ml_name = bi_name bi, ml_loki = loki, ml_sentry = sentry\<rparr>;
                  w = sink_call (DefaultLogger (bi_name bi)) w;
                  w = sink_call (FlushEvery LOG_FLUSH_SECS) w;
                  w = emit (SetLevel (if e_ndebug E then warn else info)) w;
                  (ml, w) = log_line L info (pad_right (CHR '' '') 15 (bi_name bi) @ '': '' @ e_version E) ml w
              in (Inr ml, w)))"

text \<open>The flush reaches the Loki sink; the Sentry sink has nothing to do.\<close>

definition flush_logger :: "log_setup \<Rightarrow> main_logger \<Rightarrow> world \<Rightarrow> fault + main_logger \<times> world" where
  "flush_logger L ml w =
     bind_sum (loki_flush (ls_http L) (ml_loki ml) w) (\<lambda>(loki, w). Inr (ml\<lparr>ml_loki := loki\<rparr>, w))"

definition MainLogger_destroy :: "log_setup \<Rightarrow> main_logger \<Rightarrow> world \<Rightarrow> fault + world" where
  "MainLogger_destroy L ml w =
     (let (ml, w) = log_line L info ''Goodbye!'' ml w
      in bind_sum (flush_logger L ml (sink_call FlushLogger w)) (\<lambda>(ml, w).
           let w = sink_call (DropLogger (ml_name ml)) w;
               w = sink_call (DefaultLogger ''default'') w;
               w = loki_destroy (ml_loki ml) w
           in Inr (sentry_destroy w)))"

end
