(* ===== verification/Program.thy ===== *)
theory Program
  imports TelnetLife ZeroMQSpec Metrics ConfigParser ProcessMetrics Tracer Logging
begin

text \<open>
  \<open>src/main.cpp\<close>: the program brings its components up in a fixed order, waits, and takes them
  down. The start ends in one of three ways, \<open>Go\<close> (the program runs), \<open>Fail\<close> (\<open>main\<close> returns
  \<open>EXIT_FAILURE\<close> and its locals are destroyed) and \<open>Throw\<close> (an exception leaves \<open>main\<close> and
  \<open>std::terminate\<close> ends the process).
\<close>

section \<open>What the program finds\<close>

record program_env =
  pe_E :: env
  pe_Z :: zmq_env
  pe_log :: log_setup
  pe_json :: json_lib
  pe_files :: files
  pe_curl_init :: int                     \<comment> \<open>\<open>curl_global_init\<close>\<close>
  pe_signal :: "string \<Rightarrow> bool"           \<comment> \<open>\<open>std::signal\<close> is not \<open>SIG_ERR\<close>\<close>
  pe_errno :: strerror_answer
  pe_exe :: "string option"               \<comment> \<open>\<open>readlink\<close> of \<open>/proc/self/exe\<close>\<close>
  pe_crash :: "bool \<times> bool \<times> bool"       \<comment> \<open>crash database, its settings, the handler\<close>
  pe_exposer :: "string \<Rightarrow> string option"  \<comment> \<open>the exposer of prometheus-cpp, what it throws\<close>

section \<open>The locals of \<open>main\<close>\<close>

record program =
  p_logger :: "main_logger option"
  p_tracer :: "tracer option"
  p_prometheus :: "prometheus_server option"
  p_self :: "process_metrics option"
  p_zmq :: "zmq_server option"
  p_telnet :: "telnet_server option"

definition no_program :: program where
  [eval_simps]: "no_program = \<lparr>p_logger = None, p_tracer = None, p_prometheus = None, p_self = None,
     p_zmq = None, p_telnet = None\<rparr>"

datatype stage = Go program world | Fail program world | Throw string world

definition go :: "stage \<Rightarrow> (program \<Rightarrow> world \<Rightarrow> stage) \<Rightarrow> stage" where
  "go m f = (case m of Go p w \<Rightarrow> f p w | Fail p w \<Rightarrow> Fail p w | Throw e w \<Rightarrow> Throw e w)"

lemma go_simps [simp]:
  "go (Go p w) f = f p w" "go (Fail p w) f = Fail p w" "go (Throw e w) f = Throw e w"
  by (simp_all add: go_def)

lemma go_GoE [elim!]:
  assumes "go m f = Go p w"
  obtains q v where "m = Go q v" and "f q v = Go p w"
  using assms by (cases m) auto

section \<open>Signal handlers\<close>

definition alarmInterval :: nat where [eval_simps]: "alarmInterval = 30"

text \<open>\<open>SIGALRM\<close> clears the flag table; \<open>SIGINT\<close> and \<open>SIGTERM\<close> set \<open>interruptFlag\<close>, which starts at 0.\<close>

definition alarmFunc :: "world \<Rightarrow> world" where
  "alarmFunc w = clear_flags (emit (Sys (Alarm alarmInterval)) w)"

definition interruptFunc :: "int \<Rightarrow> int" where
  "interruptFunc interruptFlag = 1"

section \<open>Configuration, logger, log level\<close>

definition config_path :: "string list \<Rightarrow> string" where
  "config_path input =
     (if cmdOptionExists input ''--config'' then getCmdOption input ''--config'' else ''config.json'')"

definition boot :: "program_env \<Rightarrow> string list \<Rightarrow> config_parser \<Rightarrow> world \<Rightarrow> stage" where
  "boot PE input config w =
     (let r = pe_curl_init PE;
          w = emit (Sys (CurlInit r)) w
      in if r < 0 then Fail no_program (emit (Log critical ''Can't init curl'') w)
         else if \<not> isValid config
         then Throw (''Failed to load configuration: '' @ lastError config) w
         else case MainLogger (pe_log PE) (pe_E PE) (config_get config ''LOKI_ADDRESS'')
                     (config_get config ''SENTRY_ADDRESS'') w of
                (Inl e, w) \<Rightarrow> Throw e w
              | (Inr ml, w) \<Rightarrow> Go (no_program\<lparr>p_logger := Some ml\<rparr>) w)"

definition set_verbosity :: "string list \<Rightarrow> world \<Rightarrow> world" where
  "set_verbosity input w =
     (let w = (if cmdOptionExists input ''-v'' then emit (SetLevel info) w else w);
          w = (if cmdOptionExists input ''-vv'' then emit (SetLevel debug) w else w)
      in if cmdOptionExists input ''-vvv'' then emit (SetLevel trace) w else w)"

definition log_pairs :: "(string \<times> string) list \<Rightarrow> world \<Rightarrow> world" where
  "log_pairs entries w = fold (\<lambda>(a, b). emit (Log debug (a @ '' = '' @ b))) entries w"

definition log_settings :: "program_env \<Rightarrow> string list \<Rightarrow> config_parser \<Rightarrow> world \<Rightarrow> world" where
  "log_settings PE input config w =
     (let w = emit (Log debug ''======== Detected input arguments ========'') w;
          w = log_pairs (getCmdOptions input) w;
          w = emit (Log debug ''======== Detected configuration ========'') w
      in log_pairs (j_order (pe_json PE) (configMap config)) w)"

fun register_signals :: "program_env \<Rightarrow> string list \<Rightarrow> program \<Rightarrow> world \<Rightarrow> stage" where
  "register_signals PE [] p w = Go p (emit (Sys (Alarm alarmInterval)) w)"
| "register_signals PE (name # names) p w =
     (let ok = pe_signal PE name;
          w = emit (Sys (Signal name ok)) w
      in if ok then register_signals PE names p w
         else Fail p (emit (Log critical (''Can't set signal handler ('' @ name @ ''): '' @ getErrnoString (pe_errno PE))) w))"

section \<open>The components\<close>

text \<open>\<open>vCheckFlag.emplace_back\<close>; the component gets the flag of the last entry.\<close>

definition add_flag :: "string \<Rightarrow> world \<Rightarrow> world" where
  "add_flag name w = w\<lparr>vCheckFlag := vCheckFlag w @ [(name, False)]\<rparr>"

definition last_flag :: "world \<Rightarrow> nat option" where
  "last_flag w = Some (length (vCheckFlag w) - 1)"

definition crash_annotations :: "build_info \<Rightarrow> (string \<times> string) list" where
  "crash_annotations bi =
     [(''build_info'', bi_date bi @ '' '' @ bi_time bi @ '' '' @ bi_build bi),
      (''compiler_info'', bi_compiler bi @ '' '' @ bi_compiler_version bi),
      (''name'', bi_name bi), (''version'', bi_revision bi)]"

definition start_tracer :: "program_env \<Rightarrow> config_parser \<Rightarrow> program \<Rightarrow> world \<Rightarrow> stage" where
  "start_tracer PE config p w =
     (let w = add_flag ''Crashpad Handler'' w;
          (database, settings, started) = pe_crash PE
      in case Tracer (pe_exe PE) database settings started (crash_annotations (ls_build (pe_log PE)))
                (last_flag w) (config_get config ''CRASHPAD_REMOTE'') (config_get config ''CRASHPAD_PROXY'')
                (config_get config ''CRASHPAD_EXECUTABLE_PATH'') (config_get config ''CRASHPAD_REPORT_DIR'') w of
           (Inl e, w) \<Rightarrow> Throw e w
         | (Inr tr, w) \<Rightarrow> Go (p\<lparr>p_tracer := Some tr\<rparr>) w)"

definition start_prometheus :: "program_env \<Rightarrow> string list \<Rightarrow> program \<Rightarrow> world \<Rightarrow> stage" where
  "start_prometheus PE input p w =
     (let prometheusAddr = getCmdOption input ''--enable-prometheus''
      in if prometheusAddr = [] then Go p w
         else case PrometheusServer (pe_E PE) (pe_exposer PE) (bi_name (ls_build (pe_log PE)))
                     (bi_revision (ls_build (pe_log PE))) prometheusAddr w of
                (Inl e, w) \<Rightarrow> Fail p (emit (Log err (''Can't start Prometheus Server: '' @ e)) w)
              | (Inr ps, w) \<Rightarrow> Go (p\<lparr>p_prometheus := Some ps\<rparr>)
                  (emit (Log info (''Prometheus server start at '' @ prometheusAddr)) w))"

text \<open>A registry for a component, if there is a server for it.\<close>

definition new_registry :: "program \<Rightarrow> bool \<times> program" where
  "new_registry p =
     (case p_prometheus p of
        None \<Rightarrow> (False, p)
      | Some ps \<Rightarrow> (let (_, _, ps) = createNewRegistry ps in (True, p\<lparr>p_prometheus := Some ps\<rparr>)))"

definition start_self_monitor :: "program \<Rightarrow> world \<Rightarrow> stage" where
  "start_self_monitor p w =
     (let w = add_flag ''Self Monitor'' w
      in case p_prometheus p of
           None \<Rightarrow> Go p w
         | Some _ \<Rightarrow>
             (let (reg, p) = new_registry p
              in case ProcessMetrics (last_flag w) reg w of
                   Inl e \<Rightarrow> Throw e w
                 | Inr (pm, w) \<Rightarrow> Go (p\<lparr>p_self := Some pm\<rparr>) w))"

definition start_zmq :: "program_env \<Rightarrow> string list \<Rightarrow> program \<Rightarrow> world \<Rightarrow> stage" where
  "start_zmq PE input p w =
     (let w = add_flag ''ZeroMQ Server'' w;
          zeromqServerAddr = getCmdOption input ''--enable-zeromq'';
          failed = (\<lambda>e p w. Fail p (emit (Log err (''Can't start ZeroMQ Server: '' @ e)) w))
      in if zeromqServerAddr = [] then Go p w
         else
           let (reg, p) = new_registry p
           in case ZeroMQServer (pe_E PE) (pe_Z PE) zeromqServerAddr (last_flag w) reg [] w of
                (Inl e, w) \<Rightarrow> failed e p w
              | (Inr srv, w) \<Rightarrow>
                  (case zmq_initialise (pe_Z PE) (srv\<lparr>zCallback := Some ZeroMQServerMessageCallback\<rparr>) w of
                     (Inl e, srv, w) \<Rightarrow> failed e (p\<lparr>p_zmq := Some srv\<rparr>) w
                   | (Inr _, srv, w) \<Rightarrow> Go (p\<lparr>p_zmq := Some srv\<rparr>) w))"

definition telnet_port :: "string list \<Rightarrow> (u64 \<times> string) + u64" where
  "telnet_port input =
     (case stoul (getCmdOption input ''--enable-telnet'') of
        Inl e \<Rightarrow> Inl (0, e)
      | Inr port \<Rightarrow> (if port < 1 \<or> port > 65535 then Inl (port, ''out of range'') else Inr port))"

text \<open>
  The result of \<open>initialise\<close> is not looked at. Its one exception, statistics without a registry,
  cannot occur; the state before the call stands for the one it would leave.
\<close>

definition start_telnet :: "program_env \<Rightarrow> string list \<Rightarrow> program \<Rightarrow> world \<Rightarrow> stage" where
  "start_telnet PE input p w =
     (let w = add_flag ''Telnet Server'' w
      in if \<not> cmdOptionExists input ''--enable-telnet'' then Go p w
         else case telnet_port input of
                Inl (port, e) \<Rightarrow>
                  Fail p (emit (Log err (''Invalid Telnet port: '' @ dec_of_nat (unat port) @ '' '' @ e)) w)
              | Inr port \<Rightarrow>
                  (let srv = new_server\<lparr>srv_cfg := shipped_cfg []\<rparr>;
                       (reg, p) = new_registry p
                   in case server_initialise (pe_E PE) port (last_flag w) ''> '' reg [] srv w of
                        Inl e \<Rightarrow> Fail (p\<lparr>p_telnet := Some srv\<rparr>)
                          (emit (Log err (''Can't start Telnet Server: '' @ e)) w)
                      | Inr (_, srv, w) \<Rightarrow> Go (p\<lparr>p_telnet := Some srv\<rparr>) w))"

section \<open>The start\<close>

text \<open>
  The start up to the registration of the signal handlers, in which no other thread runs, and the
  five stages that follow, between which the threads of the earlier ones already make their rounds.
\<close>

definition prologue :: "program_env \<Rightarrow> string list \<Rightarrow> config_parser \<Rightarrow> world \<Rightarrow> stage" where
  "prologue PE input config w =
     go (boot PE input config w) (\<lambda>p w.
       register_signals PE [''SIGINT'', ''SIGTERM'', ''SIGALRM''] p
         (log_settings PE input config (set_verbosity input w)))"

definition stages :: "program_env \<Rightarrow> string list \<Rightarrow> config_parser \<Rightarrow> (program \<Rightarrow> world \<Rightarrow> stage) list" where
  "stages PE input config =
     [start_tracer PE config, start_prometheus PE input, start_self_monitor, start_zmq PE input,
      start_telnet PE input]"

section \<open>The end\<close>

text \<open>
  How the process ends: \<open>main\<close> returns, an exception ends it, or undefined behaviour does (or the
  \<open>std::terminate\<close> of a \<open>SelfJoin\<close>).
\<close>

datatype ending = Returned int world | Terminated string world | Crashed fault

text \<open>
  The logger is the last local to die. \<open>pending\<close> are the records the Loki sink took since its last
  flush.
\<close>

definition hold_records :: "log_msg list \<Rightarrow> main_logger \<Rightarrow> main_logger" where
  "hold_records pending ml = ml\<lparr>ml_loki := fold loki_sink_it pending (ml_loki ml)\<rparr>"

definition destroy_logger :: "program_env \<Rightarrow> log_msg list \<Rightarrow> int \<Rightarrow> program \<Rightarrow> world \<Rightarrow> ending" where
  "destroy_logger PE pending code p w =
     (case p_logger p of
        None \<Rightarrow> Returned code w
      | Some ml \<Rightarrow>
          (case MainLogger_destroy (pe_log PE) (hold_records pending ml) w of
             Inl f \<Rightarrow> Crashed f
           | Inr w \<Rightarrow> Returned code w))"

end
