(* ===== verification/ProgramRun.thy ===== *)
theory ProgramRun
  imports Program
begin

text \<open>
  \<open>src/main.cpp\<close> while its threads run: their rounds and the signals, between the stages of the start
  and while \<open>main\<close> sleeps in its wait loop. \<open>program_invariant\<close> is what a property of the states needs
  to hold in all of them.
\<close>

section \<open>The rounds of the threads\<close>

text \<open>
  While \<open>main\<close> waits, the threads make their rounds and the alarm goes off every 30 seconds. A
  step is one whole round of one thread, or the alarm; its label is the service whose round ended
  without an exception, if any. Probes and readings are what the system answers in that round.
\<close>

datatype beat = Beat string | NoBeat | AlarmBeat

definition service_names :: "string list" where
  "service_names = [''Crashpad Handler'', ''Self Monitor'', ''ZeroMQ Server'', ''Telnet Server'']"

inductive program_step :: "program_env \<Rightarrow> program \<times> world \<Rightarrow> beat \<Rightarrow> program \<times> world \<Rightarrow> bool" for PE where
  alarm: "program_step PE (p, w) AlarmBeat (p, alarmFunc w)"
| crash: "p_tracer p = Some tr \<Longrightarrow> tr_thread tr \<Longrightarrow> tracer_loop (tr_checkFlag tr) [probe] 0 w = (False, w') \<Longrightarrow>
    program_step PE (p, w) (Beat ''Crashpad Handler'') (p, w')"
| self: "p_self p = Some pm \<Longrightarrow> pm_update regex reading pm w = (Inr (), pm', w') \<Longrightarrow>
    program_step PE (p, w) (Beat ''Self Monitor'') (p\<lparr>p_self := Some pm'\<rparr>, set_flag (pm_checkFlag pm') w')"
| self_failed: "p_self p = Some pm \<Longrightarrow> pm_update regex reading pm w = (Inl e, pm', w') \<Longrightarrow>
    program_step PE (p, w) NoBeat
      (p\<lparr>p_self := Some pm'\<rparr>, emit (Log err (''Self monitoring failed: '' @ e)) w')"
| zmq: "p_zmq p = Some srv \<Longrightarrow> zThread srv \<Longrightarrow> zmq_update (pe_E PE) (pe_Z PE) srv w = Inr (Inr (), w') \<Longrightarrow>
    program_step PE (p, w) (Beat ''ZeroMQ Server'') (p, set_flag (zCheckFlag srv) w')"
| zmq_failed: "p_zmq p = Some srv \<Longrightarrow> zThread srv \<Longrightarrow> zmq_update (pe_E PE) (pe_Z PE) srv w = Inr (Inl e, w') \<Longrightarrow>
    program_step PE (p, w) NoBeat (p, logging err (''ZeroMQ server failed: '' @ e) w')"
| telnet: "p_telnet p = Some srv \<Longrightarrow> m_serverThread srv \<Longrightarrow> server_update (pe_E PE) srv w = Inr (srv', w') \<Longrightarrow>
    program_step PE (p, w) (Beat ''Telnet Server'') (p\<lparr>p_telnet := Some srv'\<rparr>, set_flag (m_checkFlag srv') w')"

inductive program_run :: "program_env \<Rightarrow> program \<times> world \<Rightarrow> beat list \<Rightarrow> program \<times> world \<Rightarrow> bool" for PE where
  idle: "program_run PE a [] a"
| step: "program_run PE a bs b \<Longrightarrow> program_step PE b beat c \<Longrightarrow> program_run PE a (bs @ [beat]) c"

section \<open>Between two statements of \<open>main\<close>\<close>

text \<open>
  What can happen there: rounds and alarms, and the signals that set \<open>interruptFlag\<close>. The state is
  that of the program with the flag.
\<close>

datatype moment = Round beat | Interrupt

fun beats :: "moment list \<Rightarrow> beat list" where
  "beats [] = []"
| "beats (Round b # ms) = b # beats ms"
| "beats (Interrupt # ms) = beats ms"

inductive meanwhile ::
    "program_env \<Rightarrow> (program \<times> world) \<times> int \<Rightarrow> moment list \<Rightarrow> (program \<times> world) \<times> int \<Rightarrow> bool" for PE where
  nothing: "meanwhile PE s [] s"
| round: "meanwhile PE s ms (a, flag) \<Longrightarrow> program_step PE a b c \<Longrightarrow> meanwhile PE s (ms @ [Round b]) (c, flag)"
| signal: "meanwhile PE s ms (a, flag) \<Longrightarrow> meanwhile PE s (ms @ [Interrupt]) (a, interruptFunc flag)"

text \<open>
  The stages, one after the other, until one fails or throws; the last rule is the time between the
  last stage and the wait loop, or any later moment.
\<close>

inductive starts ::
    "program_env \<Rightarrow> (program \<Rightarrow> world \<Rightarrow> stage) list \<Rightarrow> stage \<times> int \<Rightarrow> moment list \<Rightarrow> stage \<times> int \<Rightarrow> bool" for PE where
  fail: "starts PE fs (Fail p w, flag) [] (Fail p w, flag)"
| throw: "starts PE fs (Throw e w, flag) [] (Throw e w, flag)"
| stage: "meanwhile PE ((p, w), flag) ms ((q, v), flag') \<Longrightarrow> starts PE fs (f q v, flag') ms' r \<Longrightarrow>
    starts PE (f # fs) (Go p w, flag) (ms @ ms') r"
| started: "meanwhile PE ((p, w), flag) ms ((q, v), flag') \<Longrightarrow> starts PE [] (Go p w, flag) ms (Go q v, flag')"

text \<open>The first \<open>k\<close> stages, and the start.\<close>

definition starting ::
    "program_env \<Rightarrow> string list \<Rightarrow> world \<Rightarrow> nat \<Rightarrow> moment list \<Rightarrow> stage \<Rightarrow> int \<Rightarrow> bool" where
  "starting PE argv w k ms m flag \<longleftrightarrow>
     (let input = InputParser argv;
          config = ConfigParser (pe_json PE) (pe_files PE) (config_path input)
      in starts PE (take k (stages PE input config)) (prologue PE input config w, 0) ms (m, flag))"

definition startup ::
    "program_env \<Rightarrow> string list \<Rightarrow> world \<Rightarrow> moment list \<Rightarrow> stage \<Rightarrow> int \<Rightarrow> bool" where
  "startup PE argv w ms m flag \<longleftrightarrow>
     (let input = InputParser argv;
          config = ConfigParser (pe_json PE) (pe_files PE) (config_path input)
      in starts PE (stages PE input config) (prologue PE input config w, 0) ms (m, flag))"

lemma startup_starting: "startup PE argv w ms m flag \<longleftrightarrow> starting PE argv w 5 ms m flag"
  by (simp add: startup_def starting_def stages_def Let_def)

section \<open>The wait loop\<close>

text \<open>The loop looks at the flag before each sleep; the lists are what happens in the sleeps.\<close>

inductive wait_loop ::
    "program_env \<Rightarrow> (program \<times> world) \<times> int \<Rightarrow> moment list list \<Rightarrow> (program \<times> world) \<times> int \<Rightarrow> bool" for PE where
  leave: "flag \<noteq> 0 \<Longrightarrow> wait_loop PE (a, flag) [] (a, flag)"
| sleep: "flag = 0 \<Longrightarrow> meanwhile PE (a, flag) ms s \<Longrightarrow> wait_loop PE s rest t \<Longrightarrow>
    wait_loop PE (a, flag) (ms # rest) t"

inductive_simps program_run_Nil [simp]: "program_run PE a [] b"
inductive_simps program_run_snoc: "program_run PE a (bs @ [b]) c"
inductive_simps wait_loop_Nil: "wait_loop PE (a, flag) [] t"
inductive_simps wait_loop_Cons: "wait_loop PE (a, flag) (ms # rest) t"

lemma beats_append [simp]: "beats (ms @ ns) = beats ms @ beats ns"
  by (induction ms rule: beats.induct) simp_all

lemma program_run_append:
  "program_run PE b cs c \<Longrightarrow> program_run PE a bs b \<Longrightarrow> program_run PE a (bs @ cs) c"
proof (induction rule: program_run.induct)
  case (step bs' b' beat c')
  from program_run.step [OF step.IH [OF step.prems] step.hyps(2)] show ?case by simp
qed simp

lemma program_run_split:
  "program_run PE a (bs @ cs) c \<longleftrightarrow> (\<exists>b. program_run PE a bs b \<and> program_run PE b cs c)"
proof
  assume "program_run PE a (bs @ cs) c"
  then show "\<exists>b. program_run PE a bs b \<and> program_run PE b cs c"
  proof (induction cs arbitrary: c rule: rev_induct)
    case Nil
    then show ?case by (metis append_Nil2 program_run.idle)
  next
    case (snoc x cs)
    from snoc.prems obtain d where "program_run PE a (bs @ cs) d" "program_step PE d x c"
      unfolding append_assoc [symmetric] program_run_snoc by auto
    with snoc.IH [OF this(1)] show ?case by (blast intro: program_run.step)
  qed
qed (blast intro: program_run_append)

lemma meanwhile_iff:
  "meanwhile PE (a, flag) ms (c, flag') \<longleftrightarrow>
     program_run PE a (beats ms) c \<and> flag' = (if Interrupt \<in> set ms then 1 else flag)"
proof
  assume "meanwhile PE (a, flag) ms (c, flag')"
  then show "program_run PE a (beats ms) c \<and> flag' = (if Interrupt \<in> set ms then 1 else flag)"
    by (induction "(a, flag)" ms "(c, flag')" arbitrary: c flag' rule: meanwhile.induct)
      (auto simp: interruptFunc_def intro: program_run.intros)
next
  assume "program_run PE a (beats ms) c \<and> flag' = (if Interrupt \<in> set ms then 1 else flag)"
  then show "meanwhile PE (a, flag) ms (c, flag')"
  proof (induction ms arbitrary: c flag' rule: rev_induct)
    case Nil
    then show ?case by (auto elim: program_run.cases intro: meanwhile.nothing)
  next
    case (snoc m ms)
    let ?flag = "if Interrupt \<in> set ms then 1 else flag"
    show ?case
    proof (cases m)
      case (Round b)
      then obtain s where "program_run PE a (beats ms) s" "program_step PE s b c"
        using snoc.prems by (auto simp: program_run_snoc)
      with snoc.IH [of s ?flag] show ?thesis using snoc.prems Round by (auto intro: meanwhile.round)
    next
      case Interrupt
      with snoc.IH [of c ?flag] snoc.prems have "meanwhile PE (a, flag) ms (c, ?flag)" by auto
      from meanwhile.signal [OF this] show ?thesis using snoc.prems Interrupt by (auto simp: interruptFunc_def)
    qed
  qed
qed

lemma meanwhile_run: "meanwhile PE (a, flag) ms (c, flag') \<Longrightarrow> program_run PE a (beats ms) c"
  by (simp add: meanwhile_iff)

text \<open>A schedule of sleeps wakes \<open>main\<close> if the last one, and no other, has an interrupt.\<close>

definition wakes :: "int \<Rightarrow> moment list list \<Rightarrow> bool" where
  "wakes flag sleeps \<longleftrightarrow>
     (if flag \<noteq> 0 then sleeps = []
      else sleeps \<noteq> [] \<and> Interrupt \<in> set (last sleeps) \<and> (\<forall>ms \<in> set (butlast sleeps). Interrupt \<notin> set ms))"

lemma wakes_Cons:
  "wakes 0 (ms # rest) \<longleftrightarrow> wakes (if Interrupt \<in> set ms then 1 else 0) rest"
  by (cases rest) (auto simp: wakes_def)

lemma wakes_iff:
  "wakes flag sleeps \<longleftrightarrow>
     (if flag \<noteq> 0 then sleeps = []
      else \<exists>naps final. sleeps = naps @ [final] \<and> Interrupt \<in> set final \<and> (\<forall>nap \<in> set naps. Interrupt \<notin> set nap))"
  by (cases sleeps rule: rev_cases) (auto simp: wakes_def)

lemma wait_loop_iff:
  "wait_loop PE (a, flag) sleeps (c, flag') \<longleftrightarrow>
     wakes flag sleeps \<and> program_run PE a (beats (concat sleeps)) c \<and> flag' = (if flag \<noteq> 0 then flag else 1)"
proof (induction sleeps arbitrary: a flag)
  case Nil
  show ?case by (auto simp: wait_loop_Nil wakes_def)
next
  case (Cons ms rest)
  show ?case
  proof (cases "flag = 0")
    case True
    have "wait_loop PE (a, 0) (ms # rest) (c, flag') \<longleftrightarrow>
        (\<exists>s. meanwhile PE (a, 0) ms s \<and> wait_loop PE s rest (c, flag'))"
      by (auto simp: wait_loop_Cons)
    also have "\<dots> \<longleftrightarrow> (\<exists>b. program_run PE a (beats ms) b \<and>
        wait_loop PE (b, if Interrupt \<in> set ms then 1 else 0) rest (c, flag'))"
      by (simp only: split_paired_Ex meanwhile_iff) auto
    also have "\<dots> \<longleftrightarrow> wakes 0 (ms # rest) \<and> flag' = 1 \<and>
        (\<exists>b. program_run PE a (beats ms) b \<and> program_run PE b (beats (concat rest)) c)"
      by (auto simp: Cons.IH wakes_Cons)
    also have "(\<exists>b. program_run PE a (beats ms) b \<and> program_run PE b (beats (concat rest)) c) \<longleftrightarrow>
        program_run PE a (beats ms @ beats (concat rest)) c"
      by (rule program_run_split [symmetric])
    finally show ?thesis using True by auto
  next
    case False
    then show ?thesis by (auto simp: wakes_def wait_loop_Cons)
  qed
qed

section \<open>Invariants\<close>

abbreviation main_config :: "program_env \<Rightarrow> string list \<Rightarrow> config_parser" where
  "main_config PE argv \<equiv> ConfigParser (pe_json PE) (pe_files PE) (config_path (InputParser argv))"

text \<open>
  A property of the locals and the world after \<open>k\<close> stages, given the beats so far, that holds after
  the prologue, is carried on by each stage that succeeds and kept by every step of a thread.
\<close>

locale program_invariant =
  fixes PE :: program_env and argv :: "string list" and w :: world
    and Inv :: "nat \<Rightarrow> beat list \<Rightarrow> program \<Rightarrow> world \<Rightarrow> bool"
  assumes begins: "prologue PE (InputParser argv) (main_config PE argv) w = Go p v \<Longrightarrow> Inv 0 [] p v"
    and goes_on: "k < 5 \<Longrightarrow> Inv k bs p v \<Longrightarrow>
      (stages PE (InputParser argv) (main_config PE argv) ! k) p v = Go q u \<Longrightarrow> Inv (Suc k) bs q u"
    and step_keeps: "Inv k bs p v \<Longrightarrow> program_step PE (p, v) b (q, u) \<Longrightarrow> Inv k (bs @ [b]) q u"
begin

definition fails :: "stage \<Rightarrow> bool" where
  "fails m \<longleftrightarrow> (\<exists>k bs p v. k < 5 \<and> Inv k bs p v \<and>
     (stages PE (InputParser argv) (main_config PE argv) ! k) p v = m)"

lemma run_keeps: "program_run PE (p, v) cs (q, u) \<Longrightarrow> Inv k bs p v \<Longrightarrow> Inv k (bs @ cs) q u"
proof (induction "(p, v)" cs "(q, u)" arbitrary: q u rule: program_run.induct)
  case (step cs s b)
  obtain r x where s: "s = (r, x)" by (cases s)
  from step_keeps [OF step.hyps(2) [OF s step.prems] step.hyps(3) [unfolded s]] show ?case by simp
qed simp

lemma starts_keeps:
  assumes "starts PE fs (m, flag) ms (m', flag')"
    and "fs = drop k (take n (stages PE (InputParser argv) (main_config PE argv)))" and "k \<le> n" and "n \<le> 5"
    and "\<And>p v. m = Go p v \<Longrightarrow> Inv k bs p v"
  shows "case m' of Go p v \<Rightarrow> Inv n (bs @ beats ms) p v | Fail p v \<Rightarrow> m = m' \<or> fails m' | Throw e v \<Rightarrow> True"
  using assms
proof (induction fs "(m, flag)" ms "(m', flag')" arbitrary: m flag k bs rule: starts.induct)
  case (stage p v flag ms q u flag1 fs f ms')
  have "drop k (take n (stages PE (InputParser argv) (main_config PE argv))) \<noteq> []" using stage.prems(1) by auto
  then have "k < n" by simp
  with stage.prems(3) have k: "k < 5" "Suc k \<le> n" by simp_all
  have "k < length (take n (stages PE (InputParser argv) (main_config PE argv)))"
    using \<open>k < n\<close> k(1) by (simp add: stages_def)
  from Cons_nth_drop_Suc [OF this] have "f # fs = stages PE (InputParser argv) (main_config PE argv) ! k #
      drop (Suc k) (take n (stages PE (InputParser argv) (main_config PE argv)))"
    using \<open>k < n\<close> unfolding stage.prems(1) by simp
  then have f: "f = stages PE (InputParser argv) (main_config PE argv) ! k"
    and fs: "fs = drop (Suc k) (take n (stages PE (InputParser argv) (main_config PE argv)))"
    by (simp_all only: list.inject)
  have here: "Inv k (bs @ beats ms) q u" using run_keeps [OF meanwhile_run [OF stage.hyps(1)] stage.prems(4) [OF refl]] .
  have next_Inv: "Inv (Suc k) (bs @ beats ms) r x" if "f q u = Go r x" for r x
    using goes_on [OF k(1) here] that f by simp
  from stage.hyps(3) [OF fs k(2) stage.prems(3) next_Inv] have
    "case m' of Go p v \<Rightarrow> Inv n ((bs @ beats ms) @ beats ms') p v | Fail p v \<Rightarrow> f q u = m' \<or> fails m' | Throw e v \<Rightarrow> True"
    by simp
  moreover have "fails m'" if "f q u = m'" using that here k(1) f unfolding fails_def by blast
  ultimately show ?case by (auto split: stage.split)
next
  case (started p v flag ms q u)
  have "k = n" using started.prems(1-3) by (simp add: stages_def)
  then show ?case
    using run_keeps [OF meanwhile_run [OF started.hyps(1)] started.prems(4) [OF refl]] started.hyps(2) [symmetric] by simp
qed (auto split: stage.split)

text \<open>What holds when the start has succeeded, and how it fails.\<close>

lemma starting_keeps: "starting PE argv w n ms (Go p v) flag \<Longrightarrow> n \<le> 5 \<Longrightarrow> Inv n (beats ms) p v"
  unfolding starting_def Let_def
  by (drule starts_keeps [where k = 0 and bs = "[]" and n = n]) (simp_all add: begins)

lemma startup_keeps: "startup PE argv w ms (Go p v) flag \<Longrightarrow> Inv 5 (beats ms) p v"
  by (simp add: startup_starting starting_keeps)

lemma startup_fails:
  "startup PE argv w ms (Fail p v) flag \<Longrightarrow>
    prologue PE (InputParser argv) (main_config PE argv) w = Fail p v \<or> fails (Fail p v)"
  unfolding startup_starting starting_def Let_def
  by (drule starts_keeps [where k = 0 and bs = "[]" and n = 5]) (simp_all add: begins)

end

text \<open>A start in which no thread gets to run.\<close>

lemma foldl_go [simp]: "foldl go (Fail p w) fs = Fail p w" "foldl go (Throw e w) fs = Throw e w"
  by (induction fs) simp_all

lemma starts_at_once: "foldl go m fs = Go p v \<Longrightarrow> starts PE fs (m, flag) [] (Go p v, flag)"
proof (induction fs arbitrary: m)
  case Nil
  then show ?case using starts.started [OF meanwhile.nothing] by simp
next
  case (Cons f fs)
  then obtain q u where m: "m = Go q u" by (cases m) simp_all
  with Cons.IH [of "f q u"] Cons.prems starts.stage [OF meanwhile.nothing, of PE fs f q u flag "[]"] show ?case
    by simp
qed

lemma startup_at_once:
  "foldl go (prologue PE (InputParser argv) (main_config PE argv) w)
     (stages PE (InputParser argv) (main_config PE argv)) = Go p v \<Longrightarrow> startup PE argv w [] (Go p v) 0"
  by (simp add: startup_def starts_at_once)

text \<open>The flag remembers an interrupt that came during the start.\<close>

lemma starts_flag:
  "starts PE fs (m, flag) ms (m', flag') \<Longrightarrow> flag' = (if Interrupt \<in> set ms then 1 else flag)"
  by (induction fs "(m, flag)" ms "(m', flag')" arbitrary: m flag rule: starts.induct)
    (auto simp: meanwhile_iff)

lemma startup_flag: "startup PE argv w ms m flag \<Longrightarrow> flag = (if Interrupt \<in> set ms then 1 else 0)"
  by (auto simp: startup_def Let_def dest: starts_flag)

text \<open>Rounds that follow the start belong to it: a later state is one the start could have led to.\<close>

lemma starts_extend:
  "starts PE fs r ms (Go p v, flag) \<Longrightarrow> meanwhile PE ((p, v), flag) ns ((q, u), flag') \<Longrightarrow>
     starts PE fs r (ms @ ns) (Go q u, flag')"
proof (induction fs r ms "(Go p v, flag)" rule: starts.induct)
  case (stage p' v' flag1 ms q' u' flag2 fs f ms')
  then show ?case using starts.stage [OF stage.hyps(1)] by simp
next
  case (started p0 w0 flag0 ms)
  then have "meanwhile PE ((p0, w0), flag0) (ms @ ns) ((q, u), flag')"
    by (auto simp: meanwhile_iff program_run_split)
  then show ?case by (rule starts.started)
qed

lemma startup_extend:
  "startup PE argv w ms (Go p v) flag \<Longrightarrow> program_run PE (p, v) (beats ns) (q, u) \<Longrightarrow>
     startup PE argv w (ms @ ns) (Go q u) (if Interrupt \<in> set ns then 1 else flag)"
  unfolding startup_def Let_def by (erule starts_extend) (simp add: meanwhile_iff)

end
