(* ===== verification/LoggingSpec.thy ===== *)
theory LoggingSpec
  imports Logging
begin

text \<open>
  What the Loki sink promises: the records between two flushes go out in one request, each under
  its level and in the order they came, as the comma-free reference \<open>loki_payload\<close> writes them.
\<close>

section \<open>The loops of the flush without their flags\<close>

definition value_entry :: "string \<times> string \<Rightarrow> string" where
  "value_entry v = ''['' @ QUOTE @ fst v @ QUOTE @ '','' @ QUOTE @ snd v @ QUOTE @ '']''"

definition stream_entry :: "string \<Rightarrow> log_stream \<Rightarrow> string" where
  "stream_entry labels e =
     ''{'' @ QUOTE @ ''stream'' @ QUOTE @ '':{'' @ labels @ QUOTE @ ''level'' @ QUOTE @ '':'' @ QUOTE @
     fst e @ QUOTE @ ''},'' @ QUOTE @ ''values'' @ QUOTE @ '':['' @
     join_with '','' (map value_entry (snd e)) @ '']}''"

lemma join_with_Cons:
  "join_with sep (x # xs) = x @ (if xs = [] then [] else sep @ join_with sep xs)"
  by (cases xs) simp_all

lemma flush_values_join:
  "flush_values flag vs = (if flag \<and> vs \<noteq> [] then '','' else []) @ join_with '','' (map value_entry vs)"
  by (induction vs arbitrary: flag) (auto simp: join_with_Cons value_entry_def)

lemma flush_streams_join:
  "flush_streams labels flag es =
     (let full = filter (\<lambda>e. snd e \<noteq> []) es
      in (flag \<or> full \<noteq> [],
          (if flag \<and> full \<noteq> [] then '','' else []) @ join_with '','' (map (stream_entry labels) full),
          map (\<lambda>e. (fst e, [])) es))"
  by (induction es arbitrary: flag)
    (auto simp: join_with_Cons stream_entry_def flush_values_join Let_def)

section \<open>The records of a level\<close>

definition loki_levels :: "(log_level \<times> string) list" where
  "loki_levels = [(debug, ''debug''), (info, ''info''), (warn, ''warn''), (err, ''error''), (critical, ''critical'')]"

definition of_level :: "log_level \<Rightarrow> log_msg list \<Rightarrow> (string \<times> string) list" where
  "of_level l msgs = map (\<lambda>m. (dec_of_int (lm_time m), lm_payload m)) (filter (\<lambda>m. lm_level m = l) msgs)"

lemma of_level_simps [simp]:
  "of_level l [] = []"
  "of_level l (m # ms) =
     (if lm_level m = l then (dec_of_int (lm_time m), lm_payload m) # of_level l ms else of_level l ms)"
  "of_level l (ms @ ns) = of_level l ms @ of_level l ns"
  by (simp_all add: of_level_def)

text \<open>A sink with a server, its buffers holding what came since the last flush.\<close>

definition loki_holds :: "loki_sink \<Rightarrow> log_msg list \<Rightarrow> bool" where
  "loki_holds s msgs \<longleftrightarrow> lokiAvailable s \<and> connHandler s \<noteq> None \<and>
     internalLogBuffer s = map (\<lambda>(l, name). (name, of_level l msgs)) loki_levels"

lemma loki_api_sink_holds:
  "loki_api_sink H bi hi addr w = (Inr s, w') \<Longrightarrow> addr \<noteq> [] \<Longrightarrow> loki_holds s []"
  by (auto simp: loki_api_sink_def loki_holds_def loki_levels_def split: sum.splits prod.splits)

lemma level_cases:
  obtains "l = trace" | "l = off" | "l = debug" | "l = info" | "l = warn" | "l = err" | "l = critical"
  by (cases l) auto

lemma loki_holds_sink_it:
  assumes "loki_holds s msgs"
  shows "loki_holds (loki_sink_it m s) (msgs @ [m])"
  using assms
  by (cases "lm_level m")
    (simp_all add: loki_holds_def loki_sink_it_def loki_levels_def less_eq_log_level_def)

lemma loki_sink_it_rest:
  "connHandler (loki_sink_it m s) = connHandler s"
  "basicInformation (loki_sink_it m s) = basicInformation s"
  by (simp_all add: loki_sink_it_def Let_def split: prod.splits)

lemma loki_fold:
  assumes "loki_holds s old"
  shows "loki_holds (fold loki_sink_it msgs s) (old @ msgs)"
    and "connHandler (fold loki_sink_it msgs s) = connHandler s"
    and "basicInformation (fold loki_sink_it msgs s) = basicInformation s"
proof -
  have "loki_holds (fold loki_sink_it msgs s) (old @ msgs) \<and>
    connHandler (fold loki_sink_it msgs s) = connHandler s \<and>
    basicInformation (fold loki_sink_it msgs s) = basicInformation s"
    using assms
  proof (induction msgs arbitrary: s old)
    case (Cons m ms)
    from Cons.IH [OF loki_holds_sink_it [OF Cons.prems, of m]] show ?case
      by (simp add: loki_sink_it_rest)
  qed simp
  then show "loki_holds (fold loki_sink_it msgs s) (old @ msgs)"
    and "connHandler (fold loki_sink_it msgs s) = connHandler s"
    and "basicInformation (fold loki_sink_it msgs s) = basicInformation s" by simp_all
qed

section \<open>The request of a flush\<close>

definition loki_payload :: "string \<Rightarrow> log_msg list \<Rightarrow> string" where
  "loki_payload labels msgs =
     ''{'' @ QUOTE @ ''streams'' @ QUOTE @ '':['' @
     join_with '','' (map (\<lambda>(l, name). stream_entry labels (name, of_level l msgs))
       (filter (\<lambda>(l, name). of_level l msgs \<noteq> []) loki_levels)) @ '']}''"

definition loki_wanted :: "log_msg list \<Rightarrow> bool" where
  "loki_wanted msgs \<longleftrightarrow> (\<exists>m \<in> set msgs. lm_level m \<noteq> trace \<and> lm_level m \<noteq> off)"

lemma of_level_Nil: "of_level l msgs = [] \<longleftrightarrow> (\<forall>m \<in> set msgs. lm_level m \<noteq> l)"
  by (auto simp: of_level_def filter_empty_conv)

lemma loki_wanted_levels: "loki_wanted msgs \<longleftrightarrow> (\<exists>(l, name) \<in> set loki_levels. of_level l msgs \<noteq> [])"
proof -
  have "l \<in> fst ` set loki_levels \<longleftrightarrow> l \<noteq> trace \<and> l \<noteq> off" for l
    by (cases l) (simp_all add: loki_levels_def)
  then have "loki_wanted msgs \<longleftrightarrow> (\<exists>m \<in> set msgs. lm_level m \<in> fst ` set loki_levels)"
    by (simp add: loki_wanted_def)
  also have "\<dots> \<longleftrightarrow> (\<exists>(l, name) \<in> set loki_levels. of_level l msgs \<noteq> [])"
    by (force simp: of_level_Nil)
  finally show ?thesis .
qed

lemma loki_flush_holds:
  assumes "loki_holds s msgs"
  shows "loki_flush H s w =
    (let s' = s\<lparr>internalLogBuffer := map (\<lambda>(l, name). (name, [])) loki_levels\<rparr>
     in if loki_wanted msgs
        then let (_, h, w') = sendPOSTRequest H ''/loki/api/v1/push'' (loki_payload (basicInformation s) msgs)
                   (the (connHandler s)) w
             in Inr (s'\<lparr>connHandler := Some h\<rparr>, w')
        else Inr (s', w))"
proof -
  let ?full = "filter (\<lambda>e. snd e \<noteq> []) (map (\<lambda>(l, name). (name, of_level l msgs)) loki_levels)"
  have full: "?full = map (\<lambda>(l, name). (name, of_level l msgs)) (filter (\<lambda>(l, name). of_level l msgs \<noteq> []) loki_levels)"
    by (simp add: filter_map comp_def case_prod_unfold)
  have wanted: "?full \<noteq> [] \<longleftrightarrow> loki_wanted msgs"
    unfolding loki_wanted_levels by (force simp: filter_empty_conv)
  have buffer: "internalLogBuffer s = map (\<lambda>(l, name). (name, of_level l msgs)) loki_levels"
    and conn: "connHandler s \<noteq> None" using assms by (simp_all add: loki_holds_def)
  have entries: "join_with '','' (map (stream_entry labels) ?full) =
      join_with '','' (map (\<lambda>(l, name). stream_entry labels (name, of_level l msgs))
        (filter (\<lambda>(l, name). of_level l msgs \<noteq> []) loki_levels))" for labels
    unfolding full by (simp add: comp_def case_prod_unfold)
  obtain h where "connHandler s = Some h" using conn by auto
  then show ?thesis
    unfolding loki_flush_def buffer flush_streams_join Let_def wanted entries loki_payload_def
    by (auto simp: comp_def case_prod_unfold)
qed

lemma loki_flush_empty:
  "internalLogBuffer s = [] \<Longrightarrow> loki_flush H s w = Inr (s, w)"
  by (simp add: loki_flush_def)

section \<open>The sink as a machine that batches records\<close>

text \<open>What spdlog does with the sink, in any order: hand over a record, ask for a flush.\<close>

datatype sink_op = Take log_msg | Flush

definition sink_step :: "http_env \<Rightarrow> sink_op \<Rightarrow> fault + loki_sink \<times> world \<Rightarrow> fault + loki_sink \<times> world" where
  "sink_step H op r =
     bind_sum r (\<lambda>(s, w). case op of Take m \<Rightarrow> Inr (loki_sink_it m s, w) | Flush \<Rightarrow> loki_flush H s w)"

text \<open>The abstract machine: the batches that were sent, and the records since the last flush.\<close>

definition batch_step :: "sink_op \<Rightarrow> log_msg list list \<times> log_msg list \<Rightarrow> log_msg list list \<times> log_msg list" where
  "batch_step op st =
     (case (op, st) of
        (Take m, (sent, waiting)) \<Rightarrow> (sent, waiting @ [m])
      | (Flush, (sent, waiting)) \<Rightarrow> (if loki_wanted waiting then sent @ [waiting] else sent, []))"

text \<open>The bodies that were handed to libcurl.\<close>

fun posted :: "call list \<Rightarrow> string list" where
  "posted [] = []"
| "posted (Curl (CurlPostFields body) # cs) = body # posted cs"
| "posted (_ # cs) = posted cs"

lemma posted_append [simp]: "posted (cs @ ds) = posted cs @ posted ds"
  by (induction cs rule: posted.induct) auto

lemma sendPOST_posted:
  "\<exists>r h' w'. sendPOSTRequest H index payload h w = (r, h', w') \<and> posted (calls w') = posted (calls w) @ [payload]"
  by (simp add: sendPOSTRequest_def setCommonFieldsPayload_def performRequest_def Let_def split: prod.split)

lemma loki_flush_step:
  assumes "loki_holds s waiting"
  obtains s' w' where "loki_flush H s w = Inr (s', w')" and "loki_holds s' []"
    and "basicInformation s' = basicInformation s"
    and "posted (calls w') = posted (calls w) @
      (if loki_wanted waiting then [loki_payload (basicInformation s) waiting] else [])"
proof -
  let ?s = "s\<lparr>internalLogBuffer := map (\<lambda>(l, name). (name, [])) loki_levels\<rparr>"
  obtain r h' w' where post: "sendPOSTRequest H ''/loki/api/v1/push'' (loki_payload (basicInformation s) waiting)
      (the (connHandler s)) w = (r, h', w')"
    "posted (calls w') = posted (calls w) @ [loki_payload (basicInformation s) waiting]"
    using sendPOST_posted by blast
  have empty: "loki_holds ?s []" "loki_holds (?s\<lparr>connHandler := Some h'\<rparr>) []"
    using assms by (simp_all add: loki_holds_def)
  show thesis
  proof (cases "loki_wanted waiting")
    case True
    with post show thesis
      by (intro that [of "?s\<lparr>connHandler := Some h'\<rparr>" w', OF _ empty(2)]) (simp_all add: loki_flush_holds [OF assms] Let_def)
  next
    case False
    then show thesis by (intro that [of ?s w, OF _ empty(1)]) (simp_all add: loki_flush_holds [OF assms] Let_def)
  qed
qed

lemma sink_steps_simulate:
  assumes "loki_holds s waiting" and "posted (calls w) = old @ map (loki_payload (basicInformation s)) sent"
  shows "\<exists>s' w'. fold (sink_step H) ops (Inr (s, w)) = Inr (s', w') \<and>
    loki_holds s' (snd (fold batch_step ops (sent, waiting))) \<and>
    posted (calls w') = old @ map (loki_payload (basicInformation s)) (fst (fold batch_step ops (sent, waiting)))"
  using assms
proof (induction ops arbitrary: s w sent waiting)
  case (Cons op ops)
  show ?case
  proof (cases op)
    case (Take m)
    from Cons.IH [OF loki_holds_sink_it [OF Cons.prems(1), of m], of w sent] Cons.prems(2) show ?thesis
      by (simp add: Take sink_step_def batch_step_def loki_sink_it_rest)
  next
    case Flush
    obtain s' w' where f: "loki_flush H s w = Inr (s', w')" "loki_holds s' []" "basicInformation s' = basicInformation s"
      "posted (calls w') = posted (calls w) @
        (if loki_wanted waiting then [loki_payload (basicInformation s) waiting] else [])"
      by (rule loki_flush_step [OF Cons.prems(1)])
    from Cons.IH [OF f(2), of w' "if loki_wanted waiting then sent @ [waiting] else sent"] f Cons.prems(2)
    show ?thesis by (simp add: Flush sink_step_def batch_step_def)
  qed
qed auto

end
