(* ===== verification/ProgramSpec.thy ===== *)
theory ProgramSpec
  imports ProgramRun LoggingSpec
begin

text \<open>
  The start of the program: which components each stage leaves behind, whose flags they hold, and
  that the rounds between and after the stages keep it so. \<open>program_typed\<close> is the invariant.
\<close>

section \<open>The flag table during the start\<close>

lemma flags_http: "HTTP H addr t w = (r, w') \<Longrightarrow> vCheckFlag w' = vCheckFlag w"
  by (auto simp: HTTP_def Let_def split: if_splits)

lemma flags_loki: "loki_api_sink H bi hi addr w = (r, w') \<Longrightarrow> vCheckFlag w' = vCheckFlag w"
  by (auto simp: loki_api_sink_def dest: flags_http split: if_splits sum.splits prod.splits)

lemma flags_sentry: "sentry_api_sink bi hi ifs addr w = (r, w') \<Longrightarrow> vCheckFlag w' = vCheckFlag w"
  by (auto simp: sentry_api_sink_def setVersionContext_def setHostContext_def setNetworkContext_def Let_def
      split: if_splits option.splits)

lemma flags_sentry_it: "vCheckFlag (sentry_sink_it a msg w) = vCheckFlag w"
  by (simp add: sentry_sink_it_def split: log_level.split)

lemma flags_to_sinks: "vCheckFlag (snd (fold to_sinks msgs (ml, w))) = vCheckFlag w"
  by (induction msgs arbitrary: ml w) (simp_all add: to_sinks_def flags_sentry_it)

lemma flags_log_line: "log_line L l msg ml w = (ml', w') \<Longrightarrow> vCheckFlag w' = vCheckFlag w"
  using flags_to_sinks by (fastforce simp: log_line_def log_record_def Let_def split: if_splits dest: arg_cong [where f = snd])

lemma flags_logger: "MainLogger L E loki sentry w = (r, w') \<Longrightarrow> vCheckFlag w' = vCheckFlag w"
  by (auto simp: MainLogger_def Let_def dest!: flags_loki flags_sentry flags_log_line
      split: sum.splits prod.splits if_splits)

lemma flags_fold_log: "vCheckFlag (log_pairs es w) = vCheckFlag w"
  by (induction es arbitrary: w) (auto simp: log_pairs_def)

lemma flags_settings:
  "vCheckFlag (log_settings PE input config w) = vCheckFlag w"
  "vCheckFlag (set_verbosity input w) = vCheckFlag w"
  by (simp_all add: log_settings_def set_verbosity_def flags_fold_log Let_def)

lemma flags_add [simp]:
  "vCheckFlag (add_flag name w) = vCheckFlag w @ [(name, False)]"
  "calls (add_flag name w) = calls w"
  "last_flag (add_flag name w) = Some (length (vCheckFlag w))"
  by (simp_all add: add_flag_def last_flag_def)

section \<open>The stages\<close>

lemma boot_Go:
  assumes "boot PE input config w = Go p w'"
  shows "vCheckFlag w' = vCheckFlag w" and "\<exists>ml. p = no_program\<lparr>p_logger := Some ml\<rparr>"
    and "isValid config" and "pe_curl_init PE \<ge> 0"
  using assms by (auto simp: boot_def Let_def dest: flags_logger split: if_splits sum.splits prod.splits)

lemma register_signals_Go:
  "register_signals PE names p w = Go p' w' \<Longrightarrow> p' = p \<and> vCheckFlag w' = vCheckFlag w"
  by (induction names arbitrary: w) (auto simp: Let_def split: if_splits)

lemma start_tracer_Go:
  assumes "start_tracer PE config p w = Go p' w'"
  shows "vCheckFlag w' = vCheckFlag w @ [(''Crashpad Handler'', False)]"
    and "\<exists>tr. p' = p\<lparr>p_tracer := Some tr\<rparr> \<and> tr_thread tr \<and> tr_checkFlag tr = Some (length (vCheckFlag w))"
  using assms by (auto simp: start_tracer_def Let_def dest!: Tracer_result split: sum.splits prod.splits)

text \<open>The locals other than the Prometheus server, which every component takes a registry from.\<close>

definition same_locals :: "program \<Rightarrow> program \<Rightarrow> bool" where
  "same_locals p q \<longleftrightarrow> p_logger q = p_logger p \<and> p_tracer q = p_tracer p \<and> p_self q = p_self p \<and>
     p_zmq q = p_zmq p \<and> p_telnet q = p_telnet p"

lemma start_prometheus_Go:
  assumes "start_prometheus PE input p w = Go p' w'"
  shows "vCheckFlag w' = vCheckFlag w" and "same_locals p p'"
    and "p_prometheus p = None \<Longrightarrow>
      p_prometheus p' \<noteq> None \<longleftrightarrow> getCmdOption input ''--enable-prometheus'' \<noteq> []"
  using assms
  by (auto simp: start_prometheus_def PrometheusServer_def same_locals_def Let_def split: if_splits sum.splits option.splits)

lemma new_registry_frame:
  "new_registry p = (reg, p') \<Longrightarrow> same_locals p p' \<and> (p_prometheus p' = None \<longleftrightarrow> p_prometheus p = None)"
  by (auto simp: new_registry_def same_locals_def Let_def split: option.splits prod.splits)

lemma ProcessMetrics_Inr:
  "ProcessMetrics flag reg w = Inr (pm, w') \<Longrightarrow> pm_checkFlag pm = flag \<and> vCheckFlag w' = vCheckFlag w"
  by (auto simp: ProcessMetrics_def Let_def split: if_splits)

lemma start_self_Go:
  assumes "start_self_monitor p w = Go p' w'" and "p_self p = None"
  shows "vCheckFlag w' = vCheckFlag w @ [(''Self Monitor'', False)]"
    and "same_locals (p\<lparr>p_self := p_self p'\<rparr>) p'"
    and "p_self p' = Some pm \<Longrightarrow> pm_checkFlag pm = Some (length (vCheckFlag w))"
    and "p_self p' \<noteq> None \<longleftrightarrow> p_prometheus p \<noteq> None"
    and "p_prometheus p' \<noteq> None \<longleftrightarrow> p_prometheus p \<noteq> None"
  using assms by (auto simp: start_self_monitor_def same_locals_def Let_def dest!: ProcessMetrics_Inr new_registry_frame
      split: option.splits prod.splits sum.splits)

lemma flags_zmq_init: "zmq_init Z type addr isBind w = (r, w') \<Longrightarrow> vCheckFlag w' = vCheckFlag w"
  by (auto simp: zmq_init_def Let_def split: if_splits)

lemma flags_zmq_stats: "ZeroMQStats E reg name w = Inr (zs, w') \<Longrightarrow> vCheckFlag w' = vCheckFlag w"
  using metrics_only_init [of w] by (auto simp: ZeroMQStats_def Let_def metrics_only_def split: if_splits)

lemma flags_monitoring: "startMonitoring Z n addr w = (r, w') \<Longrightarrow> vCheckFlag w' = vCheckFlag w"
  by (auto simp: startMonitoring_def Let_def split: if_splits)

lemma ZeroMQServer_Inr:
  "ZeroMQServer E Z addr flag reg name w = (Inr srv, w') \<Longrightarrow> zCheckFlag srv = flag \<and> vCheckFlag w' = vCheckFlag w"
  by (auto simp: ZeroMQServer_def Let_def dest!: flags_zmq_init flags_zmq_stats flags_monitoring
      split: sum.splits prod.splits if_splits)

lemma zmq_initialise_frame:
  "zmq_initialise Z srv w = (r, srv', w') \<Longrightarrow>
    vCheckFlag w' = vCheckFlag w \<and> zCheckFlag srv' = zCheckFlag srv \<and> zCallback srv' = zCallback srv"
  by (auto simp: zmq_initialise_def zmq_start_def Let_def split: sum.splits prod.splits if_splits bool.splits)

lemma start_zmq_Go:
  assumes "start_zmq PE input p w = Go p' w'" and "p_zmq p = None"
  shows "vCheckFlag w' = vCheckFlag w @ [(''ZeroMQ Server'', False)]"
    and "same_locals (p\<lparr>p_zmq := p_zmq p'\<rparr>) p'"
    and "p_zmq p' = Some srv \<Longrightarrow>
      zCheckFlag srv = Some (length (vCheckFlag w)) \<and> zCallback srv = Some ZeroMQServerMessageCallback"
    and "p_zmq p' \<noteq> None \<longleftrightarrow> getCmdOption input ''--enable-zeromq'' \<noteq> []"
    and "p_prometheus p' \<noteq> None \<longleftrightarrow> p_prometheus p \<noteq> None"
  using assms by (auto simp: start_zmq_def same_locals_def Let_def
      dest!: ZeroMQServer_Inr new_registry_frame zmq_initialise_frame
      split: if_splits prod.splits sum.splits)

text \<open>A telnet server as the program has it: shipped callbacks, flag \<open>i\<close> while its thread runs.\<close>

definition telnet_ok :: "nat \<Rightarrow> telnet_server \<Rightarrow> bool" where
  "telnet_ok i srv \<longleftrightarrow>
     server_ok TelnetConnectedCallback TelnetMessageCallback TelnetTabCallback srv \<and>
     (m_initialised srv \<longrightarrow> m_checkFlag srv = Some i)"

lemma telnet_initialise_ok:
  assumes "server_initialise E port (Some i) prompt reg name (new_server\<lparr>srv_cfg := shipped_cfg []\<rparr>) w =
      Inr (ok, srv, w')"
  shows "telnet_ok i srv \<and> vCheckFlag w' = vCheckFlag w"
proof -
  have "server_ok TelnetConnectedCallback TelnetMessageCallback TelnetTabCallback (new_server\<lparr>srv_cfg := shipped_cfg []\<rparr>)"
    by (simp add: server_ok_def new_server_def shipped_cfg_def)
  from shipped.server_step_ok(1) [OF server_step.initialise [OF assms] this]
  have "server_ok TelnetConnectedCallback TelnetMessageCallback TelnetTabCallback srv" .
  moreover have "m_initialised srv \<Longrightarrow> ok"
    using server_initialise_Inr(5) [OF assms] by (cases ok) (simp_all add: new_server_def)
  ultimately show ?thesis
    using server_initialise_Inr(1,4) [OF assms] by (auto simp: telnet_ok_def)
qed

lemma start_telnet_Go:
  assumes "start_telnet PE input p w = Go p' w'" and "p_telnet p = None"
  shows "vCheckFlag w' = vCheckFlag w @ [(''Telnet Server'', False)]"
    and "same_locals (p\<lparr>p_telnet := p_telnet p'\<rparr>) p'"
    and "p_telnet p' = Some srv \<Longrightarrow> telnet_ok (length (vCheckFlag w)) srv"
    and "p_telnet p' \<noteq> None \<longleftrightarrow> cmdOptionExists input ''--enable-telnet''"
    and "p_prometheus p' \<noteq> None \<longleftrightarrow> p_prometheus p \<noteq> None"
    and "cmdOptionExists input ''--enable-telnet'' \<Longrightarrow> \<exists>port. telnet_port input = Inr port"
  using assms by (auto simp: start_telnet_def same_locals_def Let_def
      dest!: new_registry_frame telnet_initialise_ok
      split: if_splits prod.splits sum.splits)

section \<open>The running program\<close>

definition program_ok :: "program \<Rightarrow> bool" where
  "program_ok p \<longleftrightarrow>
     (\<forall>tr. p_tracer p = Some tr \<longrightarrow> tr_checkFlag tr = Some 0) \<and>
     (\<forall>pm. p_self p = Some pm \<longrightarrow> pm_checkFlag pm = Some 1) \<and>
     (\<forall>srv. p_zmq p = Some srv \<longrightarrow>
        zCheckFlag srv = Some 2 \<and> zCallback srv = Some ZeroMQServerMessageCallback) \<and>
     (\<forall>srv. p_telnet p = Some srv \<longrightarrow> telnet_ok 3 srv)"

text \<open>The components after \<open>k\<close> stages.\<close>

definition components :: "nat \<Rightarrow> string list \<Rightarrow> program \<Rightarrow> bool" where
  "components k input p \<longleftrightarrow> p_logger p \<noteq> None \<and>
     (if k \<ge> 1 then \<exists>tr. p_tracer p = Some tr \<and> tr_thread tr else p_tracer p = None) \<and>
     (p_prometheus p \<noteq> None \<longleftrightarrow> k \<ge> 2 \<and> getCmdOption input ''--enable-prometheus'' \<noteq> []) \<and>
     (p_self p \<noteq> None \<longleftrightarrow> k \<ge> 3 \<and> getCmdOption input ''--enable-prometheus'' \<noteq> []) \<and>
     (p_zmq p \<noteq> None \<longleftrightarrow> k \<ge> 4 \<and> getCmdOption input ''--enable-zeromq'' \<noteq> []) \<and>
     (p_telnet p \<noteq> None \<longleftrightarrow> k \<ge> 5 \<and> cmdOptionExists input ''--enable-telnet'') \<and>
     (p_telnet p \<noteq> None \<longrightarrow> (\<exists>port. telnet_port input = Inr port))"

text \<open>The entries of the flag table after \<open>k\<close> stages: all but the second add one.\<close>

definition entries :: "nat \<Rightarrow> nat" where
  "entries k = (if k \<le> 1 then k else k - 1)"

section \<open>The table while the program runs\<close>

text \<open>Whether a service has ended a round since the last alarm.\<close>

definition beaten :: "string \<Rightarrow> beat list \<Rightarrow> bool" where
  "beaten name bs \<longleftrightarrow> Beat name \<in> set (takeWhile (\<lambda>b. b \<noteq> AlarmBeat) (rev bs))"

lemma beaten_simps [simp]:
  "\<not> beaten name []"
  "beaten name (bs @ [b]) \<longleftrightarrow> b \<noteq> AlarmBeat \<and> (b = Beat name \<or> beaten name bs)"
  by (auto simp: beaten_def)

lemma beaten_mem: "beaten name bs \<Longrightarrow> Beat name \<in> set bs"
  by (auto simp: beaten_def dest: set_takeWhileD)

text \<open>A table of the first \<open>k\<close> services.\<close>

definition table :: "nat \<Rightarrow> (string \<Rightarrow> bool) \<Rightarrow> (string \<times> bool) list" where
  "table k f = map (\<lambda>n. (n, f n)) (take k service_names)"

lemma length_services [simp]: "length service_names = 4"
  by (simp add: service_names_def)

lemma length_table [simp]: "length (table k f) = min k 4"
  by (simp add: table_def)

lemma table_snoc:
  assumes "k < 4" and "\<not> f (service_names ! k)"
  shows "table k f @ [(service_names ! k, False)] = table (Suc k) f"
  using assms by (simp add: table_def take_Suc_conv_app_nth)

lemma set_flag_service:
  assumes "vCheckFlag w = table k f" and "i < k" and "k \<le> 4"
  shows "vCheckFlag (set_flag (Some i) w) = table k (\<lambda>n. n = service_names ! i \<or> f n)"
proof -
  have "distinct service_names" by (simp add: service_names_def)
  then have "(table k f)[i := (fst (table k f ! i), True)] = table k (\<lambda>n. n = service_names ! i \<or> f n)"
    using assms(2,3) by (intro nth_equalityI) (auto simp: table_def nth_list_update nth_eq_iff_index_eq)
  then show ?thesis using assms by (simp add: set_flag_def)
qed

lemma clear_flags_service: "vCheckFlag w = table k f \<Longrightarrow> vCheckFlag (clear_flags w) = table k (\<lambda>_. False)"
  by (simp add: clear_flags_def table_def comp_def)

lemma flags_pm_update: "pm_update regex r pm w = (res, pm', w') \<Longrightarrow>
    vCheckFlag w' = vCheckFlag w \<and> pm_checkFlag pm' = pm_checkFlag pm"
  by (auto simp: pm_update_def getCpuUsage_def getDiskIO_def Let_def
      split: sum.splits prod.splits if_splits)

section \<open>The contract of a service\<close>

text \<open>
  What the program relies on in each of its four threads: a round that ends without an exception
  leaves the table alone and the component well formed, under the same flag, which the thread then
  sets.
\<close>

locale service =
  fixes flag :: "'c \<Rightarrow> nat option"
    and round_ends :: "'c \<Rightarrow> world \<Rightarrow> 'c \<Rightarrow> world \<Rightarrow> bool"
    and well_formed :: "'c \<Rightarrow> bool"
  assumes round_keeps: "well_formed c \<Longrightarrow> round_ends c w c' w' \<Longrightarrow>
    vCheckFlag w' = vCheckFlag w \<and> flag c' = flag c \<and> well_formed c'"
begin

lemma round_marks:
  assumes "well_formed c" and "round_ends c w c' w'" and "flag c = Some i" and "i < k" and "k \<le> 4"
    and "vCheckFlag w = table k f"
  shows "vCheckFlag (set_flag (flag c') w') = table k (\<lambda>n. n = service_names ! i \<or> f n)"
  using round_keeps [OF assms(1,2)] assms(3-6) set_flag_service [of w' k f i] by simp

end

interpretation watchdog: service tr_checkFlag "\<lambda>tr w tr' w'. tr' = tr \<and> w' = w" "\<lambda>tr. True"
  by unfold_locales simp

interpretation self_monitor: service pm_checkFlag
  "\<lambda>pm w pm' w'. \<exists>regex reading. pm_update regex reading pm w = (Inr (), pm', w')" "\<lambda>pm. True"
  by unfold_locales (auto dest: flags_pm_update)

interpretation request_server: service zCheckFlag
  "\<lambda>srv w srv' w'. srv' = srv \<and> zmq_update E Z srv w = Inr (Inr (), w')"
  "\<lambda>srv. zmq_env_ok Z \<and> zCallback srv = Some ZeroMQServerMessageCallback" for E Z
proof unfold_locales
  fix c w c' w'
  assume "zmq_env_ok Z \<and> zCallback c = Some ZeroMQServerMessageCallback"
    "c' = c \<and> zmq_update E Z c w = Inr (Inr (), w')"
  then show "vCheckFlag w' = vCheckFlag w \<and> zCheckFlag c' = zCheckFlag c \<and>
      (zmq_env_ok Z \<and> zCallback c' = Some ZeroMQServerMessageCallback)"
    using zmq_update_shipped [of Z c E w] by auto
qed

interpretation telnet_service: service m_checkFlag
  "\<lambda>srv w srv' w'. server_update E srv w = Inr (srv', w')"
  "\<lambda>srv. server_ok TelnetConnectedCallback TelnetMessageCallback TelnetTabCallback srv \<and> m_initialised srv" for E
proof unfold_locales
  fix c w c' w'
  assume "server_ok TelnetConnectedCallback TelnetMessageCallback TelnetTabCallback c \<and> m_initialised c"
    "server_update E c w = Inr (c', w')"
  then show "vCheckFlag w' = vCheckFlag w \<and> m_checkFlag c' = m_checkFlag c \<and>
      (server_ok TelnetConnectedCallback TelnetMessageCallback TelnetTabCallback c' \<and> m_initialised c')"
    using shipped.server_update_Inr [of E c w c' w'] by auto
qed

section \<open>Steps and stages\<close>

lemma components_service:
  assumes "components k input p" and "k \<le> 5"
  shows "p_tracer p \<noteq> None \<longrightarrow> 0 < entries k" and "p_self p \<noteq> None \<longrightarrow> 1 < entries k"
    and "p_zmq p \<noteq> None \<longrightarrow> 2 < entries k" and "p_telnet p \<noteq> None \<longrightarrow> 3 < entries k" and "entries k \<le> 4"
  using assms by (auto simp: components_def entries_def split: if_splits)

lemma program_step_components:
  "program_step PE (p, w) b (p', w') \<Longrightarrow> components k input p \<Longrightarrow> components k input p'"
  by (erule program_step.cases) (auto simp: components_def split: if_splits)

lemma service_mem: "i < k \<Longrightarrow> k \<le> 4 \<Longrightarrow> service_names ! i \<in> set (take k service_names)"
  by (auto simp: in_set_conv_nth intro!: exI [of _ i])

lemma program_step_ok:
  assumes "program_step PE (p, w) b (p', w')" and "program_ok p" and "zmq_env_ok (pe_Z PE)"
    and "vCheckFlag w = table n f" and "n \<le> 4"
    and present: "p_tracer p \<noteq> None \<longrightarrow> 0 < n" "p_self p \<noteq> None \<longrightarrow> 1 < n"
      "p_zmq p \<noteq> None \<longrightarrow> 2 < n" "p_telnet p \<noteq> None \<longrightarrow> 3 < n"
  shows "program_ok p' \<and> vCheckFlag w' = table n (\<lambda>s. b \<noteq> AlarmBeat \<and> (b = Beat s \<or> f s)) \<and>
    (\<forall>s. b = Beat s \<longrightarrow> s \<in> set (take n service_names))"
  using assms(1)
proof cases
  case alarm
  then show ?thesis using assms(2,4) clear_flags_service [of "emit (Sys (Alarm alarmInterval)) w" n f]
    by (simp add: alarmFunc_def)
next
  case (crash tr probe)
  then have flag: "tr_checkFlag tr = Some 0" and n: "0 < n" using assms(2) present by (simp_all add: program_ok_def)
  with crash have "w' = set_flag (tr_checkFlag tr) w" by (auto simp: tracer_loop_zero)
  then show ?thesis using crash assms(2) watchdog.round_marks [OF _ _ flag n assms(5,4)] service_mem [OF n assms(5)]
    by (simp add: service_names_def eq_commute)
next
  case (self pm regex reading pm' w1)
  then have flag: "pm_checkFlag pm = Some 1" and n: "1 < n" using assms(2) present by (simp_all add: program_ok_def)
  have ends: "\<exists>regex reading. pm_update regex reading pm w = (Inr (), pm', w1)" using self(5) by blast
  show ?thesis
    using self assms(2) self_monitor.round_keeps [OF _ ends] flag service_mem [OF n assms(5)]
      self_monitor.round_marks [OF _ ends flag n assms(5,4)]
    by (auto simp: service_names_def program_ok_def eq_commute)
next
  case (self_failed pm regex reading e pm' w1)
  from flags_pm_update [OF self_failed(5)] assms(2) self_failed(4)
  have "pm_checkFlag pm' = Some 1" "vCheckFlag w1 = table n f" by (auto simp: program_ok_def assms(4))
  then show ?thesis using self_failed assms(2) by (auto simp: program_ok_def)
next
  case (zmq srv w1)
  then have srv: "zCheckFlag srv = Some 2" "zmq_env_ok (pe_Z PE) \<and> zCallback srv = Some ZeroMQServerMessageCallback"
    and n: "2 < n" using assms(2,3) present by (auto simp: program_ok_def)
  from request_server.round_marks [OF srv(2) _ srv(1) n assms(5,4), where E = "pe_E PE" and c' = srv and w' = w1] zmq
  show ?thesis using assms(2) service_mem [OF n assms(5)] by (simp add: service_names_def eq_commute)
next
  case (zmq_failed srv e w1)
  have srv: "zCallback srv = Some ZeroMQServerMessageCallback"
    using zmq_failed assms(2) by (auto simp: program_ok_def)
  then have "vCheckFlag w1 = table n f"
    using zmq_update_shipped [OF assms(3) srv, of "pe_E PE" w] zmq_failed(6) assms(4) by auto
  then show ?thesis using zmq_failed assms(2) by simp
next
  case (telnet srv srv' w1)
  have "telnet_ok 3 srv" and n: "3 < n" using telnet assms(2) present by (auto simp: program_ok_def)
  then have srv: "server_ok TelnetConnectedCallback TelnetMessageCallback TelnetTabCallback srv \<and> m_initialised srv"
    "m_checkFlag srv = Some 3"
    using telnet by (auto simp: telnet_ok_def server_ok_def)
  from telnet_service.round_keeps [OF srv(1) telnet(6)] srv(2) have "telnet_ok 3 srv'" by (simp add: telnet_ok_def)
  with telnet_service.round_marks [OF srv(1) telnet(6) srv(2) n assms(5,4)] telnet assms(2) service_mem [OF n assms(5)]
  show ?thesis by (auto simp: service_names_def program_ok_def eq_commute)
qed

section \<open>The invariants of the start\<close>

lemma prologue_Go:
  assumes "prologue PE input config w = Go p v"
  obtains ml u where "boot PE input config w = Go p u" and "p = no_program\<lparr>p_logger := Some ml\<rparr>"
    and "vCheckFlag v = vCheckFlag w" and "isValid config" and "pe_curl_init PE \<ge> 0"
proof -
  from assms obtain q u where boot: "boot PE input config w = Go q u"
    and signals: "register_signals PE [''SIGINT'', ''SIGTERM'', ''SIGALRM''] q
      (log_settings PE input config (set_verbosity input u)) = Go p v"
    unfolding prologue_def by (elim go_GoE)
  from boot_Go(2) [OF boot] obtain ml where "q = no_program\<lparr>p_logger := Some ml\<rparr>" by blast
  with register_signals_Go [OF signals] boot_Go(1,3,4) [OF boot] boot show thesis
    by (intro that [of u ml]) (simp_all add: flags_settings)
qed

lemma five_stages: "k < 5 \<Longrightarrow> k = 0 \<or> k = 1 \<or> k = 2 \<or> k = 3 \<or> k = (4::nat)"
  by linarith

lemma stages_simps [simp]:
  "stages PE input config ! 0 = start_tracer PE config" "stages PE input config ! Suc 0 = start_prometheus PE input"
  "stages PE input config ! 2 = start_self_monitor" "stages PE input config ! 3 = start_zmq PE input"
  "stages PE input config ! 4 = start_telnet PE input"
  by (simp_all add: stages_def)

lemma stage_components:
  assumes "k < 5" and "components k input p" and "(stages PE input config ! k) p v = Go q u"
  shows "components (Suc k) input q"
  using five_stages [OF assms(1)]
proof (elim disjE)
  assume "k = 0"
  then show ?thesis using assms(2,3) start_tracer_Go(2) [of PE config p v q u] by (auto simp: components_def)
next
  assume "k = 1"
  then show ?thesis using assms(2,3) start_prometheus_Go(2,3) [of PE input p v q u]
    by (auto simp: components_def same_locals_def)
next
  assume "k = 2"
  then show ?thesis using assms(2,3) start_self_Go(2,4,5) [of p v q u] by (auto simp: components_def same_locals_def)
next
  assume "k = 3"
  then show ?thesis using assms(2,3) start_zmq_Go(2,4,5) [of PE input p v q u] by (auto simp: components_def same_locals_def)
next
  assume "k = 4"
  then show ?thesis using assms(2,3) start_telnet_Go(2,4,5,6) [of PE input p v q u]
    by (auto simp: components_def same_locals_def)
qed

interpretation parts: program_invariant PE argv w
  "\<lambda>k bs p v. components k (InputParser argv) p \<and> isValid (main_config PE argv) \<and> pe_curl_init PE \<ge> 0" for PE argv w
proof unfold_locales
  fix p v
  assume "prologue PE (InputParser argv) (main_config PE argv) w = Go p v"
  then show "components 0 (InputParser argv) p \<and> isValid (main_config PE argv) \<and> pe_curl_init PE \<ge> 0"
    by (rule prologue_Go) (simp add: components_def no_program_def)
next
  fix k bs p v q u
  assume "k < 5" "components k (InputParser argv) p \<and> isValid (main_config PE argv) \<and> pe_curl_init PE \<ge> 0"
    "(stages PE (InputParser argv) (main_config PE argv) ! k) p v = Go q u"
  with stage_components show "components (Suc k) (InputParser argv) q \<and> isValid (main_config PE argv) \<and> pe_curl_init PE \<ge> 0"
    by blast
next
  fix k bs p v b q u
  assume "components k (InputParser argv) p \<and> isValid (main_config PE argv) \<and> pe_curl_init PE \<ge> 0"
    "program_step PE (p, v) b (q, u)"
  with program_step_components show "components k (InputParser argv) q \<and> isValid (main_config PE argv) \<and> pe_curl_init PE \<ge> 0"
    by blast
qed

text \<open>
  The well-formed states: the table lists the services started so far, each with whether it made a
  round since the last alarm, and no service was heard of before its start.
\<close>

definition program_typed :: "nat \<Rightarrow> string list \<Rightarrow> beat list \<Rightarrow> program \<Rightarrow> world \<Rightarrow> bool" where
  "program_typed k input bs p v \<longleftrightarrow> k \<le> 5 \<and> program_ok p \<and> components k input p \<and>
     vCheckFlag v = table (entries k) (\<lambda>s. beaten s bs) \<and>
     (\<forall>s. Beat s \<in> set bs \<longrightarrow> s \<in> set (take (entries k) service_names))"

lemma program_step_typed:
  assumes "program_step PE (p, v) b (q, u)" and "program_typed k input bs p v" and "zmq_env_ok (pe_Z PE)"
  shows "program_typed k input (bs @ [b]) q u"
proof -
  from assms(2) have typed: "program_ok p" "components k input p" "k \<le> 5"
    "vCheckFlag v = table (entries k) (\<lambda>s. beaten s bs)" by (simp_all add: program_typed_def)
  note n = components_service [OF typed(2,3)]
  from program_step_ok [OF assms(1) typed(1) assms(3) typed(4) n(5,1-4)] program_step_components [OF assms(1) typed(2)]
  show ?thesis using assms(2) by (auto simp: program_typed_def cong: conj_cong)
qed

lemma new_entry:
  assumes "program_typed k input bs p v" and "n = entries k" and "n < 4"
  shows "vCheckFlag v @ [(service_names ! n, False)] = table (Suc n) (\<lambda>s. beaten s bs)"
    and "length (vCheckFlag v) = n"
proof -
  have "distinct service_names" by (simp add: service_names_def)
  then have "service_names ! n \<notin> set (take n service_names)"
    using assms(3) by (auto simp: in_set_conv_nth nth_eq_iff_index_eq)
  then have "\<not> beaten (service_names ! n) bs"
    using assms(1,2) beaten_mem [of "service_names ! n" bs] by (auto simp: program_typed_def)
  then show "vCheckFlag v @ [(service_names ! n, False)] = table (Suc n) (\<lambda>s. beaten s bs)"
    using assms table_snoc [of n "\<lambda>s. beaten s bs"] by (simp add: program_typed_def)
  show "length (vCheckFlag v) = n" using assms by (simp add: program_typed_def)
qed

lemma stage_typed:
  assumes "k < 5" and "program_typed k input bs p v" and "(stages PE input config ! k) p v = Go q u"
  shows "program_typed (Suc k) input bs q u"
proof -
  have ok: "program_ok p" and comps: "components k input p" using assms(2) by (simp_all add: program_typed_def)
  have "program_ok q \<and> vCheckFlag u = table (entries (Suc k)) (\<lambda>s. beaten s bs)"
    using five_stages [OF assms(1)]
  proof (elim disjE)
    assume k: "k = 0"
    note e = new_entry [OF assms(2), of 0]
    from start_tracer_Go [of PE config p v q u] assms(3) k e show ?thesis
      using ok by (auto simp: program_ok_def entries_def service_names_def)
  next
    assume k: "k = 1"
    from start_prometheus_Go(1,2) [of PE input p v q u] assms(2,3) k show ?thesis
      using ok by (simp add: program_ok_def same_locals_def program_typed_def entries_def)
  next
    assume k: "k = 2"
    note e = new_entry [OF assms(2), of 1]
    have none: "p_self p = None" using comps k by (simp add: components_def)
    have stage: "start_self_monitor p v = Go q u" using assms(3) k by simp
    from start_self_Go(1-3) [OF stage none] k e ok show ?thesis
      by (auto simp: program_ok_def same_locals_def entries_def service_names_def numeral_2_eq_2)
  next
    assume k: "k = 3"
    note e = new_entry [OF assms(2), of 2]
    have none: "p_zmq p = None" using comps k by (simp add: components_def)
    have stage: "start_zmq PE input p v = Go q u" using assms(3) k by simp
    from start_zmq_Go(1-3) [OF stage none] k e ok show ?thesis
      by (auto simp: program_ok_def same_locals_def entries_def service_names_def)
  next
    assume k: "k = 4"
    note e = new_entry [OF assms(2), of 3]
    have none: "p_telnet p = None" using comps k by (simp add: components_def)
    have stage: "start_telnet PE input p v = Go q u" using assms(3) k by simp
    from start_telnet_Go(1-3) [OF stage none] k e ok show ?thesis
      by (auto simp: program_ok_def same_locals_def entries_def service_names_def)
  qed
  moreover have "set (take (entries k) service_names) \<subseteq> set (take (entries (Suc k)) service_names)"
    by (rule set_take_subset_set_take) (simp add: entries_def)
  ultimately show ?thesis
    using assms(1,2) stage_components [OF assms(1) comps assms(3)] by (auto simp: program_typed_def)
qed

interpretation typed: program_invariant PE argv w
  "\<lambda>k bs p v. vCheckFlag w = [] \<and> zmq_env_ok (pe_Z PE) \<longrightarrow> program_typed k (InputParser argv) bs p v" for PE argv w
proof unfold_locales
  fix p v
  assume start: "prologue PE (InputParser argv) (main_config PE argv) w = Go p v"
  obtain ml where "p = no_program\<lparr>p_logger := Some ml\<rparr>" "vCheckFlag v = vCheckFlag w"
    by (rule prologue_Go [OF start])
  moreover have "components 0 (InputParser argv) p" using parts.begins [OF start] by blast
  ultimately show "vCheckFlag w = [] \<and> zmq_env_ok (pe_Z PE) \<longrightarrow> program_typed 0 (InputParser argv) [] p v"
    by (simp add: program_typed_def program_ok_def no_program_def table_def entries_def)
qed (use stage_typed program_step_typed in blast)+

text \<open>A program that has started.\<close>

lemma startup_typed:
  assumes "startup PE argv w ms (Go p v) flag" and "vCheckFlag w = []" and "zmq_env_ok (pe_Z PE)"
  shows "program_ok p" and "vCheckFlag v = table 4 (\<lambda>s. beaten s (beats ms))"
  using typed.startup_keeps [OF assms(1)] assms(2,3) by (simp_all add: program_typed_def entries_def)

lemma startup_parts:
  assumes "startup PE argv w ms (Go p v) flag"
  shows "components 5 (InputParser argv) p" and "isValid (main_config PE argv)" and "pe_curl_init PE \<ge> 0"
  using parts.startup_keeps [OF assms] by simp_all

end
