(* ===== verification/TelnetShutdown.thy ===== *)
theory TelnetShutdown
  imports TelnetLife Interleave
begin

text \<open>
  \<open>TelnetServer::shutdown\<close> while the thread of the server still runs. \<open>shutdown\<close> closes the
  sessions and the listening socket first and stops the thread last, so rounds of the thread
  fall between its statements. A schedule lists who moves: the owner makes one statement, the
  thread makes one whole round. A round that starts inside a statement is not modelled.
\<close>

section \<open>The statements of \<open>shutdown\<close>\<close>

datatype shutdown_pc = CloseSessions | ClearSessions | CloseListener | ForgetListener
  | MarkUninitialised | StopThread | ShutdownReturned

text \<open>\<open>closeClient\<close> for every session of the vector, which still holds them afterwards.\<close>

fun close_each :: "env \<Rightarrow> session list \<Rightarrow> world \<Rightarrow> session list \<times> world" where
  "close_each E [] w = ([], w)"
| "close_each E (s # ss) w =
     (let x = closeClient E \<lparr>sess = s, wrld = w\<rparr>;
          (ss, w) = close_each E ss (wrld x)
      in (sess x # ss, w))"

fun shutdown_stmt ::
    "env \<Rightarrow> shutdown_pc \<Rightarrow> telnet_server \<Rightarrow> world \<Rightarrow> shutdown_pc \<times> telnet_server \<times> world" where
  "shutdown_stmt E CloseSessions srv w =
     (let (ss, w) = close_each E (m_sessions srv) w in (ClearSessions, srv\<lparr>m_sessions := ss\<rparr>, w))"
| "shutdown_stmt E ClearSessions srv w = (CloseListener, srv\<lparr>m_sessions := []\<rparr>, w)"
| "shutdown_stmt E CloseListener srv w = (ForgetListener, srv, emit (Close (m_listenSocket srv)) w)"
| "shutdown_stmt E ForgetListener srv w = (MarkUninitialised, srv\<lparr>m_listenSocket := INVALID_SOCKET\<rparr>, w)"
| "shutdown_stmt E MarkUninitialised srv w = (StopThread, srv\<lparr>m_initialised := False\<rparr>, w)"
| "shutdown_stmt E StopThread srv w =
     (ShutdownReturned, srv\<lparr>m_serverThread := False\<rparr>, if m_serverThread srv then emit Join w else w)"
| "shutdown_stmt E ShutdownReturned srv w = (ShutdownReturned, srv, w)"

section \<open>Schedules\<close>

type_synonym shutdown_conf = "shutdown_pc \<times> telnet_server \<times> world"

text \<open>One turn of the loop of \<open>threadFunc\<close>, if the thread is still there.\<close>

definition worker_round :: "env \<Rightarrow> telnet_server \<Rightarrow> world \<Rightarrow> fault + telnet_server \<times> world" where
  "worker_round E srv w =
     (if m_serverThread srv
      then bind_sum (server_update E srv w) (\<lambda>(srv, w). Inr (srv, set_flag (m_checkFlag srv) w))
      else Inr (srv, w))"

fun shutdown_move :: "env \<Rightarrow> mover \<Rightarrow> shutdown_conf \<Rightarrow> fault + shutdown_conf" where
  "shutdown_move E Owner (pc, srv, w) = Inr (shutdown_stmt E pc srv w)"
| "shutdown_move E Worker (pc, srv, w) = bind_sum (worker_round E srv w) (\<lambda>(srv, w). Inr (pc, srv, w))"

abbreviation shutdown_run :: "env \<Rightarrow> mover list \<Rightarrow> shutdown_conf \<Rightarrow> fault + shutdown_conf" where
  "shutdown_run E \<equiv> run_moves (shutdown_move E)"

lemma close_each_sockets [simp]: "map m_socket (fst (close_each E ss w)) = map m_socket ss"
proof (induction ss arbitrary: w)
  case (Cons s ss)
  obtain a now where "sess (closeClient E \<lparr>sess = s, wrld = w\<rparr>) =
      s\<lparr>stats := (stats s)\<lparr>disconnectTime := now\<rparr>\<rparr>"
    by (rule closeClient_calls [where E = E and x = "\<lparr>sess = s, wrld = w\<rparr>"]) simp
  then show ?case using Cons.IH by (simp add: case_prod_beta Let_def)
qed simp

lemma close_each_world [simp]: "snd (close_each E ss w) = close_sessions E ss w"
proof (induction ss arbitrary: w)
  case (Cons s ss)
  then show ?case
    by (simp only: close_each.simps Let_def case_prod_beta snd_conv) (simp add: close_sessions_def)
qed (simp add: close_sessions_def)

lemma close_each_history:
  "\<forall>s \<in> set ss. history_ok s \<Longrightarrow> \<forall>s \<in> set (fst (close_each E ss w)). history_ok s"
proof (induction ss arbitrary: w)
  case (Cons s ss)
  obtain a now where "sess (closeClient E \<lparr>sess = s, wrld = w\<rparr>) =
      s\<lparr>stats := (stats s)\<lparr>disconnectTime := now\<rparr>\<rparr>"
    by (rule closeClient_calls [where E = E and x = "\<lparr>sess = s, wrld = w\<rparr>"]) simp
  then have "history_ok (sess (closeClient E \<lparr>sess = s, wrld = w\<rparr>)) = history_ok s"
    by (simp only: history_ok_def) simp
  moreover have "\<forall>t \<in> set (fst (close_each E ss v)). history_ok t" for v
    using Cons.prems by (intro Cons.IH) simp
  ultimately show ?case using Cons.prems
    by (simp add: case_prod_beta Let_def)
qed simp

text \<open>The statements one after the other are the function \<open>server_shutdown\<close>.\<close>

lemma shutdown_statements:
  "shutdown_run E (replicate 6 Owner) (CloseSessions, srv, w) =
     (case server_shutdown E srv w of (srv, w) \<Rightarrow> Inr (ShutdownReturned, srv, w))"
  by (simp add: eval_nat_numeral case_prod_beta server_shutdown_def Let_def)

lemma update_keeps_thread:
  assumes "server_update E srv w = Inr (srv', w')"
  shows "m_serverThread srv' = m_serverThread srv" and "m_checkFlag srv' = m_checkFlag srv"
  using assms
  by (auto simp: server_update_def acceptConnection_def Let_def case_prod_beta bind_sum_def
      split: if_splits sum.splits)

lemma rounds_run:
  assumes "m_serverThread srv"
  shows "shutdown_run E (replicate n Worker) (pc, srv, w) =
     bind_sum (server_rounds E n srv w) (\<lambda>(srv, w). Inr (pc, srv, w))"
  using assms
proof (induction n arbitrary: srv w)
  case (Suc n)
  show ?case
  proof (cases "server_update E srv w")
    case (Inr r)
    obtain srv1 w1 where "r = (srv1, w1)" by (cases r)
    then show ?thesis using Suc Inr update_keeps_thread [of E srv w srv1 w1]
      by (simp add: worker_round_def)
  qed (simp add: worker_round_def Suc.prems)
qed simp

section \<open>What is left when \<open>shutdown\<close> has returned\<close>

text \<open>How many statements were made.\<close>

fun pc_index :: "shutdown_pc \<Rightarrow> nat" where
  "pc_index CloseSessions = 0" | "pc_index ClearSessions = 1" | "pc_index CloseListener = 2"
| "pc_index ForgetListener = 3" | "pc_index MarkUninitialised = 4" | "pc_index StopThread = 5"
| "pc_index ShutdownReturned = 6"

text \<open>
  The server at each statement. Until the listening socket is forgotten it is the server of
  \<open>server_ok\<close>; then the socket is invalid, and the thread runs until the last statement.
\<close>

fun shutdown_ok :: "connected_cb \<Rightarrow> newline_cb \<Rightarrow> tab_cb \<Rightarrow> shutdown_conf \<Rightarrow> bool" where
  "shutdown_ok c n t (pc, srv, w) \<longleftrightarrow>
     (if pc_index pc < 4 then server_ok c n t srv \<and> m_initialised srv \<and> listen_in_range srv
      else m_listenSocket srv = INVALID_SOCKET \<and> m_serverThread srv = (pc \<noteq> ShutdownReturned) \<and>
        (pc_index pc > 4 \<longrightarrow> \<not> m_initialised srv))"

lemma late_round_faults:
  assumes "shutdown_ok c n t (pc, srv, w)" and "pc_index pc = 4 \<or> pc_index pc = 5"
  shows "shutdown_move E Worker (pc, srv, w) = Inl FdSetRange"
  using assms by (cases pc) (auto simp: worker_round_def server_update_def INVALID_SOCKET_def)

context telnet_callbacks
begin

lemma owner_move_ok:
  assumes "shutdown_ok connected newline tab (pc, srv, w)"
  shows "\<exists>c'. shutdown_move E Owner (pc, srv, w) = Inr c' \<and> shutdown_ok connected newline tab c' \<and>
    pc_index (fst c') = min 6 (Suc (pc_index pc))"
proof (cases pc)
  case CloseSessions
  obtain ss v where c: "close_each E (m_sessions srv) w = (ss, v)" by (cases "close_each E (m_sessions srv) w")
  have "length (map m_socket ss) = length (map m_socket (m_sessions srv))"
    using close_each_sockets [of E "m_sessions srv" w] c by simp
  moreover have "\<forall>s \<in> set ss. history_ok s"
    using assms CloseSessions close_each_history [of "m_sessions srv" E w] c by (simp add: server_ok_def)
  ultimately show ?thesis using assms CloseSessions c
    by (auto simp: server_ok_def listen_in_range_def)
qed (use assms in \<open>auto simp: server_ok_def listen_in_range_def\<close>)

lemma worker_move_ok:
  assumes ok: "shutdown_ok connected newline tab (pc, srv, w)"
    and move: "shutdown_move E Worker (pc, srv, w) = Inr c'"
  shows "shutdown_ok connected newline tab c' \<and> fst c' = pc"
proof (cases "pc_index pc < 4")
  case True
  then have srv: "server_ok connected newline tab srv" "m_initialised srv" "listen_in_range srv" "m_serverThread srv"
    using ok by (auto simp: server_ok_def)
  with move obtain srv' w' where "server_update E srv w = Inr (srv', w')"
    "c' = (pc, srv', set_flag (m_checkFlag srv') w')"
    by (auto simp: worker_round_def bind_sum_def split: sum.splits)
  with server_update_Inr [OF this(1) srv(1,2)] True srv(3) show ?thesis
    by (auto simp: listen_in_range_def)
next
  case False
  with late_round_faults [OF ok, of E] move have "pc = ShutdownReturned"
    by (cases pc) auto
  with ok move show ?thesis by (auto simp: worker_round_def)
qed

lemma shutdown_run_ok:
  assumes "shutdown_ok connected newline tab c" and "shutdown_run E sched c = Inr c'"
  shows "shutdown_ok connected newline tab c' \<and>
    pc_index (fst c') = min 6 (pc_index (fst c) + count_list sched Owner)"
  using assms
proof (induction sched arbitrary: c)
  case Nil
  then show ?case by (cases c; cases "fst c") auto
next
  case (Cons m sched)
  obtain pc srv w where c: "c = (pc, srv, w)" by (cases c)
  obtain d where d: "shutdown_move E m c = Inr d" "shutdown_run E sched d = Inr c'"
    using Cons.prems(2) by (cases "shutdown_move E m c") auto
  show ?case
  proof (cases m)
    case Owner
    with owner_move_ok [of pc srv w E] Cons.prems(1) d(1) c
    have "shutdown_ok connected newline tab d" "pc_index (fst d) = min 6 (Suc (pc_index pc))" by auto
    with Cons.IH [OF this(1) d(2)] Owner c show ?thesis by auto
  next
    case Worker
    with worker_move_ok [of pc srv w E d] Cons.prems(1) d(1) c
    have "shutdown_ok connected newline tab d" "fst d = pc" by auto
    with Cons.IH [OF this(1) d(2)] Worker c show ?thesis by auto
  qed
qed

end

section \<open>When a round comes too late\<close>

lemma shutdown_ok_start:
  "server_ok c n t srv \<Longrightarrow> m_initialised srv \<Longrightarrow> listen_in_range srv \<Longrightarrow>
   shutdown_ok c n t (CloseSessions, srv, w)"
  by simp

declare shutdown_ok.simps [simp del] rounds_at.simps(3) [simp del]

context telnet_callbacks
begin

lemma late_run_faults:
  assumes "shutdown_ok connected newline tab (pc, srv, w)"
    and "pc_index pc \<le> k" and "k = 4 \<or> k = 5" and "rounds_at sched (k - pc_index pc) > 0"
  shows "\<exists>e. shutdown_run E sched (pc, srv, w) = Inl e"
  using assms(1,2,4)
proof (induction sched arbitrary: pc srv w)
  case (Cons m sched)
  show ?case
  proof (cases "shutdown_move E m (pc, srv, w)")
    case (Inr d)
    obtain pc' srv' w' where d: "d = (pc', srv', w')" by (cases d)
    have "shutdown_ok connected newline tab d \<and> pc_index pc' \<le> k \<and> rounds_at sched (k - pc_index pc') > 0"
    proof (cases m)
      case Owner
      with Cons.prems(3) have "pc_index pc < k" "rounds_at sched (k - Suc (pc_index pc)) > 0"
        by (simp_all add: rounds_at_Owner split: if_splits)
      with Owner owner_move_ok [OF Cons.prems(1), of E] Inr d assms(3) show ?thesis by auto
    next
      case Worker
      with worker_move_ok [OF Cons.prems(1)] Inr d have ok: "shutdown_ok connected newline tab d" "pc' = pc" by auto
      moreover have "pc_index pc \<noteq> k"
        using late_round_faults [OF Cons.prems(1), of E] assms(3) Worker Inr by auto
      ultimately show ?thesis using Cons.prems Worker by auto
    qed
    then show ?thesis using Cons.IH [of pc' srv' w'] Inr d by simp
  qed simp
qed simp

lemma quiet_run:
  assumes "shutdown_ok connected newline tab (pc, srv, w)" and quiet: "\<And>cs s. e_recv E cs s = RecvAgain"
    and "\<And>k. k = 4 \<or> k = 5 \<Longrightarrow> pc_index pc \<le> k \<Longrightarrow> rounds_at sched (k - pc_index pc) = 0"
  shows "\<exists>c'. shutdown_run E sched (pc, srv, w) = Inr c'"
  using assms(1,3)
proof (induction sched arbitrary: pc srv w)
  case (Cons m sched)
  show ?case
  proof (cases m)
    case Owner
    from owner_move_ok [OF Cons.prems(1), of E] obtain pc' srv' w' where
      move: "shutdown_move E Owner (pc, srv, w) = Inr (pc', srv', w')" and
      ok: "shutdown_ok connected newline tab (pc', srv', w')" "pc_index pc' = min 6 (Suc (pc_index pc))"
      by (metis prod_cases3 fst_conv)
    have "rounds_at sched (k - pc_index pc') = 0" if "k = 4 \<or> k = 5" "pc_index pc' \<le> k" for k
    proof -
      have "pc_index pc' = Suc (pc_index pc)" using that ok(2) by auto
      with that Cons.prems(2) [of k] Owner show ?thesis
        by (simp add: rounds_at_Owner)
    qed
    then show ?thesis using Cons.IH [OF ok(1)] move Owner by simp
  next
    case Worker
    have "\<exists>d. shutdown_move E Worker (pc, srv, w) = Inr d"
    proof (cases "pc_index pc < 4")
      case True
      then obtain srv' w' where "server_update E srv w = Inr (srv', w')"
        using Cons.prems(1) quiet_round [of srv E w] quiet by (auto simp: shutdown_ok.simps)
      then show ?thesis by (simp add: worker_round_def)
    next
      case False
      then have "pc = ShutdownReturned" using Cons.prems(2) [of "pc_index pc"] Worker by (cases pc) auto
      then show ?thesis using Cons.prems(1) by (simp add: worker_round_def shutdown_ok.simps)
    qed
    then obtain srv' w' where "shutdown_move E Worker (pc, srv, w) = Inr (pc, srv', w')"
      "shutdown_ok connected newline tab (pc, srv', w')"
      using worker_move_ok [OF Cons.prems(1)] by (metis prod_cases3 fst_conv)
    then show ?thesis using Cons Worker by (auto split: if_splits)
  qed
qed simp

end

section \<open>The ledger of an interleaved shutdown\<close>

text \<open>
  The descriptors the server still has to close at each statement. Between \<open>CloseSessions\<close> and
  \<open>ClearSessions\<close> the vector holds sessions whose sockets are closed.
\<close>

fun shutdown_held :: "shutdown_conf \<Rightarrow> sock list" where
  "shutdown_held (pc, srv, w) =
     (if pc = ClearSessions then [] else map m_socket (m_sessions srv)) @
     (if pc_index pc < 3 then [m_listenSocket srv] else [])"

definition shutdown_balanced :: "shutdown_conf \<Rightarrow> bool" where
  "shutdown_balanced c \<longleftrightarrow>
     mset (opens (calls (snd (snd c)))) = mset (closes (calls (snd (snd c)))) + mset (shutdown_held c)"

lemma owner_move_balanced:
  assumes "shutdown_balanced (pc, srv, w)" and "shutdown_move E Owner (pc, srv, w) = Inr c'"
  shows "shutdown_balanced c'"
proof (cases pc)
  case CloseSessions
  obtain cs where "calls (close_sessions E (m_sessions srv) w) = calls w @ cs"
    "closes cs = map m_socket (m_sessions srv)" "opens cs = []"
    using close_sessions_calls by blast
  moreover have "c' = (ClearSessions, srv\<lparr>m_sessions := fst (close_each E (m_sessions srv) w)\<rparr>,
      close_sessions E (m_sessions srv) w)"
    using assms(2) CloseSessions by (simp add: case_prod_beta)
  ultimately show ?thesis using assms(1) CloseSessions by (simp add: shutdown_balanced_def)
qed (use assms in \<open>auto simp: shutdown_balanced_def\<close>)

context telnet_callbacks
begin

lemma worker_move_balanced:
  assumes "shutdown_ok connected newline tab (pc, srv, w)" and "no_recv_error E" and "pc \<noteq> ClearSessions"
    and "shutdown_balanced (pc, srv, w)" and move: "shutdown_move E Worker (pc, srv, w) = Inr c'"
  shows "shutdown_balanced c'"
proof (cases "pc_index pc < 4")
  case True
  then have srv: "server_ok connected newline tab srv" "m_initialised srv" "m_serverThread srv"
    using assms(1) by (auto simp: shutdown_ok.simps server_ok_def)
  with move obtain srv' w' where upd: "server_update E srv w = Inr (srv', w')"
    and c': "c' = (pc, srv', set_flag (m_checkFlag srv') w')"
    by (auto simp: worker_round_def bind_sum_def split: sum.splits)
  obtain cs sessions where cs: "calls w' = calls w @ cs" "srv' = srv\<lparr>m_sessions := sessions\<rparr>"
    "mset (map m_socket (m_sessions srv)) + mset (opens cs) = mset (map m_socket sessions) + mset (closes cs)"
    using server_update_Inr(6,7) [OF upd srv(1,2)] assms(2) by auto
  obtain ds where "calls (set_flag (m_checkFlag srv') w') = calls w' @ ds" "closes ds = []" "opens ds = []"
    using set_flag_calls by blast
  then show ?thesis using assms(3,4) c' cs by (auto simp: shutdown_balanced_def)
next
  case False
  with late_round_faults [OF assms(1), of E] move have "pc = ShutdownReturned"
    by (cases pc) auto
  with assms(1,4) move show ?thesis by (auto simp: worker_round_def shutdown_ok.simps)
qed

lemma shutdown_run_balanced:
  assumes "shutdown_ok connected newline tab (pc, srv, w)" and E: "no_recv_error E"
    and "pc_index pc \<le> 1 \<longrightarrow> rounds_at sched (1 - pc_index pc) = 0"
    and "shutdown_balanced (pc, srv, w)" and "shutdown_run E sched (pc, srv, w) = Inr c'"
  shows "shutdown_balanced c'"
  using assms(1,3-)
proof (induction sched arbitrary: pc srv w)
  case (Cons m sched)
  obtain d where move: "shutdown_move E m (pc, srv, w) = Inr d" and run: "shutdown_run E sched d = Inr c'"
    using Cons.prems(4) by (cases "shutdown_move E m (pc, srv, w)") auto
  obtain pc' srv' w' where d: "d = (pc', srv', w')" by (cases d)
  have "shutdown_ok connected newline tab d \<and> shutdown_balanced d \<and>
      (pc_index pc' \<le> 1 \<longrightarrow> rounds_at sched (1 - pc_index pc') = 0)"
  proof (cases m)
    case Owner
    with move have owner: "shutdown_move E Owner (pc, srv, w) = Inr d" by simp
    from owner_move_ok [OF Cons.prems(1), of E] owner owner_move_balanced [OF Cons.prems(3) owner] Owner Cons.prems(2) d
    show ?thesis by (auto simp: rounds_at_Owner min_def split: if_splits)
  next
    case Worker
    have "pc \<noteq> ClearSessions" using Cons.prems(2) Worker by auto
    with worker_move_balanced [OF Cons.prems(1) E _ Cons.prems(3)] worker_move_ok [OF Cons.prems(1)]
      Worker move Cons.prems(2) d
    show ?thesis by auto
  qed
  then show ?case using Cons.IH [of pc' srv' w'] run d by blast
qed simp

text \<open>Only rounds after the sessions were cleared leave sessions behind.\<close>

lemma no_session_left:
  assumes "shutdown_ok connected newline tab (pc, srv, w)"
    and "\<And>k. 2 \<le> k \<Longrightarrow> pc_index pc \<le> k \<Longrightarrow> k < 6 \<Longrightarrow> rounds_at sched (k - pc_index pc) = 0"
    and "2 \<le> pc_index pc \<longrightarrow> m_sessions srv = []"
    and "shutdown_run E sched (pc, srv, w) = Inr (pc'', srv'', w'')" and "2 \<le> pc_index pc''"
  shows "m_sessions srv'' = []"
  using assms
proof (induction sched arbitrary: pc srv w)
  case (Cons m sched)
  obtain d where move: "shutdown_move E m (pc, srv, w) = Inr d"
    and run: "shutdown_run E sched d = Inr (pc'', srv'', w'')"
    using Cons.prems(4) by (cases "shutdown_move E m (pc, srv, w)") auto
  obtain pc' srv' w' where d: "d = (pc', srv', w')" by (cases d)
  have "shutdown_ok connected newline tab d \<and> (2 \<le> pc_index pc' \<longrightarrow> m_sessions srv' = []) \<and>
      (\<forall>k. 2 \<le> k \<longrightarrow> pc_index pc' \<le> k \<longrightarrow> k < 6 \<longrightarrow> rounds_at sched (k - pc_index pc') = 0)"
  proof (cases m)
    case Owner
    have "2 \<le> pc_index pc' \<longrightarrow> m_sessions srv' = []"
      using move Owner d Cons.prems(3) by (cases pc) (auto simp: case_prod_beta)
    moreover have "rounds_at sched (k - pc_index pc') = 0" if "2 \<le> k" "pc_index pc' \<le> k" "k < 6" for k
      using Cons.prems(2) [of k] that owner_move_ok [OF Cons.prems(1), of E] Owner move d
      by (auto simp: rounds_at_Owner min_def split: if_splits)
    ultimately show ?thesis using owner_move_ok [OF Cons.prems(1), of E] Owner move by auto
  next
    case Worker
    with worker_move_ok [OF Cons.prems(1)] move d have ok: "shutdown_ok connected newline tab d" "pc' = pc" by auto
    have "pc = ShutdownReturned \<or> pc_index pc < 2"
      using Cons.prems(2) [of "pc_index pc"] Worker by (cases pc) auto
    then have "2 \<le> pc_index pc' \<longrightarrow> m_sessions srv' = []"
      using Cons.prems(1,3) move Worker d ok(2) by (auto simp: worker_round_def shutdown_ok.simps)
    with ok Cons.prems(2) Worker show ?thesis by (auto split: if_splits)
  qed
  then show ?case using Cons.IH [of pc' srv' w'] Cons.prems(5) run d by blast
qed simp

end

section \<open>A server without owner\<close>

text \<open>
  A session holds a \<open>shared_ptr\<close> to its server. A server whose owner has given it up therefore goes on,
  its thread included, as long as it has a session. The round that erases the last session
  destroys the server, on its own thread: the destructor of the \<open>jthread\<close> joins the thread that runs
  it, which raises an exception in a destructor, and the process is terminated.
\<close>

definition abandoned_round :: "env \<Rightarrow> telnet_server \<Rightarrow> world \<Rightarrow> fault + telnet_server \<times> world" where
  "abandoned_round E srv w =
     bind_sum (server_update E srv w) (\<lambda>(srv, w).
       if m_sessions srv = [] then Inl SelfJoin else Inr (srv, set_flag (m_checkFlag srv) w))"

fun abandoned_rounds :: "env \<Rightarrow> nat \<Rightarrow> telnet_server \<Rightarrow> world \<Rightarrow> fault + telnet_server \<times> world" where
  "abandoned_rounds E 0 srv w = Inr (srv, w)"
| "abandoned_rounds E (Suc n) srv w =
     bind_sum (abandoned_round E srv w) (\<lambda>(srv, w). abandoned_rounds E n srv w)"

text \<open>It never ends in another way: as long as the rounds go on, the thread is there and a session as well.\<close>

lemma abandoned_rounds_go_on:
  assumes "abandoned_rounds E n srv w = Inr (srv', w')" and "m_serverThread srv" and "m_sessions srv \<noteq> []"
  shows "m_serverThread srv' \<and> m_sessions srv' \<noteq> []"
  using assms
proof (induction n arbitrary: srv w)
  case (Suc n)
  then obtain srv1 w1 where "server_update E srv w = Inr (srv1, w1)" "m_sessions srv1 \<noteq> []"
    "abandoned_rounds E n srv1 (set_flag (m_checkFlag srv1) w1) = Inr (srv', w')"
    by (auto simp: abandoned_round_def split: if_splits)
  with Suc update_keeps_thread(1) [of E srv w srv1 w1] show ?case by blast
qed simp

section \<open>The destructor\<close>

text \<open>
  The destructor runs \<open>shutdown\<close> when nothing refers to the server any more, so no session is left,
  and \<open>shared_from_this\<close>, which \<open>acceptConnection\<close> calls for every client, raises
  \<open>std::bad_weak_ptr\<close>. The thread catches the exception and logs it; the round ends there and the
  flag is not set.
\<close>

definition orphan_round :: "env \<Rightarrow> telnet_server \<Rightarrow> world \<Rightarrow> fault + telnet_server \<times> world" where
  "orphan_round E srv w =
     (if \<not> m_serverThread srv then Inr (srv, w)
      else if \<not> (0 \<le> m_listenSocket srv \<and> m_listenSocket srv < FD_SETSIZE) then Inl FdSetRange
      else
        let (start, w) = read_clock E w;
            ready = e_select E (calls w) (m_listenSocket srv);
            w = emit (Select (m_listenSocket srv) ready) w;
            ClientSocket = e_accept E (calls w) (m_listenSocket srv);
            w = (if ready > 0 then emit (Accept (m_listenSocket srv) ClientSocket) w else w)
        in if ready > 0 \<and> ClientSocket \<noteq> INVALID_SOCKET
           then Inr (srv, emit (Log err ''Telnet server failed: bad_weak_ptr'') w)
           else bind_sum (update_sessions E (srv_cfg srv) (m_stats srv) 0 (m_sessions srv) w)
             (\<lambda>(sessions, w).
               let srv = srv\<lparr>m_sessions := sessions\<rparr>
               in Inr (srv, set_flag (m_checkFlag srv) (sessions_stats E srv False (ready > 0) start w))))"

fun destructor_move :: "env \<Rightarrow> mover \<Rightarrow> shutdown_conf \<Rightarrow> fault + shutdown_conf" where
  "destructor_move E Owner (pc, srv, w) = Inr (shutdown_stmt E pc srv w)"
| "destructor_move E Worker (pc, srv, w) = bind_sum (orphan_round E srv w) (\<lambda>(srv, w). Inr (pc, srv, w))"

text \<open>What the moves close: the owner its listening socket, once, and the thread nothing.\<close>

lemma orphan_round_calls:
  assumes "orphan_round E srv w = Inr (srv', w')" and "m_sessions srv = []"
  shows "srv' = srv \<and> (\<exists>cs. calls w' = calls w @ cs \<and> closes cs = [])"
proof -
  have none: "update_sessions E cfg st 0 [] v = Inr ([], v)" for cfg st v
    by (subst update_sessions.simps) (simp add: sz_length_def)
  have stats: "\<exists>cs. calls (set_flag f (sessions_stats E s a r t v)) = calls v @ cs \<and> closes cs = []" for f s a r t v
  proof -
    obtain now ms where "calls (sessions_stats E s a r t v) = calls v @ Clock now # map Metric ms"
      using sessions_stats_metrics(2) by metis
    moreover obtain ds where "calls (set_flag f (sessions_stats E s a r t v)) =
        calls (sessions_stats E s a r t v) @ ds" "closes ds = []"
      using set_flag_calls by blast
    ultimately show ?thesis by (intro exI [of _ "Clock now # map Metric ms @ ds"]) simp
  qed
  have self: "srv\<lparr>m_sessions := []\<rparr> = srv" using assms(2) by (cases srv) simp
  show ?thesis
  proof (cases "m_serverThread srv")
    case False
    then show ?thesis using assms(1) by (simp add: orphan_round_def)
  next
    case True
    let ?v = "emit (Select (m_listenSocket srv) (e_select E (calls (snd (read_clock E w))) (m_listenSocket srv)))
      (snd (read_clock E w))"
    let ?fd = "e_accept E (calls ?v) (m_listenSocket srv)"
    let ?u = "if e_select E (calls (snd (read_clock E w))) (m_listenSocket srv) > 0
      then emit (Accept (m_listenSocket srv) ?fd) ?v else ?v"
    have "\<exists>cs. calls ?u = calls w @ cs \<and> closes cs = []"
      by (simp add: read_clock_def Let_def)
    then obtain cs where u: "calls ?u = calls w @ cs" "closes cs = []" by blast
    from assms(1) True consider "srv' = srv" "w' = emit (Log err ''Telnet server failed: bad_weak_ptr'') ?u"
      | f a r st where "srv' = srv" "w' = set_flag f (sessions_stats E srv a r st ?u)"
      by (auto simp: orphan_round_def Let_def case_prod_beta assms(2) none self split: if_splits)
    then show ?thesis
    proof cases
      case 1
      have "calls w' = calls w @ cs @ [Log err ''Telnet server failed: bad_weak_ptr'']"
        unfolding 1(2) using u(1) by (simp only: emit_simps append_assoc)
      with 1(1) u(2) show ?thesis
        by (intro conjI exI [of _ "cs @ [Log err ''Telnet server failed: bad_weak_ptr'']"]) simp_all
    next
      case (2 f a r st)
      obtain ds where ds: "calls w' = calls ?u @ ds" "closes ds = []"
        using stats [of f srv a r st ?u] 2(2) by blast
      have "calls w' = calls w @ cs @ ds" unfolding ds(1) u(1) by simp
      with 2(1) u(2) ds(2) show ?thesis by (intro conjI exI [of _ "cs @ ds"]) simp_all
    qed
  qed
qed

lemma destructor_run_closes:
  assumes "run_moves (destructor_move E) sched (pc, srv, w) = Inr (pc', srv', w')" and "m_sessions srv = []"
  shows "m_sessions srv' = [] \<and> pc_index pc' = min 6 (pc_index pc + count_list sched Owner) \<and>
    (\<exists>cs. calls w' = calls w @ cs \<and>
      closes cs = (if pc_index pc \<le> 2 \<and> 2 < pc_index pc' then [m_listenSocket srv] else []))"
  using assms
proof (induction sched arbitrary: pc srv w)
  case Nil
  then show ?case by (cases pc) auto
next
  case (Cons m sched)
  from Cons.prems(1) obtain pc1 srv1 w1 where move: "destructor_move E m (pc, srv, w) = Inr (pc1, srv1, w1)"
    and run: "run_moves (destructor_move E) sched (pc1, srv1, w1) = Inr (pc', srv', w')"
    by (rule run_moves_ConsE) (metis prod_cases3)
  have "m_sessions srv1 = [] \<and> pc_index pc1 = min 6 (pc_index pc + (if m = Owner then 1 else 0)) \<and>
      (pc_index pc1 \<le> 2 \<longrightarrow> m_listenSocket srv1 = m_listenSocket srv) \<and>
      (\<exists>cs. calls w1 = calls w @ cs \<and>
        closes cs = (if pc_index pc \<le> 2 \<and> 2 < pc_index pc1 then [m_listenSocket srv] else []))"
  proof (cases m)
    case Owner
    then show ?thesis using move Cons.prems(2) by (cases pc) (auto simp: close_sessions_def)
  next
    case Worker
    with move obtain "orphan_round E srv w = Inr (srv1, w1)" "pc1 = pc" by auto
    with orphan_round_calls [OF this(1) Cons.prems(2)] Worker Cons.prems(2) show ?thesis
      by (cases pc) auto
  qed
  then obtain cs where one: "m_sessions srv1 = []" "pc_index pc1 = min 6 (pc_index pc + (if m = Owner then 1 else 0))"
    "pc_index pc1 \<le> 2 \<longrightarrow> m_listenSocket srv1 = m_listenSocket srv" "calls w1 = calls w @ cs"
    "closes cs = (if pc_index pc \<le> 2 \<and> 2 < pc_index pc1 then [m_listenSocket srv] else [])" by blast
  from Cons.IH [OF run one(1)] obtain ds where rest: "m_sessions srv' = []"
    "pc_index pc' = min 6 (pc_index pc1 + count_list sched Owner)" "calls w' = calls w1 @ ds"
    "closes ds = (if pc_index pc1 \<le> 2 \<and> 2 < pc_index pc' then [m_listenSocket srv1] else [])" by blast
  have "pc_index pc' = min 6 (pc_index pc + count_list (m # sched) Owner)" using one(2) rest(2) by auto
  moreover have "closes (cs @ ds) = (if pc_index pc \<le> 2 \<and> 2 < pc_index pc' then [m_listenSocket srv] else [])"
    using one(2,3,5) rest(2,4) by auto
  ultimately show ?case using rest(1,3) one(4) by (intro conjI exI [of _ "cs @ ds"]) auto
qed

text \<open>Nothing else goes wrong in it than a round that comes too late.\<close>

lemma orphan_round_fault:
  assumes "orphan_round E srv w = Inl f" and "m_sessions srv = []"
  shows "f = FdSetRange"
proof -
  have none: "update_sessions E cfg st 0 [] v = Inr ([], v)" for cfg st v
    by (subst update_sessions.simps) (simp add: sz_length_def)
  show ?thesis using assms by (auto simp: orphan_round_def Let_def case_prod_beta none split: if_splits)
qed

lemma destructor_run_fault:
  "run_moves (destructor_move E) sched (pc, srv, w) = Inl f \<Longrightarrow> m_sessions srv = [] \<Longrightarrow> f = FdSetRange"
proof (induction sched arbitrary: pc srv w)
  case (Cons m sched)
  show ?case
  proof (cases "destructor_move E m (pc, srv, w)")
    case (Inl e)
    then show ?thesis using Cons.prems orphan_round_fault by (cases m) (auto simp: bind_sum_Inl_iff)
  next
    case (Inr d)
    obtain pc1 srv1 w1 where d: "d = (pc1, srv1, w1)" by (cases d)
    have "run_moves (destructor_move E) [m] (pc, srv, w) = Inr (pc1, srv1, w1)" using Inr d by simp
    from destructor_run_closes [OF this Cons.prems(2)] Cons.IH [of pc1 srv1 w1] Cons.prems(1) Inr d show ?thesis
      by simp
  qed
qed simp

text \<open>The statements alone always return.\<close>

lemma destructor_at_once:
  "\<exists>srv' w'. run_moves (destructor_move E) (replicate 6 Owner) (CloseSessions, srv, w) = Inr (ShutdownReturned, srv', w')"
  by (simp add: eval_nat_numeral case_prod_beta)

context telnet_callbacks
begin

lemma abandoned_round_Inr:
  assumes "abandoned_round E srv w = Inr (srv', w')" and "server_ok connected newline tab srv" and "m_initialised srv"
  shows "server_ok connected newline tab srv' \<and> m_initialised srv' \<and> m_listenSocket srv' = m_listenSocket srv \<and>
    (\<exists>cs. calls w' = calls w @ cs \<and> (no_recv_error E \<longrightarrow>
       mset (map m_socket (m_sessions srv)) + mset (opens cs) =
       mset (map m_socket (m_sessions srv')) + mset (closes cs)))"
proof -
  from assms(1) obtain v where upd: "server_update E srv w = Inr (srv', v)" and w': "w' = set_flag (m_checkFlag srv') v"
    by (auto simp: abandoned_round_def bind_sum_def split: sum.splits if_splits)
  obtain ds where ds: "calls w' = calls v @ ds" "closes ds = []" "opens ds = []"
    using set_flag_calls w' by blast
  note upd = server_update_Inr [OF upd assms(2,3)]
  obtain cs where "calls v = calls w @ cs" "no_recv_error E \<longrightarrow>
       mset (map m_socket (m_sessions srv)) + mset (opens cs) =
       mset (map m_socket (m_sessions srv')) + mset (closes cs)" using upd(7) by blast
  then have "\<exists>cs. calls w' = calls w @ cs \<and> (no_recv_error E \<longrightarrow>
       mset (map m_socket (m_sessions srv)) + mset (opens cs) =
       mset (map m_socket (m_sessions srv')) + mset (closes cs))"
    using ds by (intro exI [of _ "cs @ ds"]) simp
  moreover have "m_listenSocket srv' = m_listenSocket srv" using upd(6) by auto
  ultimately show ?thesis using upd(1,2) by blast
qed

lemma abandoned_round_Inl:
  assumes "abandoned_round E srv w = Inl f" and "server_ok connected newline tab srv" and "m_initialised srv"
  shows "f \<in> {SelfJoin, FdSetRange, PastEndIterator}"
proof (cases "server_update E srv w")
  case (Inl e)
  then have "f = e" using assms(1) by (simp add: abandoned_round_def)
  moreover have "e = FdSetRange" if "\<not> listen_in_range srv"
    using Inl that by (simp add: server_update_eq split: prod.splits)
  ultimately show ?thesis using server_update_Inl [OF Inl assms(2,3)] by blast
next
  case (Inr r)
  then show ?thesis using assms(1) by (auto simp: abandoned_round_def split: prod.splits if_splits)
qed

end

end
