(* ===== verification/ProgramLife.thy ===== *)
theory ProgramLife
  imports ProgramRun TelnetShutdown
begin

text \<open>
  The end of \<open>src/main.cpp\<close>, with the threads still running, and \<open>main\<close> as a whole. The locals die in
  the reverse order of their declarations, each destructor one step for the threads of the others;
  between the destructors, and between the statements of that of the telnet server, the threads
  that are left make their rounds.
\<close>

section \<open>The threads\<close>

text \<open>
  The locals, the telnet server that \<open>main\<close> has given up and that its sessions keep alive
  (\<open>TelnetSession::m_telnetServer\<close> is a \<open>shared_ptr\<close> to it), and the world.
\<close>

type_synonym end_state = "program \<times> telnet_server option \<times> world"

inductive end_step :: "program_env \<Rightarrow> end_state \<Rightarrow> end_state \<Rightarrow> bool" for PE where
  owned: "program_step PE (p, w) b (q, v) \<Longrightarrow> end_step PE (p, t, w) (q, t, v)"
| abandoned: "m_serverThread srv \<Longrightarrow> abandoned_round (pe_E PE) srv w = Inr (srv', v) \<Longrightarrow>
    end_step PE (p, Some srv, w) (p, Some srv', v)"

text \<open>A round that ends in undefined behaviour ends the process.\<close>

inductive crashes :: "program_env \<Rightarrow> end_state \<Rightarrow> fault \<Rightarrow> bool" for PE where
  telnet: "p_telnet p = Some srv \<Longrightarrow> m_serverThread srv \<Longrightarrow> server_update (pe_E PE) srv w = Inl f \<Longrightarrow>
    crashes PE (p, t, w) f"
| zmq: "p_zmq p = Some srv \<Longrightarrow> zThread srv \<Longrightarrow> zmq_update (pe_E PE) (pe_Z PE) srv w = Inl f \<Longrightarrow>
    crashes PE (p, t, w) f"
| abandoned: "m_serverThread srv \<Longrightarrow> abandoned_round (pe_E PE) srv w = Inl f \<Longrightarrow> crashes PE (p, Some srv, w) f"

section \<open>The destructors\<close>

text \<open>
  Giving up \<open>telnetController\<close> destroys the server only if no session refers to it; the rounds
  of its thread fall between the statements of the destructor (\<open>destructor_move\<close>).
\<close>

inductive release_telnet :: "program_env \<Rightarrow> end_state \<Rightarrow> ending + end_state \<Rightarrow> bool" for PE where
  absent: "p_telnet p = None \<Longrightarrow> release_telnet PE (p, t, w) (Inr (p, t, w))"
| kept: "p_telnet p = Some srv \<Longrightarrow> m_sessions srv \<noteq> [] \<Longrightarrow>
    release_telnet PE (p, t, w) (Inr (p\<lparr>p_telnet := None\<rparr>, Some srv, w))"
| destroyed: "p_telnet p = Some srv \<Longrightarrow> m_sessions srv = [] \<Longrightarrow>
    run_moves (destructor_move (pe_E PE)) sched (CloseSessions, srv, w) = Inr (ShutdownReturned, srv', v) \<Longrightarrow>
    release_telnet PE (p, t, w) (Inr (p\<lparr>p_telnet := None\<rparr>, t, v))"
| torn: "p_telnet p = Some srv \<Longrightarrow> m_sessions srv = [] \<Longrightarrow>
    run_moves (destructor_move (pe_E PE)) sched (CloseSessions, srv, w) = Inl f \<Longrightarrow>
    release_telnet PE (p, t, w) (Inl (Crashed f))"

text \<open>An exception of the destructor of \<open>ZeroMQServer\<close> is fatal. The other two join their thread.\<close>

definition release_zmq :: "program_env \<Rightarrow> end_state \<Rightarrow> ending + end_state" where
  "release_zmq PE = (\<lambda>(p, t, w).
     case p_zmq p of
       None \<Rightarrow> Inr (p, t, w)
     | Some srv \<Rightarrow>
         (case zmq_server_destroy (pe_Z PE) srv w of
            (Inl e, w) \<Rightarrow> Inl (Terminated e w)
          | (Inr _, w) \<Rightarrow> Inr (p\<lparr>p_zmq := None\<rparr>, t, w)))"

definition release_self :: "end_state \<Rightarrow> ending + end_state" where
  "release_self = (\<lambda>(p, t, w). Inr (p\<lparr>p_self := None\<rparr>, t, if p_self p = None then w else emit Join w))"

definition release_tracer :: "end_state \<Rightarrow> ending + end_state" where
  "release_tracer = (\<lambda>(p, t, w). Inr (p\<lparr>p_tracer := None\<rparr>, t,
     if \<exists>tr. p_tracer p = Some tr \<and> tr_thread tr then emit Join w else w))"

definition destructors :: "program_env \<Rightarrow> (end_state \<Rightarrow> ending + end_state \<Rightarrow> bool) list" where
  "destructors PE = [release_telnet PE, \<lambda>s r. r = release_zmq PE s, \<lambda>s r. r = release_self s,
     \<lambda>s r. r = release_tracer s]"

section \<open>The end, and \<open>main\<close>\<close>

inductive unwinds ::
    "program_env \<Rightarrow> log_msg list \<Rightarrow> int \<Rightarrow> (end_state \<Rightarrow> ending + end_state \<Rightarrow> bool) list \<Rightarrow> end_state \<Rightarrow> ending \<Rightarrow> bool"
  for PE pending code where
  logger: "unwinds PE pending code [] (p, t, w) (destroy_logger PE pending code p w)"
| round: "end_step PE s s' \<Longrightarrow> unwinds PE pending code ds s' r \<Longrightarrow> unwinds PE pending code ds s r"
| crash: "crashes PE s f \<Longrightarrow> unwinds PE pending code ds s (Crashed f)"
| released: "d s (Inr s') \<Longrightarrow> unwinds PE pending code ds s' r \<Longrightarrow> unwinds PE pending code (d # ds) s r"
| broken: "d s (Inl r) \<Longrightarrow> unwinds PE pending code (d # ds) s r"

definition unwind :: "program_env \<Rightarrow> log_msg list \<Rightarrow> int \<Rightarrow> program \<times> world \<Rightarrow> ending \<Rightarrow> bool" where
  "unwind PE pending code = (\<lambda>(p, w). unwinds PE pending code (destructors PE) (p, None, w))"

text \<open>The interrupt ended the wait: libcurl is cleaned up, then \<open>main\<close> returns.\<close>

definition main_end :: "program_env \<Rightarrow> log_msg list \<Rightarrow> program \<times> world \<Rightarrow> ending \<Rightarrow> bool" where
  "main_end PE pending = (\<lambda>(p, w). unwind PE pending 0 (p, emit (Sys CurlCleanup) w))"

text \<open>
  A round can crash the process after any of the stages. A state of the wait loop is one the start
  could have led to (\<open>startup_extend\<close>), so the last rule counts a crash in a sleep as one of the start.
\<close>

inductive main_runs ::
    "program_env \<Rightarrow> log_msg list \<Rightarrow> string list \<Rightarrow> world \<Rightarrow> moment list \<Rightarrow> moment list list \<Rightarrow> ending \<Rightarrow> bool"
  for PE pending argv w where
  thrown: "startup PE argv w ms (Throw e v) flag \<Longrightarrow> main_runs PE pending argv w ms [] (Terminated e v)"
| failed: "startup PE argv w ms (Fail p v) flag \<Longrightarrow> unwind PE pending 1 (p, v) r \<Longrightarrow>
    main_runs PE pending argv w ms [] r"
| woken: "startup PE argv w ms (Go p v) flag \<Longrightarrow> wait_loop PE ((p, v), flag) sleeps (s, flag') \<Longrightarrow>
    main_end PE pending s r \<Longrightarrow> main_runs PE pending argv w ms sleeps r"
| crashed: "starting PE argv w k ms (Go p v) flag \<Longrightarrow> crashes PE (p, None, v) f \<Longrightarrow>
    main_runs PE pending argv w ms [] (Crashed f)"

inductive_cases release_telnetE: "release_telnet PE (p, t, w) r"
inductive_cases end_stepE: "end_step PE (p, t, w) s"
inductive_cases crashesE: "crashes PE (p, t, w) f"

lemma destructors_cases:
  assumes "d \<in> set (destructors PE)" and "d s r"
  obtains "release_telnet PE s r" | "r = release_zmq PE s" | "r = release_self s" | "r = release_tracer s"
  using assms by (auto simp: destructors_def)

end
