(* ===== verification/ProgramEnd.thy ===== *)
theory ProgramEnd
  imports ProgramSpec ProgramLife
begin

text \<open>
  The end of the program: that its locals are fit to be destroyed, whether the start succeeded or
  failed, what the destructors do, and how the process can end while they run.
\<close>

section \<open>The logger\<close>

definition loki_ok :: "loki_sink \<Rightarrow> bool" where
  "loki_ok s \<longleftrightarrow> (\<exists>msgs. loki_holds s msgs) \<or> (\<not> lokiAvailable s \<and> internalLogBuffer s = [])"

text \<open>Calls that open and close no socket.\<close>

definition no_sockets :: "call list \<Rightarrow> bool" where
  "no_sockets cs \<longleftrightarrow> opens cs = [] \<and> closes cs = []"

lemma no_sockets_simps [simp]:
  "no_sockets []" "no_sockets (cs @ ds) \<longleftrightarrow> no_sockets cs \<and> no_sockets ds"
  "no_sockets (Log l m # cs) \<longleftrightarrow> no_sockets cs" "no_sockets (Sink c # cs) \<longleftrightarrow> no_sockets cs"
  "no_sockets (Curl d # cs) \<longleftrightarrow> no_sockets cs" "no_sockets (Zmq z # cs) \<longleftrightarrow> no_sockets cs"
  "no_sockets (Sys y # cs) \<longleftrightarrow> no_sockets cs" "no_sockets (Join # cs) \<longleftrightarrow> no_sockets cs"
  by (auto simp: no_sockets_def)

lemma loki_unavailable_fold:
  "\<not> lokiAvailable s \<Longrightarrow> fold loki_sink_it msgs s = s"
  by (induction msgs arbitrary: s) (simp_all add: loki_sink_it_def)

lemma sinks_fold:
  "\<exists>cs. fold to_sinks msgs (ml, w) =
      (ml\<lparr>ml_loki := fold loki_sink_it msgs (ml_loki ml)\<rparr>, emits cs w) \<and> no_sockets cs"
proof (induction msgs arbitrary: ml w)
  case Nil
  show ?case by (intro exI [of _ "[]"]) simp
next
  case (Cons m ms)
  have "\<exists>cs. sentry_sink_it (ml_sentry ml) m w = emits cs w \<and> no_sockets cs"
    by (auto simp: sentry_sink_it_def sink_call_def emit_emits split: log_level.split
        intro: exI [of _ "[]"] exI [of _ "[Sink c]" for c])
  then obtain cs where cs: "sentry_sink_it (ml_sentry ml) m w = emits cs w" "no_sockets cs" by blast
  from Cons.IH [of "ml\<lparr>ml_loki := loki_sink_it m (ml_loki ml)\<rparr>" "emits cs w"] obtain ds where
    "fold to_sinks ms (ml\<lparr>ml_loki := loki_sink_it m (ml_loki ml)\<rparr>, emits cs w) =
      (ml\<lparr>ml_loki := fold loki_sink_it ms (loki_sink_it m (ml_loki ml))\<rparr>, emits (cs @ ds) w)" "no_sockets ds"
    by auto
  moreover have "to_sinks m (ml, w) = (ml\<lparr>ml_loki := loki_sink_it m (ml_loki ml)\<rparr>, emits cs w)"
    by (simp add: to_sinks_def cs(1))
  ultimately show ?case using cs(2) by (intro exI [of _ "cs @ ds"]) simp
qed

lemma log_line_result:
  obtains msgs cs where "log_line L l m ml w =
      (ml\<lparr>ml_loki := fold loki_sink_it msgs (ml_loki ml)\<rparr>, emits (Log l m # cs) w)" and "no_sockets cs"
proof -
  let ?w = "emit (Log l m) w" and ?msg = "\<lparr>lm_level = l, lm_time = ls_time L (calls w), lm_payload = m\<rparr>"
  let ?msgs = "ls_dup_filter L (calls w) ?msg"
  obtain cs where cs: "fold to_sinks ?msgs (ml, ?w) =
      (ml\<lparr>ml_loki := fold loki_sink_it ?msgs (ml_loki ml)\<rparr>, emits cs ?w)" "no_sockets cs"
    using sinks_fold by blast
  show thesis
  proof (cases "l \<ge> current_level (calls ?w)")
    case True
    with cs show thesis
      by (intro that [of ?msgs cs]) (simp_all add: log_line_def log_record_def emit_emits)
  next
    case False
    then show thesis
      by (intro that [of "[]" "[]"]) (simp_all add: log_line_def log_record_def emit_emits)
  qed
qed

lemma sendPOST_calls:
  "\<exists>r h' cs rv. sendPOSTRequest H index payload h w = (r, h', emits cs w) \<and> no_sockets cs \<and>
     Curl (CurlPerform rv) \<in> set cs"
proof -
  define v where "v = emits [Curl (CurlPostFields payload),
      Curl (CurlLong ''POSTFIELDSIZE_LARGE'' (int (length payload))), Curl (CurlUrl (c_str (h_hostAddr h @ index))),
      Curl CurlWriteData, Curl (CurlLong ''POST'' 1)] w"
  obtain rv blocks code where p: "h_perform H (calls v) = (rv, blocks, code)" by (cases "h_perform H (calls v)")
  have "\<exists>r h'. sendPOSTRequest H index payload h w =
      (r, h', emits (Curl (CurlPerform rv) # (if rv = CURLE_OK then [Curl (CurlInfo ''RESPONSE_CODE'')] else [])) v)"
    using p by (simp add: sendPOSTRequest_def setCommonFieldsPayload_def performRequest_def curl_def emit_emits v_def Let_def)
  then obtain r h' where "sendPOSTRequest H index payload h w =
      (r, h', emits (Curl (CurlPerform rv) # (if rv = CURLE_OK then [Curl (CurlInfo ''RESPONSE_CODE'')] else [])) v)"
    by blast
  then show ?thesis unfolding v_def emits_emits by fastforce
qed

lemma loki_flush_calls:
  assumes "loki_holds s msgs"
  obtains s' cs where "loki_flush H s w = Inr (s', emits cs w)" and "no_sockets cs"
    and "loki_wanted msgs \<Longrightarrow> \<exists>rv. Curl (CurlPerform rv) \<in> set cs"
    and "connHandler s' \<noteq> None"
proof -
  obtain r h' cs rv where post: "sendPOSTRequest H ''/loki/api/v1/push'' (loki_payload (basicInformation s) msgs)
      (the (connHandler s)) w = (r, h', emits cs w)" "no_sockets cs" "Curl (CurlPerform rv) \<in> set cs"
    using sendPOST_calls by blast
  show thesis
  proof (cases "loki_wanted msgs")
    case True
    then show thesis using post
      by (intro that [of "s\<lparr>internalLogBuffer := map (\<lambda>(l, name). (name, [])) loki_levels, connHandler := Some h'\<rparr>" cs])
        (auto simp: loki_flush_holds [OF assms] Let_def)
  next
    case False
    then show thesis using assms
      by (intro that [of "s\<lparr>internalLogBuffer := map (\<lambda>(l, name). (name, [])) loki_levels\<rparr>" "[]"])
        (auto simp: loki_flush_holds [OF assms] Let_def loki_holds_def)
  qed
qed

lemma MainLogger_destroy_calls:
  assumes "loki_ok (ml_loki ml)"
  obtains cs where "MainLogger_destroy L ml w = Inr (emits cs w)" and "no_sockets cs"
    and "\<And>msgs. loki_holds (ml_loki ml) msgs \<Longrightarrow> loki_wanted msgs \<Longrightarrow> \<exists>rv. Curl (CurlPerform rv) \<in> set cs"
proof -
  obtain more es where bye: "log_line L info ''Goodbye!'' ml w =
      (ml\<lparr>ml_loki := fold loki_sink_it more (ml_loki ml)\<rparr>, emits (Log info ''Goodbye!'' # es) w)" "no_sockets es"
    by (rule log_line_result)
  define s where "s = fold loki_sink_it more (ml_loki ml)"
  define v where "v = emits (Log info ''Goodbye!'' # es @ [Sink FlushLogger]) w"
  have v: "sink_call FlushLogger (emits (Log info ''Goodbye!'' # es) w) = v"
    by (simp add: v_def sink_call_def emit_emits)
  have tail: "sentry_destroy (loki_destroy s' (sink_call (DefaultLogger ''default'') (sink_call (DropLogger n) u))) =
      emits ([Sink (DropLogger n), Sink (DefaultLogger ''default'')] @
        (if connHandler s' = None then [] else [Curl CurlFree]) @ [Sink SentryClose]) u" for s' n u
    by (simp add: sentry_destroy_def loki_destroy_def HTTP_destroy_def curl_def sink_call_def emit_emits
        split: option.split)
  show thesis
  proof (cases "lokiAvailable (ml_loki ml)")
    case True
    then obtain old where old: "loki_holds (ml_loki ml) old" using assms by (auto simp: loki_ok_def)
    have s: "loki_holds s (old @ more)" using loki_fold(1) [OF old] by (simp add: s_def)
    obtain s' cs where flush: "loki_flush (ls_http L) s v = Inr (s', emits cs v)" "no_sockets cs"
      "loki_wanted (old @ more) \<Longrightarrow> \<exists>rv. Curl (CurlPerform rv) \<in> set cs" "connHandler s' \<noteq> None"
      by (rule loki_flush_calls [OF s, of "ls_http L" v]) blast
    have "MainLogger_destroy L ml w =
        Inr (emits (Log info ''Goodbye!'' # es @ Sink FlushLogger # cs @
          [Sink (DropLogger (ml_name ml)), Sink (DefaultLogger ''default''), Curl CurlFree, Sink SentryClose]) w)"
    proof -
      obtain h where h: "connHandler s' = Some h" using flush(4) by auto
      show ?thesis
        using flush(1) by (simp add: MainLogger_destroy_def bye(1) flush_logger_def v s_def [symmetric] tail h)
          (simp add: v_def)
    qed
    moreover have "\<exists>rv. Curl (CurlPerform rv) \<in> set cs" if "loki_holds (ml_loki ml) msgs" "loki_wanted msgs" for msgs
    proof -
      have "map (of_level l) [msgs] = map (of_level l) [old]" if "l \<noteq> trace" "l \<noteq> off" for l
        using \<open>loki_holds (ml_loki ml) msgs\<close> old that
        by (cases l) (simp_all add: loki_holds_def loki_levels_def)
      then have "of_level l msgs = of_level l old" if "l \<noteq> trace" "l \<noteq> off" for l using that by simp
      then have "loki_wanted old"
        using \<open>loki_wanted msgs\<close> unfolding loki_wanted_def by (metis of_level_Nil)
      then show ?thesis using flush(3) by (auto simp: loki_wanted_def)
    qed
    ultimately show thesis using bye(2) flush(2)
      by (intro that [of "Log info ''Goodbye!'' # es @ Sink FlushLogger # cs @
        [Sink (DropLogger (ml_name ml)), Sink (DefaultLogger ''default''), Curl CurlFree, Sink SentryClose]"]) auto
  next
    case False
    then have s: "s = ml_loki ml" "internalLogBuffer s = []" "connHandler s = None \<or> connHandler s \<noteq> None"
      using assms by (auto simp: s_def loki_ok_def loki_holds_def loki_unavailable_fold)
    have "MainLogger_destroy L ml w =
        Inr (emits (Log info ''Goodbye!'' # es @ Sink FlushLogger #
          [Sink (DropLogger (ml_name ml)), Sink (DefaultLogger ''default'')] @
          (if connHandler s = None then [] else [Curl CurlFree]) @ [Sink SentryClose]) w)"
      using loki_flush_empty [OF s(2), of "ls_http L" v]
      by (simp add: MainLogger_destroy_def bye(1) flush_logger_def v s_def [symmetric] tail) (simp add: v_def)
    then show thesis using False bye(2)
      by (intro that [of "Log info ''Goodbye!'' # es @ Sink FlushLogger #
          [Sink (DropLogger (ml_name ml)), Sink (DefaultLogger ''default'')] @
          (if connHandler s = None then [] else [Curl CurlFree]) @ [Sink SentryClose]"])
        (auto simp: loki_holds_def)
  qed
qed

lemma loki_api_sink_ok:
  assumes "loki_api_sink H bi hi addr w = (Inr s, w')"
  shows "loki_ok s" and "addr \<noteq> [] \<Longrightarrow> loki_holds s []"
  using loki_api_sink_holds [OF assms] assms
  by (auto simp: loki_ok_def) (auto simp: loki_api_sink_def split: if_splits)

lemma loki_ok_fold: "loki_ok s \<Longrightarrow> loki_ok (fold loki_sink_it msgs s)"
  using loki_fold(1) loki_unavailable_fold unfolding loki_ok_def by metis

lemma MainLogger_loki:
  assumes "MainLogger L E loki sentry w = (Inr ml, w')"
  shows "loki_ok (ml_loki ml)" and "loki \<noteq> [] \<Longrightarrow> \<exists>msgs. loki_holds (ml_loki ml) msgs"
proof -
  let ?line = "pad_right (CHR '' '') 15 (bi_name (ls_build L)) @ '': '' @ e_version E"
  from assms obtain u v lk b v' where lk: "loki_api_sink (ls_http L) (ls_build L) (ls_host L) loki u = (Inr lk, v)"
    and line: "log_line L info ?line \<lparr>ml_name = bi_name (ls_build L), ml_loki = lk, ml_sentry = b\<rparr> v' = (ml, w')"
    unfolding MainLogger_def Let_def by (auto split: sum.splits prod.splits)
  obtain more where more: "ml_loki ml = fold loki_sink_it more lk"
    by (rule log_line_result [of L info ?line "\<lparr>ml_name = bi_name (ls_build L), ml_loki = lk, ml_sentry = b\<rparr>" v'])
      (use line in auto)
  show "loki_ok (ml_loki ml)" using loki_api_sink_ok(1) [OF lk] more by (simp add: loki_ok_fold)
  show "loki \<noteq> [] \<Longrightarrow> \<exists>msgs. loki_holds (ml_loki ml) msgs"
    using loki_fold(1) [OF loki_api_sink_ok(2) [OF lk]] more by auto
qed

section \<open>The destructors of the request server and of the logger\<close>

text \<open>The logger of a started program; with a Loki address its sink is connected.\<close>

definition logger_ok :: "bool \<Rightarrow> program \<Rightarrow> bool" where
  "logger_ok loki p \<longleftrightarrow> (\<exists>ml. p_logger p = Some ml \<and> loki_ok (ml_loki ml) \<and>
     (loki \<longrightarrow> (\<exists>msgs. loki_holds (ml_loki ml) msgs)))"

lemma zmq_stop_calls:
  "zmq_stop Z s w = (r, s', w') \<Longrightarrow> \<exists>cs. calls w' = calls w @ cs \<and> no_sockets cs"
  by (auto simp: zmq_stop_def Let_def split: if_splits)

lemma zmq_destroy_calls: "\<exists>cs. calls (zmq_destroy Z s w) = calls w @ cs \<and> no_sockets cs"
  by (auto simp: zmq_destroy_def split: sum.split prod.split dest!: zmq_stop_calls)

lemma zmq_server_destroy_calls:
  assumes "zmq_server_destroy Z srv w = (r, w')"
  obtains cs where "calls w' = calls w @ cs" and "no_sockets cs"
proof -
  define u where "u = (if zThread srv then emit Join w else w)"
  obtain r1 s1 w1 where stop: "zmq_stop Z (zsock srv) u = (r1, s1, w1)" by (cases "zmq_stop Z (zsock srv) u")
  obtain cs where cs: "calls w1 = calls u @ cs" "no_sockets cs" using zmq_stop_calls [OF stop] by blast
  have u: "\<exists>ds. calls u = calls w @ ds \<and> no_sockets ds" by (auto simp: u_def)
  have "\<exists>es. calls w' = calls w1 @ es \<and> no_sockets es"
  proof (cases r1)
    case (Inl e)
    then show ?thesis using assms stop by (auto simp: zmq_server_destroy_def zmq_shutdown_def u_def Let_def)
  next
    case (Inr a)
    obtain es where "calls (zmq_destroy Z s1 (stopMonitoring w1)) = calls (stopMonitoring w1) @ es" "no_sockets es"
      using zmq_destroy_calls by blast
    then show ?thesis using assms stop Inr
      by (auto simp: zmq_server_destroy_def zmq_shutdown_def u_def Let_def stopMonitoring_def)
  qed
  with u cs show thesis using that by fastforce
qed

lemma destroy_logger_calls:
  assumes "\<And>ml. p_logger p = Some ml \<Longrightarrow> loki_ok (ml_loki ml)"
  obtains cs where "destroy_logger PE pending code p w = Returned code (emits cs w)" and "no_sockets cs"
    and "logger_ok True p \<Longrightarrow> loki_wanted pending \<Longrightarrow> \<exists>rv. Curl (CurlPerform rv) \<in> set cs"
proof (cases "p_logger p")
  case None
  then show thesis by (intro that [of "[]"]) (simp_all add: destroy_logger_def logger_ok_def)
next
  case (Some ml)
  then have hold: "loki_ok (ml_loki (hold_records pending ml))"
    using assms by (simp add: hold_records_def loki_ok_fold)
  obtain cs where cs: "MainLogger_destroy (pe_log PE) (hold_records pending ml) w = Inr (emits cs w)" "no_sockets cs"
    "\<And>msgs. loki_holds (ml_loki (hold_records pending ml)) msgs \<Longrightarrow> loki_wanted msgs \<Longrightarrow>
       \<exists>rv. Curl (CurlPerform rv) \<in> set cs"
    by (rule MainLogger_destroy_calls [OF hold, of "pe_log PE" w]) blast
  have "\<exists>rv. Curl (CurlPerform rv) \<in> set cs" if held: "logger_ok True p" and wanted: "loki_wanted pending"
  proof -
    obtain old where "loki_holds (ml_loki ml) old" using held Some by (auto simp: logger_ok_def)
    from loki_fold(1) [OF this, of pending] show ?thesis
      using cs(3) [of "old @ pending"] wanted by (auto simp: hold_records_def loki_wanted_def)
  qed
  with cs(1,2) Some show thesis by (intro that) (simp_all add: destroy_logger_def)
qed

section \<open>What the end needs, from the start on\<close>

abbreviation shipped_ok :: "telnet_server \<Rightarrow> bool" where
  "shipped_ok \<equiv> server_ok TelnetConnectedCallback TelnetMessageCallback TelnetTabCallback"

text \<open>
  The sink of the logger can be flushed; the servers are there only if their options are, and are
  well formed.
\<close>

definition safe :: "string list \<Rightarrow> program \<Rightarrow> bool" where
  "safe input p \<longleftrightarrow>
     (\<forall>ml. p_logger p = Some ml \<longrightarrow> loki_ok (ml_loki ml)) \<and>
     (\<forall>srv. p_zmq p = Some srv \<longrightarrow>
        zCallback srv = Some ZeroMQServerMessageCallback \<and> getCmdOption input ''--enable-zeromq'' \<noteq> []) \<and>
     (\<forall>srv. p_telnet p = Some srv \<longrightarrow> shipped_ok srv \<and> cmdOptionExists input ''--enable-telnet'')"

definition keeps :: "bool \<Rightarrow> string list \<Rightarrow> program \<Rightarrow> bool" where
  "keeps loki input p \<longleftrightarrow> logger_ok loki p \<and> safe input p"

lemma safe_no_program: "safe input no_program"
  by (simp add: safe_def no_program_def)

text \<open>What holds of the locals however a stage ends, short of an exception.\<close>

definition stage_all :: "(program \<Rightarrow> bool) \<Rightarrow> stage \<Rightarrow> bool" where
  "stage_all P m = (case m of Go p w \<Rightarrow> P p | Fail p w \<Rightarrow> P p | Throw e w \<Rightarrow> True)"

lemma stage_all_simps [simp]:
  "stage_all P (Go p w) = P p" "stage_all P (Fail p w) = P p" "stage_all P (Throw e w)"
  by (simp_all add: stage_all_def)

lemma keeps_new_registry: "new_registry p = (reg, q) \<Longrightarrow> keeps loki input q \<longleftrightarrow> keeps loki input p"
  by (drule new_registry_frame) (simp add: keeps_def safe_def logger_ok_def same_locals_def)

lemma keeps_updates [simp]:
  "keeps loki input (p\<lparr>p_tracer := t\<rparr>) \<longleftrightarrow> keeps loki input p"
  "keeps loki input (p\<lparr>p_prometheus := s\<rparr>) \<longleftrightarrow> keeps loki input p"
  "keeps loki input (p\<lparr>p_self := m\<rparr>) \<longleftrightarrow> keeps loki input p"
  by (simp_all add: keeps_def safe_def logger_ok_def)

lemma keeps_zmq:
  "zmq_initialise Z (srv\<lparr>zCallback := Some ZeroMQServerMessageCallback\<rparr>) w = (r, z, w') \<Longrightarrow>
   keeps loki input p \<Longrightarrow> getCmdOption input ''--enable-zeromq'' \<noteq> [] \<Longrightarrow> keeps loki input (p\<lparr>p_zmq := Some z\<rparr>)"
  by (drule zmq_initialise_frame) (simp add: keeps_def safe_def logger_ok_def)

lemma keeps_telnet:
  "shipped_ok srv \<Longrightarrow> keeps loki input p \<Longrightarrow> cmdOptionExists input ''--enable-telnet'' \<Longrightarrow>
   keeps loki input (p\<lparr>p_telnet := Some srv\<rparr>)"
  by (simp add: keeps_def safe_def logger_ok_def)

lemma telnet_keeps:
  assumes "keeps loki input p"
  shows "stage_all (keeps loki input) (start_telnet PE input p w)"
proof -
  have new: "shipped_ok (new_server\<lparr>srv_cfg := shipped_cfg []\<rparr>)"
    by (simp add: server_ok_def new_server_def shipped_cfg_def)
  have init: "keeps loki input (q\<lparr>p_telnet := Some srv\<rparr>)" if "server_initialise E port (Some i) prompt reg name
      (new_server\<lparr>srv_cfg := shipped_cfg []\<rparr>) u = Inr (ok, srv, v)" "new_registry p = (reg, q)"
    "cmdOptionExists input ''--enable-telnet''" for E port i u prompt reg name ok srv v q
  proof (rule keeps_telnet [OF _ _ that(3)])
    show "shipped_ok srv" using telnet_initialise_ok [OF that(1)] by (simp add: telnet_ok_def)
    show "keeps loki input q" using keeps_new_registry [OF that(2)] assms by simp
  qed
  show ?thesis
    using assms keeps_telnet [OF new] init
    by (auto simp: start_telnet_def keeps_new_registry Let_def split: prod.split sum.split)
qed

lemma signals_keep:
  "keeps loki input p \<Longrightarrow> stage_all (keeps loki input) (register_signals PE names p w)"
  by (induction names arbitrary: w) (simp_all add: Let_def)

lemma stages_keep:
  assumes "k < 5" and "keeps loki input p"
  shows "stage_all (keeps loki input) ((stages PE input config ! k) p w)"
  using five_stages [OF assms(1)]
proof (elim disjE)
  assume "k = 0"
  then show ?thesis using assms(2) by (simp add: start_tracer_def Let_def split: prod.split sum.split)
next
  assume "k = 1"
  then show ?thesis using assms(2) by (auto simp: start_prometheus_def Let_def split: sum.split prod.split)
next
  assume "k = 2"
  then show ?thesis
    using assms(2) by (auto simp: start_self_monitor_def keeps_new_registry Let_def split: option.split prod.split sum.split)
next
  assume "k = 3"
  then show ?thesis
    using assms(2) by (auto simp: start_zmq_def keeps_new_registry Let_def intro: keeps_zmq split: prod.split sum.split)
next
  assume "k = 4"
  then show ?thesis using telnet_keeps [OF assms(2)] by simp
qed

lemma program_step_safe:
  assumes "program_step PE (p, w) b (q, u)" and "safe input p"
  shows "safe input q \<and> p_logger q = p_logger p"
  using assms(1)
proof cases
  case (telnet srv srv' w1)
  then have "shipped_ok srv" "m_initialised srv" using assms(2) by (auto simp: safe_def server_ok_def)
  from shipped.server_update_Inr(1) [OF telnet(6) this] show ?thesis
    using assms(2) telnet by (simp add: safe_def)
qed (use assms(2) in \<open>simp_all add: safe_def\<close>)

lemma program_step_keeps: "program_step PE (p, w) b (q, u) \<Longrightarrow> keeps loki input p \<Longrightarrow> keeps loki input q"
  using program_step_safe unfolding keeps_def logger_ok_def by metis

lemma boot_keeps:
  assumes "boot PE input config w = Go p v"
  shows "keeps (config_get config ''LOKI_ADDRESS'' \<noteq> []) input p"
proof -
  from assms obtain ml u u' where ml: "MainLogger (pe_log PE) (pe_E PE) (config_get config ''LOKI_ADDRESS'')
      (config_get config ''SENTRY_ADDRESS'') u = (Inr ml, u')" and p: "p = no_program\<lparr>p_logger := Some ml\<rparr>"
    by (auto simp: boot_def Let_def split: if_splits sum.splits prod.splits)
  from MainLogger_loki [OF ml] show ?thesis by (simp add: p keeps_def safe_def logger_ok_def no_program_def)
qed

abbreviation loki_configured :: "program_env \<Rightarrow> string list \<Rightarrow> bool" where
  "loki_configured PE argv \<equiv> config_get (main_config PE argv) ''LOKI_ADDRESS'' \<noteq> []"

interpretation logged: program_invariant PE argv w "\<lambda>k bs p v. keeps (loki_configured PE argv) (InputParser argv) p"
  for PE argv w
proof unfold_locales
  fix p v
  assume "prologue PE (InputParser argv) (main_config PE argv) w = Go p v"
  then obtain u where "boot PE (InputParser argv) (main_config PE argv) w = Go p u"
    by (rule prologue_Go)
  then show "keeps (loki_configured PE argv) (InputParser argv) p" by (rule boot_keeps)
next
  fix k bs p v q u
  assume "k < 5" "keeps (loki_configured PE argv) (InputParser argv) p"
    "(stages PE (InputParser argv) (main_config PE argv) ! k) p v = Go q u"
  with stages_keep [OF this(1,2), of PE "main_config PE argv" v]
  show "keeps (loki_configured PE argv) (InputParser argv) q" by simp
qed (rule program_step_keeps)

lemma startup_logger:
  "startup PE argv w ms (Go p v) flag \<Longrightarrow> keeps (loki_configured PE argv) (InputParser argv) p"
  by (rule logged.startup_keeps)

lemma starting_safe:
  assumes "starting PE argv w k ms (Go p v) flag"
  shows "safe (InputParser argv) p"
proof -
  have "starting PE argv w (min k 5) ms (Go p v) flag"
    using assms by (cases "k \<le> 5") (simp_all add: starting_def stages_def Let_def min_def)
  from logged.starting_keeps [OF this] show ?thesis by (simp add: keeps_def)
qed

lemma startup_Fail:
  assumes "startup PE argv w ms (Fail p v) flag"
  shows "p = no_program \<or> keeps (loki_configured PE argv) (InputParser argv) p"
  using logged.startup_fails [OF assms]
proof
  assume "logged.fails PE argv (Fail p v)"
  then obtain k q u where "k < 5" "keeps (loki_configured PE argv) (InputParser argv) q"
    "(stages PE (InputParser argv) (main_config PE argv) ! k) q u = Fail p v"
    unfolding logged.fails_def by blast
  with stages_keep [OF this(1,2), of PE "main_config PE argv" u] show ?thesis by simp
next
  assume prologue: "prologue PE (InputParser argv) (main_config PE argv) w = Fail p v"
  show ?thesis
  proof (cases "boot PE (InputParser argv) (main_config PE argv) w")
    case (Go q u)
    with signals_keep [OF boot_keeps [OF Go]] prologue show ?thesis
      by (metis prologue_def go_simps(1) stage_all_simps(2))
  next
    case (Fail q u)
    then have "q = no_program" by (auto simp: boot_def Let_def split: if_splits sum.splits prod.splits)
    then show ?thesis using prologue Fail by (simp add: prologue_def)
  next
    case (Throw e u)
    then show ?thesis using prologue by (simp add: prologue_def)
  qed
qed

section \<open>The end\<close>

definition grows :: "world \<Rightarrow> world \<Rightarrow> bool" where
  "grows w v \<longleftrightarrow> (\<exists>cs. calls v = calls w @ cs)"

lemma growsI [intro]: "calls v = calls w @ cs \<Longrightarrow> grows w v"
  by (auto simp: grows_def)

lemma grows_refl [simp]: "grows w w"
  by (rule growsI [of _ _ "[]"]) simp

lemma grows_trans: "grows u v \<Longrightarrow> grows v w \<Longrightarrow> grows u w"
  by (auto simp: grows_def)

lemma grows_calls [simp]:
  "grows w v \<Longrightarrow> grows w (emit c v)" "grows w v \<Longrightarrow> grows w (metric m v)" "grows w v \<Longrightarrow> grows w (logging l t v)"
  "grows w v \<Longrightarrow> grows w (set_flag f v)" "grows w v \<Longrightarrow> grows w (clear_flags v)"
  by (auto simp: grows_def logging_def set_flag_def clear_flags_def split: option.split)

lemma grows_pm_update: "pm_update regex r pm w = (res, pm', w') \<Longrightarrow> grows w w'"
  by (auto simp: pm_update_def getCpuUsage_def getDiskIO_def Let_def split: sum.splits prod.splits if_splits)

lemma program_step_grows:
  assumes "program_step PE (p, w) b (q, v)" and "safe input p" and "zmq_env_ok (pe_Z PE)"
  shows "grows w v"
  using assms(1)
proof cases
  case (zmq srv w1)
  then have "zCallback srv = Some ZeroMQServerMessageCallback" using assms(2) by (simp add: safe_def)
  from zmq_update_shipped [OF assms(3) this, of "pe_E PE" w] zmq have "grows w w1" by auto
  then show ?thesis by (simp add: zmq)
next
  case (zmq_failed srv e w1)
  then have "zCallback srv = Some ZeroMQServerMessageCallback" using assms(2) by (simp add: safe_def)
  from zmq_update_shipped [OF assms(3) this, of "pe_E PE" w] zmq_failed have "grows w w1" by auto
  then show ?thesis by (simp add: zmq_failed)
next
  case (telnet srv srv' w1)
  then have "shipped_ok srv" "m_initialised srv" using assms(2) by (auto simp: safe_def server_ok_def)
  from shipped.server_update_Inr(7) [OF telnet(6) this] have "grows w w1" by blast
  then show ?thesis by (simp add: telnet)
qed (auto simp: alarmFunc_def tracer_loop_zero dest: grows_pm_update)

text \<open>The state while the locals die; a telnet server that was given up still has its thread.\<close>

definition end_safe :: "string list \<Rightarrow> end_state \<Rightarrow> bool" where
  "end_safe input = (\<lambda>(p, t, w). safe input p \<and> (\<forall>srv. t = Some srv \<longrightarrow>
     shipped_ok srv \<and> m_initialised srv \<and> cmdOptionExists input ''--enable-telnet''))"

lemma end_step_safe:
  assumes "end_step PE (p, t, w) (q, u, v)" and "end_safe input (p, t, w)" and "zmq_env_ok (pe_Z PE)"
  shows "end_safe input (q, u, v) \<and> p_logger q = p_logger p \<and> grows w v"
  using assms(1)
proof cases
  case (owned b)
  then show ?thesis
    using program_step_safe [OF owned(2)] program_step_grows [OF owned(2) _ assms(3)] assms(2)
    by (auto simp: end_safe_def)
next
  case (abandoned srv srv')
  then show ?thesis using shipped.abandoned_round_Inr [OF abandoned(5)] assms(2) by (auto simp: end_safe_def)
qed

text \<open>Only the telnet server can crash the process.\<close>

lemma crashes_safe:
  assumes "crashes PE (p, t, w) f" and "end_safe input (p, t, w)" and "zmq_env_ok (pe_Z PE)"
  shows "cmdOptionExists input ''--enable-telnet'' \<and> f \<in> {PastEndIterator, FdSetRange, SelfJoin}"
  using assms(1)
proof cases
  case (telnet srv)
  then have srv: "shipped_ok srv" "m_initialised srv" and asked: "cmdOptionExists input ''--enable-telnet''"
    using assms(2) by (auto simp: end_safe_def safe_def server_ok_def)
  have "f = FdSetRange" if "\<not> listen_in_range srv"
    using telnet(3) that by (simp add: server_update_eq split: prod.splits)
  with shipped.server_update_Inl [OF telnet(3) srv] asked show ?thesis by blast
next
  case (zmq srv)
  then have "zCallback srv = Some ZeroMQServerMessageCallback" using assms(2) by (simp add: end_safe_def safe_def)
  from zmq_update_shipped [OF assms(3) this, of "pe_E PE" w] zmq show ?thesis by auto
next
  case (abandoned srv)
  then show ?thesis using shipped.abandoned_round_Inl [OF abandoned(3)] assms(2) by (auto simp: end_safe_def)
qed

text \<open>A destructor leaves such a state, or it ends the process.\<close>

definition broken_end :: "string list \<Rightarrow> ending \<Rightarrow> bool" where
  "broken_end input r \<longleftrightarrow> (case r of
       Returned c u \<Rightarrow> False
     | Terminated e u \<Rightarrow> getCmdOption input ''--enable-zeromq'' \<noteq> []
     | Crashed f \<Rightarrow> cmdOptionExists input ''--enable-telnet'' \<and> f \<in> {PastEndIterator, FdSetRange, SelfJoin})"

definition released_to :: "string list \<Rightarrow> end_state \<Rightarrow> ending + end_state \<Rightarrow> bool" where
  "released_to input s x \<longleftrightarrow> (case x of
       Inr s' \<Rightarrow> end_safe input s' \<and> p_logger (fst s') = p_logger (fst s) \<and> grows (snd (snd s)) (snd (snd s'))
     | Inl r \<Rightarrow> broken_end input r)"

lemma release_telnet_safe:
  assumes "release_telnet PE (p, t, w) x" and "end_safe input (p, t, w)"
  shows "released_to input (p, t, w) x"
  using assms(1)
proof cases
  case (kept srv)
  then show ?thesis using assms(2) by (auto simp: released_to_def end_safe_def safe_def server_ok_def)
next
  case (destroyed srv sched srv' v)
  from destructor_run_closes [OF destroyed(4,3)] have "grows w v" by blast
  then show ?thesis using assms(2) destroyed by (auto simp: released_to_def end_safe_def safe_def)
next
  case (torn srv sched f)
  then show ?thesis using destructor_run_fault [OF torn(4,3)] assms(2)
    by (auto simp: released_to_def broken_end_def end_safe_def safe_def)
qed (use assms(2) in \<open>simp add: released_to_def\<close>)

lemma release_zmq_safe:
  assumes "end_safe input (p, t, w)"
  shows "released_to input (p, t, w) (release_zmq PE (p, t, w))"
proof (cases "p_zmq p")
  case None
  then show ?thesis using assms by (simp add: released_to_def release_zmq_def)
next
  case (Some srv)
  obtain r w' where z: "zmq_server_destroy (pe_Z PE) srv w = (r, w')" by fastforce
  then have "grows w w'" by (auto elim: zmq_server_destroy_calls)
  then show ?thesis using Some z assms
    by (auto simp: released_to_def release_zmq_def broken_end_def end_safe_def safe_def split: sum.split)
qed

lemma destructor_safe:
  assumes "d \<in> set (destructors PE)" and "d s x" and "end_safe input s"
  shows "released_to input s x"
proof -
  obtain p t w where s: "s = (p, t, w)" by (cases s)
  show ?thesis using assms(1,2)
  proof (cases rule: destructors_cases)
    case 1
    then show ?thesis using release_telnet_safe assms(3) s by blast
  next
    case 2
    then show ?thesis using release_zmq_safe assms(3) s by blast
  qed (use assms(3) s in \<open>auto simp: released_to_def release_self_def release_tracer_def end_safe_def safe_def\<close>)
qed

lemma unwinds_result:
  assumes "unwinds PE pending code ds (p, t, w) r" and "set ds \<subseteq> set (destructors PE)"
    and "end_safe input (p, t, w)" and Z: "zmq_env_ok (pe_Z PE)"
  shows "broken_end input r \<or> (\<exists>u cs. r = Returned code u \<and> calls u = calls w @ cs \<and>
      (logger_ok True p \<longrightarrow> loki_wanted pending \<longrightarrow> (\<exists>rv. Curl (CurlPerform rv) \<in> set cs)))"
  using assms(1-3)
proof (induction ds "(p, t, w)" r arbitrary: p t w rule: unwinds.induct)
  case (logger p t w)
  obtain cs where "destroy_logger PE pending code p w = Returned code (emits cs w)"
    "logger_ok True p \<Longrightarrow> loki_wanted pending \<Longrightarrow> \<exists>rv. Curl (CurlPerform rv) \<in> set cs"
    using logger.prems(2) by (auto simp: end_safe_def safe_def intro: destroy_logger_calls [of p PE pending code w])
  then show ?case by auto
next
  case (round s' ds r)
  obtain q u v where s': "s' = (q, u, v)" by (cases s')
  from end_step_safe [OF round.hyps(1) [unfolded s'] round.prems(2) Z] round.hyps(3) [OF s' round.prems(1)] s'
  show ?case by (fastforce simp: grows_def logger_ok_def)
next
  case (crash f ds)
  then show ?case using crashes_safe [OF _ _ Z] by (simp add: broken_end_def)
next
  case (released d s' ds r)
  obtain q u v where s': "s' = (q, u, v)" by (cases s')
  have "released_to input (p, t, w) (Inr s')"
    using destructor_safe [where PE = PE and d = d and s = "(p, t, w)" and x = "Inr s'"] released.hyps(1) released.prems by simp
  with released.hyps(3) [OF s'] released.prems(1) s' show ?case
    by (fastforce simp: released_to_def grows_def logger_ok_def)
next
  case (broken d r ds)
  then show ?case using destructor_safe [where PE = PE and d = d and s = "(p, t, w)" and x = "Inl r"] by (simp add: released_to_def)
qed

text \<open>When no round comes in between, the destructors run to their end.\<close>

lemma release_telnet_total: "\<exists>s'. release_telnet PE (p, t, w) (Inr s') \<and>
    p_zmq (fst s') = p_zmq p \<and> p_logger (fst s') = p_logger p"
proof (cases "p_telnet p")
  case (Some srv)
  show ?thesis
  proof (cases "m_sessions srv = []")
    case True
    obtain srv' v where "run_moves (destructor_move (pe_E PE)) (replicate 6 Owner) (CloseSessions, srv, w) =
        Inr (ShutdownReturned, srv', v)"
      using destructor_at_once by blast
    from release_telnet.destroyed [OF Some True this, of t] show ?thesis by (intro exI conjI) auto
  next
    case False
    from release_telnet.kept [OF Some this] show ?thesis by (intro exI conjI) auto
  qed
next
  case None
  from release_telnet.absent [OF this] show ?thesis by (intro exI conjI) auto
qed

lemma unwind_returns:
  assumes "safe input p" and "p_zmq p = None"
  shows "\<exists>u. unwind PE pending code (p, w) (Returned code u)"
proof -
  obtain q t v where 1: "release_telnet PE (p, None, w) (Inr (q, t, v))" and q: "p_zmq q = None" "p_logger q = p_logger p"
    using release_telnet_total [of PE p None w] assms(2) by auto
  have 2: "release_zmq PE (q, t, v) = Inr (q, t, v)" using q(1) by (simp add: release_zmq_def)
  obtain q' v' where 3: "release_self (q, t, v) = Inr (q', t, v')" "p_logger q' = p_logger q"
    by (simp add: release_self_def)
  obtain q'' v'' where 4: "release_tracer (q', t, v') = Inr (q'', t, v'')" "p_logger q'' = p_logger q'"
    by (simp add: release_tracer_def)
  have "p_logger q'' = Some ml \<Longrightarrow> loki_ok (ml_loki ml)" for ml
    using assms(1) q(2) 3(2) 4(2) by (simp add: safe_def)
  then obtain cs where "destroy_logger PE pending code q'' v'' = Returned code (emits cs v'')"
    by (rule destroy_logger_calls)
  with unwinds.logger [of PE pending code q'' t v'']
  have "unwinds PE pending code [] (q'', t, v'') (Returned code (emits cs v''))" by simp
  from unwinds.released [where d = "\<lambda>s r. r = release_tracer s", OF 4(1) [symmetric] this]
  have "unwinds PE pending code [\<lambda>s r. r = release_tracer s] (q', t, v') (Returned code (emits cs v''))" .
  from unwinds.released [where d = "\<lambda>s r. r = release_self s", OF 3(1) [symmetric] this]
  have "unwinds PE pending code [\<lambda>s r. r = release_self s, \<lambda>s r. r = release_tracer s] (q, t, v)
    (Returned code (emits cs v''))" .
  from unwinds.released [where d = "release_telnet PE", OF 1
      unwinds.released [where d = "\<lambda>s r. r = release_zmq PE s", OF 2 [symmetric] this]]
  show ?thesis unfolding unwind_def destructors_def prod.case by blast
qed

end
