(* ===== verification/ProgramLedger.thy ===== *)
theory ProgramLedger
  imports ProgramEnd
begin

text \<open>
  The ledger of the program's socket descriptors: only the telnet server opens and closes them, so
  that what it owns is what the program has open, from the start to the end.
\<close>

section \<open>Steps that leave the ledger alone\<close>

definition ledger :: "world \<Rightarrow> sock list \<times> sock list" where
  "ledger w = (opens (calls w), closes (calls w))"

lemma ledger_iff:
  "ledger v = ledger w \<longleftrightarrow> opens (calls v) = opens (calls w) \<and> closes (calls v) = closes (calls w)"
  by (simp add: ledger_def)

lemma ledger_calls: "calls v = calls w @ cs \<Longrightarrow> no_sockets cs \<Longrightarrow> ledger v = ledger w"
  by (simp add: ledger_iff no_sockets_def)

lemma ledger_emits: "no_sockets cs \<Longrightarrow> ledger (emits cs w) = ledger w"
  by (rule ledger_calls) simp_all

lemma ledger_simps [simp]:
  "ledger (emit (Log l m) w) = ledger w" "ledger (emit (SetLevel l) w) = ledger w"
  "ledger (emit (Sys y) w) = ledger w" "ledger (emit Join w) = ledger w"
  "ledger (emit (Clock t) w) = ledger w" "ledger (logging l m w) = ledger w"
  "ledger (zcall z w) = ledger w" "ledger (curl d w) = ledger w" "ledger (sink_call c w) = ledger w"
  "ledger (metric k w) = ledger w" "ledger (set_flag f w) = ledger w" "ledger (add_flag name w) = ledger w"
  "ledger (clear_flags w) = ledger w"
  by (simp_all add: ledger_def logging_def add_flag_def clear_flags_def set_flag_def split: option.split)

lemma ledger_metrics: "metrics_only w v \<Longrightarrow> ledger v = ledger w"
  by (auto simp: metrics_only_def ledger_iff)

section \<open>The start\<close>

lemma ledger_log_line: "log_line L l m ml w = (ml', w') \<Longrightarrow> ledger w' = ledger w"
  by (rule log_line_result [of L l m ml w]) (auto simp: ledger_emits)

lemma ledger_http: "HTTP H addr t w = (r, w') \<Longrightarrow> ledger w' = ledger w"
  by (auto simp: HTTP_def Let_def split: if_splits)

lemma ledger_loki: "loki_api_sink H bi hi addr w = (r, w') \<Longrightarrow> ledger w' = ledger w"
  by (auto simp: loki_api_sink_def dest: ledger_http split: if_splits sum.splits prod.splits)

lemma ledger_sentry: "sentry_api_sink bi hi ifs addr w = (r, w') \<Longrightarrow> ledger w' = ledger w"
  by (auto simp: sentry_api_sink_def setVersionContext_def setHostContext_def setNetworkContext_def Let_def
      split: if_splits option.splits)

lemma ledger_logger: "MainLogger L E loki sentry w = (r, w') \<Longrightarrow> ledger w' = ledger w"
  by (auto simp: MainLogger_def Let_def dest!: ledger_loki ledger_sentry ledger_log_line
      split: sum.splits prod.splits if_splits)

lemma ledger_boot: "boot PE input config w = Go p w' \<Longrightarrow> ledger w' = ledger w"
  by (auto simp: boot_def Let_def dest: ledger_logger split: if_splits sum.splits prod.splits)

lemma ledger_log_pairs: "ledger (log_pairs es w) = ledger w"
  by (induction es arbitrary: w) (auto simp: log_pairs_def)

lemma ledger_settings:
  "ledger (log_settings PE input config w) = ledger w" "ledger (set_verbosity input w) = ledger w"
  by (simp_all add: log_settings_def set_verbosity_def ledger_log_pairs Let_def)

lemma ledger_signals: "register_signals PE names p w = Go p' w' \<Longrightarrow> ledger w' = ledger w"
  by (induction names arbitrary: w) (auto simp: Let_def split: if_splits)

lemma ledger_tracer: "start_tracer PE config p w = Go p' w' \<Longrightarrow> ledger w' = ledger w"
  by (auto simp: start_tracer_def Tracer_def startHandler_def Let_def split: prod.splits sum.splits if_splits)

lemma ledger_prometheus: "start_prometheus PE input p w = Go p' w' \<Longrightarrow> ledger w' = ledger w"
  by (auto simp: start_prometheus_def PrometheusServer_def Let_def split: if_splits sum.splits option.splits)

lemma ledger_self: "start_self_monitor p w = Go p' w' \<Longrightarrow> ledger w' = ledger w"
  by (auto simp: start_self_monitor_def ProcessMetrics_def Let_def split: option.splits prod.splits sum.splits if_splits)

lemma ledger_zmq_ctor: "ZeroMQServer E Z addr flag reg name w = (r, w') \<Longrightarrow> ledger w' = ledger w"
proof -
  have init: "ledger v = ledger u" if "zmq_init Z t a b u = (r, v)" for t a b u r v
    using that by (auto simp: zmq_init_def Let_def split: if_splits)
  have mon: "ledger v = ledger u" if "startMonitoring Z n a u = (r, v)" for n a u r v
    using that by (auto simp: startMonitoring_def Let_def split: if_splits)
  have stats: "ledger v = ledger u" if "ZeroMQStats E g n u = Inr (zs, v)" for g n u zs v
    using that metrics_only_init [of u] ledger_metrics by (auto simp: ZeroMQStats_def Let_def split: if_splits)
  show "ZeroMQServer E Z addr flag reg name w = (r, w') \<Longrightarrow> ledger w' = ledger w"
    by (auto simp: ZeroMQServer_def Let_def dest!: init mon stats split: sum.splits prod.splits if_splits)
qed

lemma ledger_zmq_initialise: "zmq_initialise Z srv w = (r, srv', w') \<Longrightarrow> ledger w' = ledger w"
  by (auto simp: zmq_initialise_def zmq_start_def Let_def split: sum.splits prod.splits if_splits bool.splits)

lemma ledger_zmq: "start_zmq PE input p w = Go p' w' \<Longrightarrow> ledger w' = ledger w"
  by (auto simp: start_zmq_def Let_def dest!: ledger_zmq_ctor ledger_zmq_initialise
      split: if_splits prod.splits sum.splits)

section \<open>The steps\<close>

lemma ledger_pm_update: "pm_update regex r pm w = (res, pm', w') \<Longrightarrow> ledger w' = ledger w"
  by (auto simp: pm_update_def getCpuUsage_def getDiskIO_def Let_def split: sum.splits prod.splits if_splits)

lemma ledger_recv: "recvMessages Z s w = (r, w') \<Longrightarrow> ledger w' = ledger w"
  by (auto simp: recvMessages_def split: if_splits z_recv_result.splits)

lemma ledger_request: "log_request E m w = w' \<Longrightarrow> ledger w' = ledger w"
  by (auto simp: log_request_def Let_def)

lemma ledger_callback: "ZeroMQServerMessageCallback E Z msgs w = Inr (ok, reply, w') \<Longrightarrow> ledger w' = ledger w"
  by (auto simp: ZeroMQServerMessageCallback_def bind_sum_def Let_def ledger_request [OF refl]
      split: if_splits sum.splits prod.splits)

lemma ledger_reply: "send_reply E Z srv msgs start ok reply w = (r, w') \<Longrightarrow> ledger w' = ledger w"
  using ledger_metrics [OF metrics_only_zmq]
  by (auto simp: send_reply_def sendMessages_def read_clock_def Let_def
      split: if_splits sum.splits prod.splits z_send_result.splits option.splits)

lemma ledger_zmq_update:
  assumes "zmq_update E Z srv w = Inr (r, w')" and "zCallback srv = Some ZeroMQServerMessageCallback"
  shows "ledger w' = ledger w"
proof -
  obtain r1 w1 where recv: "recvMessages Z (zsock srv) w = (r1, w1)" by fastforce
  have 1: "ledger w1 = ledger w" using ledger_recv [OF recv] .
  have handle: "ledger v = ledger u" if "handle_request E Z (zCallback srv) msgs u = Inr (ok, reply, v)" for msgs u ok reply v
    using that ledger_callback assms(2) by (auto simp: handle_request_def split: if_splits)
  show ?thesis
    using assms(1) 1 by (auto simp: zmq_update_def recv read_clock_def bind_sum_def Let_def
        dest!: handle ledger_reply split: sum.splits if_splits prod.splits)
qed

text \<open>What the program owns is what it has open.\<close>

definition program_balanced :: "program \<Rightarrow> world \<Rightarrow> bool" where
  "program_balanced p w \<longleftrightarrow> mset (opens (calls w)) = mset (closes (calls w)) +
     (case p_telnet p of None \<Rightarrow> {#} | Some srv \<Rightarrow> mset (owned srv))"

lemma program_balanced_ledger:
  "ledger w' = ledger w \<Longrightarrow> p_telnet p' = p_telnet p \<Longrightarrow> program_balanced p w \<Longrightarrow> program_balanced p' w'"
  by (simp add: program_balanced_def ledger_iff)

lemma program_balanced_telnet: "p_telnet p = Some srv \<Longrightarrow> program_balanced p w \<longleftrightarrow> balanced srv w"
  by (simp add: program_balanced_def balanced_def)

lemma telnet_start_balanced:
  assumes "start_telnet PE input p w = Go p' w'" and "p_telnet p = None" and "program_balanced p w"
  shows "program_balanced p' w'"
proof (cases "cmdOptionExists input ''--enable-telnet''")
  case False
  then show ?thesis using assms by (auto simp: start_telnet_def Let_def intro: program_balanced_ledger)
next
  case True
  with assms(1) obtain reg q port ok srv where init: "server_initialise (pe_E PE) port (last_flag (add_flag ''Telnet Server'' w))
      ''> '' reg [] (new_server\<lparr>srv_cfg := shipped_cfg []\<rparr>) (add_flag ''Telnet Server'' w) = Inr (ok, srv, w')"
    and p': "p' = q\<lparr>p_telnet := Some srv\<rparr>"
    by (auto simp: start_telnet_def Let_def split: sum.splits prod.splits)
  obtain cs where "calls w' = calls w @ cs"
    "if ok then \<exists>fd. opens cs = [fd] \<and> fd \<noteq> - 1 \<and> closes cs = [] \<and> m_listenSocket srv = fd else opens cs = closes cs"
    using server_initialise_Inr(2) [OF init] by auto
  then have "balanced srv w'"
    using assms(2,3) server_initialise_Inr(3-5) [OF init]
    by (cases ok) (auto simp: balanced_def owned_def program_balanced_def new_server_def)
  then show ?thesis by (simp add: program_balanced_def balanced_def p')
qed

text \<open>Only a round of the telnet server touches a socket.\<close>

lemma program_step_ledger:
  assumes "program_step PE (p, w) b (p', w')"
    and "\<And>srv. p_zmq p = Some srv \<Longrightarrow> zCallback srv = Some ZeroMQServerMessageCallback"
  obtains (same) "ledger w' = ledger w" and "p_telnet p' = p_telnet p"
  | (telnet) srv srv' v where "p_telnet p = Some srv" and "m_serverThread srv"
      and "server_update (pe_E PE) srv w = Inr (srv', v)" and "p_telnet p' = Some srv'"
      and "w' = set_flag (m_checkFlag srv') v"
  using assms(1)
proof cases
  case alarm
  then show ?thesis by (intro same) (simp_all add: alarmFunc_def)
next
  case (crash tr probe)
  then show ?thesis by (intro same) (auto simp: tracer_loop_zero)
next
  case (self pm regex reading pm' w1)
  then show ?thesis by (intro same) (simp_all add: ledger_pm_update [OF self(5)])
next
  case (self_failed pm regex reading e pm' w1)
  then show ?thesis by (intro same) (simp_all add: ledger_pm_update [OF self_failed(5)])
next
  case (zmq srv w1)
  from ledger_zmq_update [OF zmq(6) assms(2) [OF zmq(4)]] zmq show ?thesis by (intro same) simp_all
next
  case (zmq_failed srv e w1)
  from ledger_zmq_update [OF zmq_failed(6) assms(2) [OF zmq_failed(4)]] zmq_failed show ?thesis by (intro same) simp_all
next
  case (telnet srv srv' w1)
  then show ?thesis by (intro that(2)) simp_all
qed

lemma program_step_balanced:
  assumes "program_step PE (p, w) b (p', w')" and "program_ok p" and "no_recv_error (pe_E PE)" and "program_balanced p w"
  shows "program_balanced p' w'"
proof (rule program_step_ledger [OF assms(1)])
  show "zCallback srv = Some ZeroMQServerMessageCallback" if "p_zmq p = Some srv" for srv
    using that assms(2) by (simp add: program_ok_def)
  show ?thesis if "ledger w' = ledger w" "p_telnet p' = p_telnet p"
    using program_balanced_ledger [OF that assms(4)] .
  fix srv srv' v
  assume telnet: "p_telnet p = Some srv" "m_serverThread srv" "server_update (pe_E PE) srv w = Inr (srv', v)"
    "p_telnet p' = Some srv'" "w' = set_flag (m_checkFlag srv') v"
  then have "server_ok TelnetConnectedCallback TelnetMessageCallback TelnetTabCallback srv" "balanced srv w"
    using assms(2,4) by (auto simp: program_ok_def telnet_ok_def program_balanced_telnet)
  from shipped.server_step_ok(2) [OF server_step.round [OF telnet(2,3)] this(1) assms(3) this(2)]
  show "program_balanced p' w'" by (simp add: telnet(4,5) program_balanced_telnet balanced_set_flag)
qed

lemma stage_balanced:
  assumes "k < 5" and "components k input p" and "program_balanced p v" and "(stages PE input config ! k) p v = Go q u"
  shows "program_balanced q u"
  using five_stages [OF assms(1)]
proof (elim disjE)
  assume "k = 0"
  then have stage: "start_tracer PE config p v = Go q u" using assms(4) by simp
  from program_balanced_ledger [OF ledger_tracer [OF this] _ assms(3)] start_tracer_Go(2) [OF stage] show ?thesis by auto
next
  assume "k = 1"
  then have stage: "start_prometheus PE input p v = Go q u" using assms(4) by simp
  from program_balanced_ledger [OF ledger_prometheus [OF this] _ assms(3)] start_prometheus_Go(2) [OF stage] show ?thesis
    by (simp add: same_locals_def)
next
  assume k: "k = 2"
  then have stage: "start_self_monitor p v = Go q u" and none: "p_self p = None"
    using assms(2,4) by (simp_all add: components_def)
  from program_balanced_ledger [OF ledger_self [OF stage] _ assms(3)] start_self_Go(2) [OF stage none] show ?thesis
    by (simp add: same_locals_def)
next
  assume k: "k = 3"
  then have stage: "start_zmq PE input p v = Go q u" and none: "p_zmq p = None"
    using assms(2,4) by (simp_all add: components_def)
  from program_balanced_ledger [OF ledger_zmq [OF stage] _ assms(3)] start_zmq_Go(2) [OF stage none] show ?thesis
    by (simp add: same_locals_def)
next
  assume k: "k = 4"
  then have "start_telnet PE input p v = Go q u" and "p_telnet p = None"
    using assms(2,4) by (simp_all add: components_def)
  from telnet_start_balanced [OF this assms(3)] show ?thesis .
qed

text \<open>A start from a process without open sockets, on a machine where no receive fails.\<close>

definition clean_start :: "program_env \<Rightarrow> world \<Rightarrow> bool" where
  "clean_start PE w \<longleftrightarrow> vCheckFlag w = [] \<and> zmq_env_ok (pe_Z PE) \<and> no_recv_error (pe_E PE) \<and>
     opens (calls w) = [] \<and> closes (calls w) = []"

interpretation booked: program_invariant PE argv w
  "\<lambda>k bs p v. clean_start PE w \<longrightarrow> program_typed k (InputParser argv) bs p v \<and> program_balanced p v" for PE argv w
proof unfold_locales
  fix p v
  assume start: "prologue PE (InputParser argv) (main_config PE argv) w = Go p v"
  then obtain q u where boot: "boot PE (InputParser argv) (main_config PE argv) w = Go q u"
    and signals: "register_signals PE [''SIGINT'', ''SIGTERM'', ''SIGALRM''] q
      (log_settings PE (InputParser argv) (main_config PE argv) (set_verbosity (InputParser argv) u)) = Go p v"
    unfolding prologue_def by (elim go_GoE)
  have "ledger v = ledger w" using ledger_boot [OF boot] ledger_signals [OF signals] by (simp add: ledger_settings)
  moreover have "p_telnet p = None" by (rule prologue_Go [OF start]) (simp add: no_program_def)
  ultimately show "clean_start PE w \<longrightarrow> program_typed 0 (InputParser argv) [] p v \<and> program_balanced p v"
    using typed.begins [OF start] by (auto simp: clean_start_def program_balanced_def ledger_iff)
next
  fix k bs p v q u
  assume "k < 5" "clean_start PE w \<longrightarrow> program_typed k (InputParser argv) bs p v \<and> program_balanced p v"
    "(stages PE (InputParser argv) (main_config PE argv) ! k) p v = Go q u"
  then show "clean_start PE w \<longrightarrow> program_typed (Suc k) (InputParser argv) bs q u \<and> program_balanced q u"
    using stage_typed [OF \<open>k < 5\<close>] stage_balanced [OF \<open>k < 5\<close>] by (meson program_typed_def)
next
  fix k bs p v b q u
  assume "clean_start PE w \<longrightarrow> program_typed k (InputParser argv) bs p v \<and> program_balanced p v"
    "program_step PE (p, v) b (q, u)"
  then show "clean_start PE w \<longrightarrow> program_typed k (InputParser argv) (bs @ [b]) q u \<and> program_balanced q u"
    using program_step_typed program_step_balanced unfolding clean_start_def program_typed_def by meson
qed

lemma startup_balanced:
  "startup PE argv w ms (Go p v) flag \<Longrightarrow> clean_start PE w \<Longrightarrow> program_balanced p v"
  using booked.startup_keeps by blast

section \<open>The end\<close>

text \<open>Steps that open and close nothing, and what such a step adds to an account.\<close>

lemma ledger_grows:
  assumes "ledger v = ledger w" and "grows w v"
  obtains cs where "calls v = calls w @ cs" and "no_sockets cs"
  using assms by (auto simp: grows_def ledger_iff no_sockets_def)

text \<open>
  The descriptors of \<open>fds\<close> and those the calls open are closed, or they are left.
\<close>

definition leaves :: "sock list \<Rightarrow> call list \<Rightarrow> sock multiset \<Rightarrow> bool" where
  "leaves fds cs left \<longleftrightarrow> mset fds + mset (opens cs) = left + mset (closes cs)"

lemma leaves_quiet: "no_sockets cs \<Longrightarrow> leaves fds (cs @ ds) left \<longleftrightarrow> leaves fds ds left"
  by (simp add: leaves_def no_sockets_def)

lemma leaves_append:
  "mset fds + mset (opens cs) = mset gds + mset (closes cs) \<Longrightarrow> leaves gds ds left \<Longrightarrow> leaves fds (cs @ ds) left"
  unfolding leaves_def
  by simp (metis (no_types, lifting) add.assoc add.commute)

text \<open>Without \<open>telnetController\<close> the destructors open and close nothing; neither do the threads, but for that of the abandoned server.\<close>

lemma released_without_telnet:
  assumes "d \<in> set (destructors PE)" and "d (p, t, w) (Inr (q, u, v))" and "p_telnet p = None"
  shows "u = t \<and> p_telnet q = None \<and> (\<exists>cs. calls v = calls w @ cs \<and> no_sockets cs)"
  using assms(1,2)
proof (cases rule: destructors_cases)
  case 1
  then show ?thesis using assms(3) by (auto elim!: release_telnetE intro: exI [of _ "[]"])
next
  case 2
  then show ?thesis using assms(3)
    by (auto simp: release_zmq_def split: option.splits sum.splits prod.splits elim: zmq_server_destroy_calls
        intro: exI [of _ "[]"])
qed (use assms(3) in \<open>auto simp: release_self_def release_tracer_def intro: exI [of _ "[]"]\<close>)

lemma unwinds_without_telnet:
  assumes "unwinds PE pending code ds (p, t, w) (Returned c u)" and "set ds \<subseteq> set (destructors PE)"
    and "end_safe input (p, t, w)" and Z: "zmq_env_ok (pe_Z PE)" and E: "no_recv_error (pe_E PE)" and "p_telnet p = None"
  shows "\<exists>cs. calls u = calls w @ cs \<and> (case t of
      None \<Rightarrow> no_sockets cs
    | Some srv \<Rightarrow> \<exists>left. leaves (owned srv) cs left \<and> m_listenSocket srv \<in># left)"
  using assms(1-3,6)
proof (induction ds "(p, t, w)" "Returned c u" arbitrary: p t w rule: unwinds.induct)
  case (logger p t w)
  obtain cs where cs: "destroy_logger PE pending code p w = Returned code (emits cs w)" "no_sockets cs"
    using logger.prems(2) by (auto simp: end_safe_def safe_def intro: destroy_logger_calls [of p PE pending code w])
  have "case t of None \<Rightarrow> no_sockets cs | Some srv \<Rightarrow> \<exists>left. leaves (owned srv) cs left \<and> m_listenSocket srv \<in># left"
    using cs(2) logger.prems(2)
    by (auto simp: end_safe_def leaves_def no_sockets_def owned_def split: option.split
        intro: exI [of _ "mset (owned srv)" for srv])
  then show ?case using cs(1) logger.hyps by auto
next
  case (round s' ds)
  obtain q t' v where s': "s' = (q, t', v)" by (cases s')
  note step = round.hyps(1) [unfolded s']
  note safe = end_step_safe [OF step round.prems(2) Z]
  from step show ?case
  proof cases
    case (owned b)
    have "ledger v = ledger w" "p_telnet q = None"
      by (rule program_step_ledger [OF owned(2)];
          use round.prems(2,3) in \<open>auto simp: end_safe_def safe_def\<close>)+
    then obtain cs where cs: "calls v = calls w @ cs" "no_sockets cs" using safe by (auto elim: ledger_grows)
    obtain ds where "calls u = calls v @ ds" "case t of
        None \<Rightarrow> no_sockets ds | Some srv \<Rightarrow> \<exists>left. leaves (owned srv) ds left \<and> m_listenSocket srv \<in># left"
      using round.hyps(3) [OF s' round.prems(1)] safe \<open>p_telnet q = None\<close> owned(1) by blast
    with cs show ?thesis
      by (intro exI [of _ "cs @ ds"]) (auto simp: leaves_quiet split: option.splits)
  next
    case (abandoned srv srv')
    then have "shipped_ok srv" "m_initialised srv" using round.prems(2) by (auto simp: end_safe_def)
    from shipped.abandoned_round_Inr [OF abandoned(5) this] E obtain cs where
      srv': "m_initialised srv'" "m_listenSocket srv' = m_listenSocket srv" and cs: "calls v = calls w @ cs"
      "mset (map m_socket (m_sessions srv)) + mset (opens cs) = mset (map m_socket (m_sessions srv')) + mset (closes cs)"
      by blast
    obtain ds left where ds: "calls u = calls v @ ds" "leaves (owned srv') ds left" "m_listenSocket srv' \<in># left"
      using round.hyps(3) [OF s' round.prems(1)] safe abandoned round.prems(3) by auto
    have "leaves (owned srv) (cs @ ds) left"
      by (rule leaves_append [OF _ ds(2)]) (use cs(2) srv' \<open>m_initialised srv\<close> in \<open>simp add: owned_def\<close>)
    with cs(1) ds srv'(2) show ?thesis by (intro exI [of _ "cs @ ds"]) (auto simp: abandoned)
  qed
next
  case (released d s' ds)
  obtain q t' v where s': "s' = (q, t', v)" by (cases s')
  have d: "d \<in> set (destructors PE)" "d (p, t, w) (Inr (q, t', v))" using released.hyps(1) released.prems(1) s' by simp_all
  from released_without_telnet [OF d released.prems(3)] obtain cs where
    cs: "t' = t" "p_telnet q = None" "calls v = calls w @ cs" "no_sockets cs" by blast
  have "end_safe input (q, t', v)"
    using destructor_safe [OF d released.prems(2)] by (simp add: released_to_def)
  then obtain es where "calls u = calls v @ es" "case t of
      None \<Rightarrow> no_sockets es | Some srv \<Rightarrow> \<exists>left. leaves (owned srv) es left \<and> m_listenSocket srv \<in># left"
    using released.hyps(3) [OF s'] released.prems(1) cs(1,2) by auto
  with cs show ?case
    by (intro exI [of _ "cs @ es"]) (auto simp: leaves_quiet split: option.splits)
next
  case (broken d ds)
  have "released_to input (p, t, w) (Inl (Returned c u))"
    using destructor_safe [where PE = PE and d = d] broken by simp
  then show ?case by (simp add: released_to_def broken_end_def)
qed

text \<open>
  With it: the descriptors left are those accepted while the server was destroyed, or a session kept
  the server, and the listening socket is left with the sessions.
\<close>

definition end_account :: "telnet_server \<Rightarrow> call list \<Rightarrow> sock multiset \<Rightarrow> bool" where
  "end_account srv cs left \<longleftrightarrow> leaves (owned srv) cs left \<and>
     (m_listenSocket srv \<in># left \<or> left \<subseteq># mset (opens cs)) \<and>
     (m_sessions srv = [] \<and> opens cs = [] \<longrightarrow> left = {#})"

lemma end_account_quiet: "no_sockets cs \<Longrightarrow> end_account srv (cs @ ds) left \<longleftrightarrow> end_account srv ds left"
  by (simp add: end_account_def leaves_quiet no_sockets_def)

lemma unwinds_with_telnet:
  assumes "unwinds PE pending code (destructors PE) (p, None, w) (Returned c u)"
    and "end_safe input (p, None, w)" and Z: "zmq_env_ok (pe_Z PE)" and E: "no_recv_error (pe_E PE)"
    and "p_telnet p = Some srv" and "m_initialised srv"
  shows "\<exists>cs left. calls u = calls w @ cs \<and> end_account srv cs left"
  using assms(1,2,5,6)
proof (induction "destructors PE" "(p, None :: telnet_server option, w)" "Returned c u"
    arbitrary: p w srv rule: unwinds.induct)
  case (logger p w)
  then show ?case by (simp add: destructors_def)
next
  case (round s' p w srv)
  from round.hyps(1) obtain q b v where s': "s' = (q, None, v)" and step: "program_step PE (p, w) b (q, v)"
    by (auto elim: end_stepE)
  note safe = end_step_safe [OF round.hyps(1) [unfolded s'] round.prems(1) Z]
  show ?case
  proof (rule program_step_ledger [OF step])
    show "zCallback z = Some ZeroMQServerMessageCallback" if "p_zmq p = Some z" for z
      using that round.prems(1) by (simp add: end_safe_def safe_def)
  next
    assume "ledger v = ledger w" "p_telnet q = p_telnet p"
    moreover from this(1) obtain cs where "calls v = calls w @ cs" "no_sockets cs"
      using safe by (auto elim: ledger_grows)
    moreover obtain ds left where "calls u = calls v @ ds" "end_account srv ds left"
      using round.hyps(3) [OF s' _ _ round.prems(3)] safe round.prems(2) calculation(2) by auto
    ultimately show ?thesis by (intro exI [of _ "cs @ ds" for cs ds] exI [of _ left]) (auto simp: end_account_quiet)
  next
    fix srv0 srv' v0
    assume telnet: "p_telnet p = Some srv0" "m_serverThread srv0" "server_update (pe_E PE) srv0 w = Inr (srv', v0)"
      "p_telnet q = Some srv'" "v = set_flag (m_checkFlag srv') v0"
    then have srv: "srv0 = srv" "shipped_ok srv" using round.prems(1,2) by (auto simp: end_safe_def safe_def)
    note upd = shipped.server_update_Inr [OF telnet(3) [unfolded srv(1)] srv(2) round.prems(3)]
    obtain cs1 where cs1: "calls v0 = calls w @ cs1"
      "mset (map m_socket (m_sessions srv)) + mset (opens cs1) = mset (map m_socket (m_sessions srv')) + mset (closes cs1)"
      using upd(7) E by blast
    obtain cs2 where cs2: "calls v = calls v0 @ cs2" "closes cs2 = []" "opens cs2 = []"
      using set_flag_calls telnet(5) by blast
    obtain ds left where ds: "calls u = calls v @ ds" "end_account srv' ds left"
      using round.hyps(3) [OF s' _ telnet(4) upd(2)] safe by auto
    have listen: "m_listenSocket srv' = m_listenSocket srv" using upd(6) by auto
    have "leaves (owned srv) (cs1 @ cs2 @ ds) left"
      by (rule leaves_append [of _ _ "owned srv'"])
        (use ds(2) cs1(2) cs2(2,3) upd(2) round.prems(3) listen in \<open>simp_all add: owned_def end_account_def leaves_def\<close>)
    moreover have "left \<subseteq># mset (opens (cs1 @ cs2 @ ds))" if "left \<subseteq># mset (opens ds)"
      using subset_mset.order_trans [OF that, of "mset (opens (cs1 @ cs2 @ ds))"] by simp
    moreover have "left = {#}" if "m_sessions srv = []" "opens (cs1 @ cs2 @ ds) = []"
      using cs1(2) ds(2) that by (simp add: end_account_def)
    ultimately have "end_account srv (cs1 @ cs2 @ ds) left"
      using ds(2) listen by (auto simp: end_account_def)
    with cs1(1) cs2(1) ds(1) show ?thesis by (intro exI [of _ "cs1 @ cs2 @ ds"] exI [of _ left]) simp
  qed
next
  case (released d s' ds p w srv)
  then have d: "release_telnet PE (p, None, w) (Inr s')" and rest: "unwinds PE pending code ds s' (Returned c u)"
    and ds: "set ds \<subseteq> set (destructors PE)"
    by (auto simp: destructors_def)
  obtain q t v where s': "s' = (q, t, v)" by (cases s')
  have "end_safe input (q, t, v)"
    using release_telnet_safe [OF d released.prems(1)] s' by (simp add: released_to_def)
  moreover have "p_telnet q = None" using d s' by (auto elim!: release_telnetE)
  ultimately obtain cs where cs: "calls u = calls v @ cs" "case t of None \<Rightarrow> no_sockets cs
    | Some srv \<Rightarrow> \<exists>left. leaves (owned srv) cs left \<and> m_listenSocket srv \<in># left"
    using unwinds_without_telnet [OF rest [unfolded s'] ds _ Z E] by blast
  from d [unfolded s'] released.prems(2) consider "t = Some srv" "v = w" "m_sessions srv \<noteq> []"
    | sched srv' where "t = None" "m_sessions srv = []"
      "run_moves (destructor_move (pe_E PE)) sched (CloseSessions, srv, w) = Inr (ShutdownReturned, srv', v)"
    by (auto elim!: release_telnetE)
  then show ?case
  proof cases
    case 1
    with cs show ?thesis by (auto simp: end_account_def)
  next
    case (2 sched srv')
    from destructor_run_closes [OF 2(3,2)] obtain es where es: "calls v = calls w @ es" "closes es = [m_listenSocket srv]"
      by auto
    have "end_account srv (es @ cs) (mset (opens es))"
      using cs(2) es(2) 2 released.prems(3) by (simp add: end_account_def leaves_def owned_def no_sockets_def)
    with cs(1) es(1) show ?thesis by (intro exI [of _ "es @ cs"]) auto
  qed
next
  case (broken d ds p w srv)
  have "released_to input (p, None, w) (Inl (Returned c u))"
    using destructor_safe [where PE = PE and d = d and s = "(p, None, w)"] broken by (metis list.set_intros(1))
  then show ?case by (simp add: released_to_def broken_end_def)
qed

end
