(* ===== verification/ProgramProperties.thy ===== *)
theory ProgramProperties
  imports ServiceProperties RawSocket ProgramLedger
begin

text \<open>
  The properties of the program as a whole, of its log sink and of its packet socket, each
  followed by a run it applies to. \<open>sample_program\<close> is the machine of those runs: a
  configuration with a Loki server that cannot be reached, and everything else in order.
\<close>

section \<open>A machine to run on\<close>

definition sample_http :: http_env where
  "sample_http = \<lparr>h_init = (\<lambda>_. True), h_perform = (\<lambda>_. (7, [], 0)), h_info = (\<lambda>_ _. None), h_xxx_max = 1023\<rparr>"

definition sample_log :: log_setup where
  "sample_log = \<lparr>ls_http = sample_http,
     ls_build = \<lparr>bi_name = ''p'', bi_revision = ''1'', bi_date = ''d'', bi_time = ''t'', bi_compiler = ''c'',
       bi_compiler_version = ''1'', bi_build = ''b''\<rparr>,
     ls_host = \<lparr>hi_hostname = ''h'', hi_cpuinfo = (\<lambda>_. None), hi_regex = (\<lambda>_ _. False)\<rparr>,
     ls_ifs = None, ls_ppid = 1, ls_time = (\<lambda>_. 0), ls_dup_filter = (\<lambda>_ m. [m])\<rparr>"

definition sample_program :: program_env where
  "sample_program = \<lparr>pe_E = sample_env (\<lambda>_. RecvAgain) 0, pe_Z = sample_zmq [], pe_log = sample_log,
     pe_json = \<lparr>j_parse = (\<lambda>_. JObject [(''LOKI_ADDRESS'', JString ''l'')]), j_write = (\<lambda>_. []), j_order = (\<lambda>_. [])\<rparr>,
     pe_files = (\<lambda>_. Some []), pe_curl_init = 0, pe_signal = (\<lambda>_. True), pe_errno = GnuAnswer [] [], pe_exe = None,
     pe_crash = (True, True, True), pe_exposer = (\<lambda>_. None)\<rparr>"

definition first_world :: world where
  "first_world = \<lparr>calls = [], vCheckFlag = []\<rparr>"

lemma sample_config:
  "config_get (ConfigParser (pe_json sample_program) (pe_files sample_program) path) ''LOKI_ADDRESS'' = ''l''"
  "config_get (ConfigParser (pe_json sample_program) (pe_files sample_program) path) ''SENTRY_ADDRESS'' = []"
  "isValid (ConfigParser (pe_json sample_program) (pe_files sample_program) path)"
  by (simp_all add: ConfigParser_def config_load_def readJson_def read_members_def value_text_def
      sample_program_def config_get_def c_str_def)

lemma sample_logger: "\<exists>ml w'. MainLogger sample_log E ''l'' [] w = (Inr ml, w')"
  by (simp add: MainLogger_def loki_api_sink_def HTTP_def sentry_api_sink_def sample_log_def sample_http_def Let_def
      split: prod.split)

lemma sample_boot:
  "\<exists>ml v. boot sample_program input (ConfigParser (pe_json sample_program) (pe_files sample_program) path) w =
     Go (no_program\<lparr>p_logger := Some ml\<rparr>) v"
proof -
  have rest: "pe_curl_init sample_program = 0" "pe_log sample_program = sample_log"
    by (simp_all add: sample_program_def)
  obtain ml w' where "MainLogger sample_log (pe_E sample_program) ''l'' [] (emit (Sys (CurlInit 0)) w) = (Inr ml, w')"
    using sample_logger by blast
  then have "boot sample_program input (ConfigParser (pe_json sample_program) (pe_files sample_program) path) w =
      Go (no_program\<lparr>p_logger := Some ml\<rparr>) w'"
    by (simp add: boot_def sample_config rest)
  then show ?thesis by blast
qed

lemma sample_signals: "\<exists>v. register_signals sample_program names p w = Go p v"
  by (induction names arbitrary: w) (simp_all add: sample_program_def)

lemma sample_tracer: "\<exists>tr v. start_tracer sample_program config p w = Go (p\<lparr>p_tracer := Some tr\<rparr>) v"
  by (simp add: start_tracer_def Tracer_def startHandler_def sample_program_def Let_def) blast

text \<open>A start with the telnet server alone, in which no thread runs.\<close>

lemma sample_startup:
  "\<exists>p v srv. startup sample_program [''p'', ''--enable-telnet'', ''23''] first_world [] (Go p v) 0 \<and>
     p_telnet p = Some srv \<and> m_initialised srv \<and> m_sessions srv = []"
proof -
  let ?argv = "[''p'', ''--enable-telnet'', ''23'']"
  let ?input = "InputParser ?argv" and ?config = "main_config sample_program ?argv"
  have input: "?input = [''--enable-telnet'', ''23'']" by (simp add: InputParser_def)
  obtain ml v1 where 1: "boot sample_program ?input ?config first_world = Go (no_program\<lparr>p_logger := Some ml\<rparr>) v1"
    using sample_boot by blast
  let ?p1 = "no_program\<lparr>p_logger := Some ml\<rparr>"
  obtain v2 where 2: "register_signals sample_program [''SIGINT'', ''SIGTERM'', ''SIGALRM''] ?p1
      (log_settings sample_program ?input ?config (set_verbosity ?input v1)) = Go ?p1 v2"
    using sample_signals by blast
  obtain tr v3 where 3: "start_tracer sample_program ?config ?p1 v2 = Go (?p1\<lparr>p_tracer := Some tr\<rparr>) v3"
    using sample_tracer by blast
  let ?p3 = "?p1\<lparr>p_tracer := Some tr\<rparr>"
  have 4: "start_prometheus sample_program ?input ?p3 v3 = Go ?p3 v3"
    unfolding input by (simp add: start_prometheus_def)
  have 5: "start_self_monitor ?p3 v3 = Go ?p3 (add_flag ''Self Monitor'' v3)"
    by (simp add: start_self_monitor_def no_program_def)
  have 6: "start_zmq sample_program ?input ?p3 v = Go ?p3 (add_flag ''ZeroMQ Server'' v)" for v
    unfolding input by (simp add: start_zmq_def Let_def)
  have "dec_of_nat 23 = ''23''" by code_simp
  then have port: "telnet_port ?input = Inr 23"
    using stoul_dec(1) [of 23 "[]"] unfolding input by (simp add: telnet_port_def)
  have 7: "\<exists>p v' srv. start_telnet sample_program ?input ?p3 v = Go p v' \<and> p_telnet p = Some srv \<and>
      m_initialised srv \<and> m_sessions srv = []" for v
    unfolding start_telnet_def port unfolding input
    by (simp add: server_initialise_def new_registry_def no_program_def new_server_def sample_program_def
        cmdOptionExists_def INVALID_SOCKET_def Let_def)
  obtain p v srv where p: "start_telnet sample_program ?input ?p3
      (add_flag ''ZeroMQ Server'' (add_flag ''Self Monitor'' v3)) = Go p v"
    "p_telnet p = Some srv \<and> m_initialised srv \<and> m_sessions srv = []"
    using 7 by blast
  have "foldl go (prologue sample_program ?input ?config first_world) (stages sample_program ?input ?config) = Go p v"
    by (simp only: prologue_def stages_def 1 2 3 4 5 6 p(1) go_simps foldl.simps)
  from startup_at_once [OF this] p(2) show ?thesis by blast
qed

text \<open>A run with an alarm between two rounds of the watchdog thread.\<close>

definition sample_moments :: "moment list" where
  "sample_moments = [Round (Beat ''Crashpad Handler''), Round AlarmBeat, Round (Beat ''Crashpad Handler'')]"

lemma sample_beats [simp]:
  "beats sample_moments = [Beat ''Crashpad Handler'', AlarmBeat, Beat ''Crashpad Handler'']" "Interrupt \<notin> set sample_moments"
  by (simp_all add: sample_moments_def)

lemma sample_run:
  assumes "p_tracer p = Some tr" and "tr_thread tr"
  shows "\<exists>w'. program_run PE (p, v) ([] @ [Beat ''Crashpad Handler''] @ [AlarmBeat] @ [Beat ''Crashpad Handler'']) (p, w')"
proof -
  have "\<exists>u. program_step PE (p, w) (Beat ''Crashpad Handler'') (p, u)" for w
    using program_step.crash [OF assms, of "undefined" w] by (auto simp: tracer_loop_zero)
  then show ?thesis
    unfolding append_assoc [symmetric] by (meson program_run.intros program_step.alarm)
qed

lemma sample_started:
  obtains p v srv where "startup sample_program [''p'', ''--enable-telnet'', ''23''] first_world sample_moments (Go p v) 0"
    and "vCheckFlag first_world = []" and "zmq_env_ok (pe_Z sample_program)"
    and "p_telnet p = Some srv" and "m_initialised srv" and "m_sessions srv = []"
proof -
  obtain p v srv where s: "startup sample_program [''p'', ''--enable-telnet'', ''23''] first_world [] (Go p v) 0"
    and telnet: "p_telnet p = Some srv" "m_initialised srv" "m_sessions srv = []"
    using sample_startup by blast
  obtain tr where "p_tracer p = Some tr" "tr_thread tr"
    using startup_parts(1) [OF s] by (auto simp: components_def)
  from sample_run [OF this] obtain w' where "program_run sample_program (p, v) (beats sample_moments) (p, w')"
    by auto
  from startup_extend [OF s this] telnet show thesis
    by (intro that) (simp_all add: first_world_def sample_program_def)
qed

section \<open>The flag table\<close>

text \<open>
  The abstract machine behind \<open>vCheckFlag\<close>: the set of the services heard of since the last
  alarm.
\<close>

definition heard :: "beat \<Rightarrow> string set \<Rightarrow> string set" where
  "heard b S = (case b of Beat name \<Rightarrow> insert name S | NoBeat \<Rightarrow> S | AlarmBeat \<Rightarrow> {})"

lemma heard_beaten: "name \<in> fold heard bs {} \<longleftrightarrow> beaten name bs"
proof (induction bs rule: rev_induct)
  case (snoc b bs)
  then show ?case by (cases b) (auto simp: heard_def)
qed simp

text \<open>
  C4. The flag table of a started program is the abstract machine: after any interleaving of the
  stages of the start, the rounds of the threads and the alarms it lists the four services in the
  order of their start, each with whether a round of it ended without an exception since the last
  alarm. No service writes the entry of another.
\<close>

theorem flags_tell_rounds:
  assumes "startup PE argv w ms (Go p v) flag" and "vCheckFlag w = []" and "zmq_env_ok (pe_Z PE)"
  shows "vCheckFlag v = map (\<lambda>name. (name, name \<in> fold heard (beats ms) {})) service_names"
  using startup_typed(2) [OF assms] by (simp add: table_def heard_beaten)

lemma flags_tell_rounds_witness:
  "\<exists>p v. startup sample_program [''p'', ''--enable-telnet'', ''23''] first_world sample_moments (Go p v) 0 \<and>
     vCheckFlag v = [(''Crashpad Handler'', True), (''Self Monitor'', False), (''ZeroMQ Server'', False),
       (''Telnet Server'', False)]"
proof (rule sample_started)
  fix p v
  assume s: "startup sample_program [''p'', ''--enable-telnet'', ''23''] first_world sample_moments (Go p v) 0"
    "vCheckFlag first_world = []" "zmq_env_ok (pe_Z sample_program)"
  from flags_tell_rounds [OF s] s(1) show ?thesis by (auto simp: service_names_def heard_def)
qed

section \<open>What is started\<close>







text \<open>
  A telnet server that cannot listen does not stop the program, unlike a request server that cannot
  bind: the start goes on with an object that has no thread, and in no later run does a round of the
  telnet server end, so its flag is never set.
\<close>

theorem telnet_failure_ignored:
  assumes "cmdOptionExists input ''--enable-telnet''" and "telnet_port input = Inr port"
    and "new_registry p = (reg, q)"
    and "server_initialise (pe_E PE) port (last_flag (add_flag ''Telnet Server'' w)) ''> '' reg []
      (new_server\<lparr>srv_cfg := shipped_cfg []\<rparr>) (add_flag ''Telnet Server'' w) = Inr (False, srv, v)"
  shows "start_telnet PE input p w = Go (q\<lparr>p_telnet := Some srv\<rparr>) v \<and>
    (\<forall>bs r. program_run PE (q\<lparr>p_telnet := Some srv\<rparr>, v) bs r \<longrightarrow> Beat ''Telnet Server'' \<notin> set bs)"
proof -
  have thread: "\<not> m_serverThread srv"
    using server_initialise_Inr(5) [OF assms(4)] by (simp add: new_server_def)
  have run: "p_telnet (fst r) = Some srv \<and> Beat ''Telnet Server'' \<notin> set bs"
    if "program_run PE (q\<lparr>p_telnet := Some srv\<rparr>, v) bs r" for bs r
    using that
  proof (induction "(q\<lparr>p_telnet := Some srv\<rparr>, v)" bs r rule: program_run.induct)
    case (step bs b beat c)
    from step(3) step(2) thread show ?case by cases auto
  qed simp
  show ?thesis using assms run unfolding start_telnet_def by (auto simp: Let_def)
qed

lemma telnet_failure_ignored_witness:
  "\<exists>p v. start_telnet (sample_program\<lparr>pe_E := bind_fails\<rparr>) [''--enable-telnet'', ''23''] no_program first_world = Go p v \<and>
     p_telnet p \<noteq> None \<and>
     (\<forall>bs r. program_run (sample_program\<lparr>pe_E := bind_fails\<rparr>) (p, v) bs r \<longrightarrow> Beat ''Telnet Server'' \<notin> set bs)"
proof -
  let ?PE = "sample_program\<lparr>pe_E := bind_fails\<rparr>" and ?w = "add_flag ''Telnet Server'' first_world"
  have "dec_of_nat 23 = ''23''" by code_simp
  then have port: "telnet_port [''--enable-telnet'', ''23''] = Inr 23"
    using stoul_dec(1) [of 23 "[]"] by (simp add: telnet_port_def)
  have reg: "new_registry no_program = (False, no_program)" by (simp add: new_registry_def no_program_def)
  have env: "e_setsockopt bind_fails cs s = 0" "e_bind bind_fails cs s = - 1" "e_socket bind_fails cs = 3"
    "e_getaddrinfo bind_fails cs q = 0" for cs s q
    by (simp_all add: bind_fails_def sample_env_def)
  have pe: "pe_E ?PE = bind_fails" by simp
  obtain srv v where "server_initialise (pe_E ?PE) 23 (last_flag ?w) ''> '' False []
      (new_server\<lparr>srv_cfg := shipped_cfg []\<rparr>) ?w = Inr (False, srv, v)"
    unfolding pe by (simp add: server_initialise_def new_server_def Let_def INVALID_SOCKET_def env)
  from telnet_failure_ignored [OF _ port reg this] show ?thesis
    by (simp add: cmdOptionExists_def)
qed

section \<open>The end\<close>

text \<open>
  After an interrupt \<open>main\<close> returns 0, whatever was logged meanwhile and whatever rounds fall between
  the destructors, unless the destructor of the request server throws or a round of the telnet
  server ends the process; without a request server it can return.
\<close>

theorem program_ends:
  assumes "startup PE argv w ms (Go p v) flag" and "zmq_env_ok (pe_Z PE)"
  shows "main_end PE pending (p, v) r \<Longrightarrow> broken_end (InputParser argv) r \<or> (\<exists>u. r = Returned 0 u \<and> grows v u)"
    and "p_zmq p = None \<Longrightarrow> \<exists>u. main_end PE pending (p, v) (Returned 0 u)"
proof -
  have safe: "safe (InputParser argv) p" using startup_logger [OF assms(1)] by (simp add: keeps_def)
  then have start: "end_safe (InputParser argv) (p, None, u)" for u by (simp add: end_safe_def)
  show "main_end PE pending (p, v) r \<Longrightarrow> broken_end (InputParser argv) r \<or> (\<exists>u. r = Returned 0 u \<and> grows v u)"
    using unwinds_result [OF _ subset_refl start assms(2), of pending 0 "emit (Sys CurlCleanup) v" r]
    by (auto simp: main_end_def unwind_def grows_def)
  show "p_zmq p = None \<Longrightarrow> \<exists>u. main_end PE pending (p, v) (Returned 0 u)"
    using unwind_returns [OF safe] by (simp add: main_end_def)
qed

lemma program_ends_witness:
  "\<exists>p v u. startup sample_program [''p'', ''--enable-telnet'', ''23''] first_world sample_moments (Go p v) 0 \<and>
     main_end sample_program [] (p, v) (Returned 0 u) \<and> grows v u"
proof (rule sample_started)
  fix p v
  assume s: "startup sample_program [''p'', ''--enable-telnet'', ''23''] first_world sample_moments (Go p v) 0"
    and z: "zmq_env_ok (pe_Z sample_program)"
  have "p_zmq p = None" using startup_parts(1) [OF s] by (simp add: InputParser_def components_def)
  with program_ends [OF s z] s show ?thesis by (fastforce simp: broken_end_def)
qed

text \<open>
  C15. \<open>main\<close> waits for an interrupt and for nothing else: whatever the threads do in the meantime, it leaves
  its loop at once if \<open>SIGINT\<close> or \<open>SIGTERM\<close> came during the start, and otherwise exactly at the end of
  the first sleep in which one comes; between them the threads make any run they could make.
\<close>

theorem main_waits_for_interrupt:
  assumes "startup PE argv w ms (Go p v) flag"
  shows "(\<exists>flag'. wait_loop PE ((p, v), flag) sleeps ((q, u), flag')) \<longleftrightarrow>
    program_run PE (p, v) (beats (concat sleeps)) (q, u) \<and>
    (if Interrupt \<in> set ms then sleeps = []
     else \<exists>naps final. sleeps = naps @ [final] \<and> Interrupt \<in> set final \<and> (\<forall>nap \<in> set naps. Interrupt \<notin> set nap))"
  using startup_flag [OF assms] by (auto simp: wait_loop_iff wakes_iff)

lemma main_waits_for_interrupt_witness:
  "\<exists>p v flag'. startup sample_program [''p'', ''--enable-telnet'', ''23''] first_world sample_moments (Go p v) 0 \<and>
     wait_loop sample_program ((p, v), 0) [[], [Interrupt]] ((p, v), flag')"
proof (rule sample_started)
  fix p v
  assume s: "startup sample_program [''p'', ''--enable-telnet'', ''23''] first_world sample_moments (Go p v) 0"
  have "\<exists>flag'. wait_loop sample_program ((p, v), 0) [[], [Interrupt]] ((p, v), flag')"
    unfolding main_waits_for_interrupt [OF s] by (auto intro!: exI [of _ "[[]]"])
  with s show ?thesis by blast
qed



text \<open>
  C13. The program leaks a descriptor only through a client that is connected at its end: if no receive
  fails and the telnet server, if there is one, could listen, then whatever rounds fall into the
  end, every descriptor opened since the start was closed exactly once but for some that are left.
  None is left without a telnet server, or if no session was open when the interrupt came and no
  client came later. Else they are clients accepted while the server was destroyed, or a
  session kept the server, and the listening socket is left.
\<close>

theorem program_ledger:
  assumes "startup PE argv w ms (Go p v) flag" and "clean_start PE w"
    and "\<And>srv. p_telnet p = Some srv \<Longrightarrow> m_initialised srv"
    and "main_end PE pending (p, v) (Returned code u)"
  shows "\<exists>left. mset (opens (calls u)) = mset (closes (calls u)) + left \<and>
    (case p_telnet p of
       None \<Rightarrow> left = {#}
     | Some srv \<Rightarrow>
         (let late = opens (drop (length (calls v)) (calls u))
          in (m_sessions srv = [] \<and> late = [] \<longrightarrow> left = {#}) \<and>
             (left \<subseteq># mset late \<or> m_listenSocket srv \<in># left)))"
proof -
  let ?v = "emit (Sys CurlCleanup) v"
  have safe: "end_safe (InputParser argv) (p, None, ?v)"
    using startup_logger [OF assms(1)] by (simp add: keeps_def end_safe_def)
  have env: "zmq_env_ok (pe_Z PE)" "no_recv_error (pe_E PE)" using assms(2) by (simp_all add: clean_start_def)
  have run: "unwinds PE pending 0 (destructors PE) (p, None, ?v) (Returned code u)"
    using assms(4) by (simp add: main_end_def unwind_def)
  have books: "program_balanced p v" using startup_balanced [OF assms(1,2)] .
  show ?thesis
  proof (cases "p_telnet p")
    case None
    obtain cs where "calls u = calls ?v @ cs" "no_sockets cs"
      using unwinds_without_telnet [OF run subset_refl safe env None] by auto
    with books None show ?thesis by (auto simp: program_balanced_def no_sockets_def)
  next
    case (Some srv)
    obtain cs left where cs: "calls u = calls ?v @ cs" "end_account srv cs left"
      using unwinds_with_telnet [OF run safe env Some] assms(3) [OF Some] by blast
    have "mset (opens (calls u)) = mset (closes (calls u)) + left"
      using books cs Some by (auto simp: program_balanced_def end_account_def leaves_def)
    with cs Some show ?thesis by (intro exI [of _ left]) (auto simp: end_account_def Let_def)
  qed
qed

lemma program_ledger_witness:
  "\<exists>p v srv u left. startup sample_program [''p'', ''--enable-telnet'', ''23''] first_world sample_moments (Go p v) 0 \<and>
     p_telnet p = Some srv \<and> main_end sample_program [] (p, v) (Returned 0 u) \<and>
     mset (opens (calls u)) = mset (closes (calls u)) + left \<and>
     (opens (drop (length (calls v)) (calls u)) = [] \<longrightarrow> left = {#})"
proof (rule sample_started)
  fix p v srv
  assume s: "startup sample_program [''p'', ''--enable-telnet'', ''23''] first_world sample_moments (Go p v) 0"
    and z: "zmq_env_ok (pe_Z sample_program)"
    and telnet: "p_telnet p = Some srv" "m_initialised srv" "m_sessions srv = []"
  have clean: "clean_start sample_program first_world"
    using z by (simp add: clean_start_def first_world_def sample_program_def no_recv_error_def)
  have "p_zmq p = None" using startup_parts(1) [OF s] by (simp add: InputParser_def components_def)
  then obtain u where u: "main_end sample_program [] (p, v) (Returned 0 u)"
    using program_ends(2) [OF s z] by blast
  from program_ledger [OF s clean _ u] telnet s u show ?thesis by (auto simp: Let_def)
qed

text \<open>
  C39. \<open>main\<close> cleans libcurl up before its locals die: when a Loki server is configured and a record is
  waiting to be sent, every end that returns has made an HTTP transfer after \<open>curl_global_cleanup\<close>, in
  the logger's destructor, and without a request server there is such an end.
\<close>

theorem curl_used_after_cleanup:
  assumes "startup PE argv w ms (Go p v) flag" and "zmq_env_ok (pe_Z PE)"
    and "config_get (main_config PE argv) ''LOKI_ADDRESS'' \<noteq> []" and "loki_wanted pending"
  shows "(\<forall>code u. main_end PE pending (p, v) (Returned code u) \<longrightarrow>
      (\<exists>cs r. calls u = calls v @ Sys CurlCleanup # cs \<and> Curl (CurlPerform r) \<in> set cs)) \<and>
    (p_zmq p = None \<longrightarrow> (\<exists>u. main_end PE pending (p, v) (Returned 0 u)))"
proof (intro conjI allI impI)
  have logger: "logger_ok True p" "safe (InputParser argv) p"
    using startup_logger [OF assms(1)] assms(3) by (simp_all add: keeps_def)
  fix code u
  assume "main_end PE pending (p, v) (Returned code u)"
  with unwinds_result [OF _ subset_refl _ assms(2), of pending 0 p None "emit (Sys CurlCleanup) v" "Returned code u"
      "InputParser argv"] logger assms(4)
  show "\<exists>cs r. calls u = calls v @ Sys CurlCleanup # cs \<and> Curl (CurlPerform r) \<in> set cs"
    by (auto simp: main_end_def unwind_def end_safe_def broken_end_def)
next
  assume "p_zmq p = None"
  then show "\<exists>u. main_end PE pending (p, v) (Returned 0 u)" by (rule program_ends(2) [OF assms(1,2)])
qed

lemma curl_used_after_cleanup_witness:
  "\<exists>p v u cs r. startup sample_program [''p'', ''--enable-telnet'', ''23''] first_world sample_moments (Go p v) 0 \<and>
     main_end sample_program [\<lparr>lm_level = err, lm_time = 0, lm_payload = ''m''\<rparr>] (p, v) (Returned 0 u) \<and>
     calls u = calls v @ Sys CurlCleanup # cs \<and> Curl (CurlPerform r) \<in> set cs"
proof (rule sample_started)
  fix p v
  assume s: "startup sample_program [''p'', ''--enable-telnet'', ''23''] first_world sample_moments (Go p v) 0"
    and z: "zmq_env_ok (pe_Z sample_program)"
  have "p_zmq p = None" using startup_parts(1) [OF s] by (simp add: InputParser_def components_def)
  moreover have "loki_wanted [\<lparr>lm_level = err, lm_time = 0, lm_payload = ''m''\<rparr>]" by (simp add: loki_wanted_def)
  ultimately show ?thesis
    using curl_used_after_cleanup [OF s z, of "[\<lparr>lm_level = err, lm_time = 0, lm_payload = ''m''\<rparr>]"] s
    by (fastforce simp: sample_config)
qed

section \<open>The Loki sink\<close>

text \<open>
  C11. The Loki sink refines a batching queue: whatever records come and flushes are asked for, each
  flush posts the records taken since the last one, once, in one request that lists them by level
  and in their order, and nothing is posted when there are none. A batch whose request fails is
  gone: what the server answers does not matter to what is sent next.
\<close>

theorem loki_refines_batches:
  assumes "loki_api_sink H bi hi addr w = (Inr s, v)" and "addr \<noteq> []"
  shows "\<exists>s' w'. fold (sink_step H) ops (Inr (s, v)) = Inr (s', w') \<and>
    posted (calls w') = posted (calls v) @
      map (loki_payload (basicInformation s)) (fst (fold batch_step ops ([], []))) \<and>
    loki_holds s' (snd (fold batch_step ops ([], [])))"
  using sink_steps_simulate [OF loki_api_sink_holds [OF assms], of v "posted (calls v)" "[]" H ops] by simp blast

lemma loki_refines_batches_witness:
  "\<exists>s v s' w'. loki_api_sink sample_http (ls_build sample_log) (ls_host sample_log) ''l'' first_world = (Inr s, v) \<and>
     fold (sink_step sample_http) [Take \<lparr>lm_level = warn, lm_time = 1, lm_payload = ''a''\<rparr>, Flush, Flush] (Inr (s, v)) =
       Inr (s', w') \<and>
     length (posted (calls w')) = Suc (length (posted (calls v)))"
proof -
  obtain s v where s: "loki_api_sink sample_http (ls_build sample_log) (ls_host sample_log) ''l'' first_world = (Inr s, v)"
    by (simp add: loki_api_sink_def HTTP_def sample_http_def Let_def)
  from loki_refines_batches [OF s, of "[Take \<lparr>lm_level = warn, lm_time = 1, lm_payload = ''a''\<rparr>, Flush, Flush]"] s
  show ?thesis by (fastforce simp: batch_step_def loki_wanted_def)
qed

section \<open>The packet socket\<close>

definition sample_raw :: raw_env where
  "sample_raw = \<lparr>r_ifindex = (\<lambda>_ _. 2), r_socket = (\<lambda>_ _ _ _. 5), r_bind = (\<lambda>_ _ _. 0), r_setsockopt = (\<lambda>_ _. 0),
     r_write = (\<lambda>_ _ data. int (length data)), r_read = (\<lambda>_ _ _. (0, [])), r_errno = (\<lambda>_. GnuAnswer [] []),
     r_clock = (\<lambda>_. 0)\<rparr>"



text \<open>
  A packet socket whose construction fails once the kernel has given a descriptor, in \<open>bind\<close> or in
  the choice of the interface, leaves that descriptor open: the destructor that would close it is
  never run.
\<close>

theorem raw_failed_construction_leaks:
  assumes "RawSocket R iface isWrite w = (Inl e, w')" and "r_ifindex R (calls w) (c_str iface) \<noteq> 0"
    and "fd = r_socket R (calls w @ [Sys (IfNameToIndex (c_str iface) (r_ifindex R (calls w) (c_str iface)))])
      AF_PACKET SOCK_RAW (if isWrite then IPPROTO_RAW else htons_ETH_P_ALL)"
    and "fd \<ge> 0"
  shows "\<exists>cs. calls w' = calls w @ cs \<and> opens cs = [fd] \<and> closes cs = []"
  using assms by (auto simp: RawSocket_def raw_init_def Let_def split: if_splits)

lemma raw_failed_construction_leaks_witness:
  "\<exists>e w'. RawSocket (sample_raw\<lparr>r_bind := (\<lambda>_ _ _. - 1)\<rparr>) ''eth0'' True first_world = (Inl e, w') \<and>
     opens (calls w') = [5] \<and> closes (calls w') = []"
proof -
  let ?R = "sample_raw\<lparr>r_bind := (\<lambda>_ _ _. - 1)\<rparr>"
  obtain e w' where r: "RawSocket ?R ''eth0'' True first_world = (Inl e, w')"
    by (simp add: RawSocket_def raw_init_def sample_raw_def Let_def c_str_def)
  from raw_failed_construction_leaks [OF r _ refl] r show ?thesis by (simp add: sample_raw_def first_world_def)
qed

end
