(* ===== verification/TelnetRounds.thy ===== *)
theory TelnetRounds
  imports TelnetLines
begin

text \<open>
  Sessions over several rounds: a session whose client says nothing is kept until its time is up
  and then closed once, and a client that never ends its line makes the buffer grow with every read.
\<close>

section \<open>Silent clients\<close>

text \<open>A receive on the socket finds nothing, or finds that the client closed its side.\<close>

definition silent :: "env \<Rightarrow> sock \<Rightarrow> bool" where
  "silent E s \<longleftrightarrow> (\<forall>cs. e_recv E cs s = RecvAgain \<or> e_recv E cs s = RecvClosed)"

text \<open>The clock does not pass the deadline of the session during the round.\<close>

definition steady :: "env \<Rightarrow> session \<Rightarrow> bool \<Rightarrow> bool" where
  "steady E s late \<longleftrightarrow> (\<forall>cs. timed_out (e_clock E cs) s = late)"

lemma silent_update:
  assumes "silent E (m_socket (sess x))"
  shows "\<exists>r. session_update E cfg x =
    Inr (on_wrld (emit (Recv (m_socket (sess x)) DEFAULT_BUFLEN r)) (on_sess reset_stats x))"
proof -
  have sock: "m_socket (reset_stats (sess x)) = m_socket (sess x)" by (simp add: reset_stats_def)
  from assms have "e_recv E (calls (wrld x)) (m_socket (sess x)) = RecvAgain \<or>
      e_recv E (calls (wrld x)) (m_socket (sess x)) = RecvClosed"
    by (simp add: silent_def)
  then show ?thesis by (auto simp: session_update_def Let_def sock)
qed

lemma timed_out_reset [simp]: "timed_out now (reset_stats s) = timed_out now s"
  by (simp add: timed_out_def reset_stats_def)

lemma silent_update_one:
  assumes "silent E (m_socket s)" and "steady E s late"
  shows "\<exists>t w' cs. update_one E cfg st s w = Inr (late, t, w') \<and> (\<not> late \<longrightarrow> t = reset_stats s) \<and>
    calls w' = calls w @ cs \<and> opens cs = [] \<and> closes cs = (if late then [m_socket s] else [])"
proof -
  have sock: "m_socket (reset_stats s) = m_socket s" by (simp add: reset_stats_def)
  obtain r where upd: "session_update E cfg \<lparr>sess = s, wrld = w\<rparr> =
      Inr \<lparr>sess = reset_stats s, wrld = emit (Recv (m_socket s) DEFAULT_BUFLEN r) w\<rparr>"
    using silent_update [of E "\<lparr>sess = s, wrld = w\<rparr>" cfg] assms(1) by (auto simp: on_wrld_def on_sess_def)
  let ?w = "emit (Recv (m_socket s) DEFAULT_BUFLEN r) w"
  let ?now = "e_clock E (calls ?w)"
  let ?z = "\<lparr>sess = reset_stats s, wrld = emit (Clock ?now) ?w\<rparr>"
  let ?u = "if late then closeClient E ?z else ?z"
  have time: "checkTimeout E \<lparr>sess = reset_stats s, wrld = ?w\<rparr> = (late, ?z)"
    using assms(2) by (simp add: checkTimeout_def read_clock_def Let_def steady_def)
  have one: "update_one E cfg st s w = Inr (late, sess ?u, report_session E st (sess ?u) late (wrld ?u))"
    by (simp add: update_one_def upd time Let_def)
  obtain ms where ms: "calls (report_session E st (sess ?u) late (wrld ?u)) = calls (wrld ?u) @ map Metric ms"
    using report_session_metrics [of "wrld ?u" E st "sess ?u" late] by (auto simp: metrics_only_def)
  show ?thesis
  proof (cases late)
    case True
    obtain a now where "calls (wrld (closeClient E ?z)) = calls (wrld ?z) @
        [Log info a, Shutdown (m_socket (sess ?z)), Close (m_socket (sess ?z)), Clock now]"
      by (rule closeClient_calls)
    then show ?thesis using one ms True sock by simp
  qed (use one ms in simp)
qed

lemma silent_each:
  assumes "\<forall>s \<in> set ss. silent E (m_socket s) \<and> steady E s (late s)"
  shows "\<exists>w' cs. update_each E cfg st ss w = Inr (map reset_stats (filter (\<lambda>s. \<not> late s) ss), w') \<and>
    calls w' = calls w @ cs \<and> opens cs = [] \<and> closes cs = map m_socket (filter late ss)"
  using assms
proof (induction ss arbitrary: w)
  case (Cons s ss)
  then obtain t u cs where one: "update_one E cfg st s w = Inr (late s, t, u)" "\<not> late s \<longrightarrow> t = reset_stats s"
    "calls u = calls w @ cs" "opens cs = []" "closes cs = (if late s then [m_socket s] else [])"
    using silent_update_one [of E s "late s" cfg st w] by auto
  obtain w' ds where rest:
    "update_each E cfg st ss u = Inr (map reset_stats (filter (\<lambda>s. \<not> late s) ss), w')"
    "calls w' = calls u @ ds" "opens ds = []" "closes ds = map m_socket (filter late ss)"
    using Cons.IH [of u] Cons.prems by auto
  then show ?case using one by (intro exI [of _ w'] exI [of _ "cs @ ds"]) simp
qed simp

text \<open>A round without a pending connection in which every client is silent.\<close>

lemma silent_server_update:
  assumes "listen_in_range srv" and "length (m_sessions srv) < 2 ^ 64"
    and "\<And>cs. e_select E cs (m_listenSocket srv) \<le> 0"
    and "\<forall>s \<in> set (m_sessions srv). silent E (m_socket s) \<and> steady E s (late s)"
  shows "\<exists>w' cs. server_update E srv w =
      Inr (srv\<lparr>m_sessions := map reset_stats (filter (\<lambda>s. \<not> late s) (m_sessions srv))\<rparr>, w') \<and>
    calls w' = calls w @ cs \<and> opens cs = [] \<and> closes cs = map m_socket (filter late (m_sessions srv))"
proof -
  let ?w = "emit (Select (m_listenSocket srv) (e_select E (calls (snd (read_clock E w))) (m_listenSocket srv)))
      (snd (read_clock E w))"
  have start: "round_start E srv w = (False, False, srv, ?w)"
    using assms(3) [of "calls (snd (read_clock E w))"] by (simp add: round_start_def Let_def)
  obtain v ds where pass: "update_each E (srv_cfg srv) (m_stats srv) (m_sessions srv) ?w =
      Inr (map reset_stats (filter (\<lambda>s. \<not> late s) (m_sessions srv)), v)"
    and ds: "calls v = calls ?w @ ds" "opens ds = []" "closes ds = map m_socket (filter late (m_sessions srv))"
    using silent_each [OF assms(4)] by blast
  let ?srv = "srv\<lparr>m_sessions := map reset_stats (filter (\<lambda>s. \<not> late s) (m_sessions srv))\<rparr>"
  have pass': "update_sessions E (srv_cfg srv) (m_stats srv) 0 (m_sessions srv) ?w =
      Inr (map reset_stats (filter (\<lambda>s. \<not> late s) (m_sessions srv)), v)"
    using pass by (subst update_sessions_each) (use assms(2) in auto)
  obtain t where upd: "server_update E srv w = Inr (?srv, sessions_stats E ?srv False False t v)"
    using assms(1) pass' by (auto simp: server_update_eq start)
  obtain now ms where "calls (sessions_stats E ?srv False False t v) = calls v @ Clock now # map Metric ms"
    using sessions_stats_metrics(2) by metis
  then show ?thesis using upd ds by (auto simp: read_clock_def Let_def)
qed

section \<open>A client that connects\<close>

text \<open>\<open>initialise\<close> of a session ends with the reading of the clock.\<close>

lemma session_initialise_seen:
  "\<exists>cs. lastSeenTime (sess (session_initialise E cfg x)) = e_clock E cs"
  by (auto simp: session_initialise_def touch_def read_clock_def Let_def)

text \<open>
  A round of a server without sessions in which a client connects and stays silent, while the
  clock moves by two minutes at most: the client's session is the only one afterwards.
\<close>

lemma round_admits_client:
  assumes "server_ok TelnetConnectedCallback TelnetMessageCallback TelnetTabCallback srv"
    and "listen_in_range srv" and "m_sessions srv = []"
    and "\<And>cs. e_select E cs (m_listenSocket srv) > 0" and "\<And>cs. e_accept E cs (m_listenSocket srv) = fd"
    and "fd \<noteq> - 1" and "silent E fd" and "\<And>cs ds. \<bar>seconds (e_clock E cs - e_clock E ds)\<bar> \<le> TELNET_TIMEOUT"
  shows "\<exists>s w' cs. server_update E srv w = Inr (srv\<lparr>m_sessions := [s]\<rparr>, w') \<and> m_socket s = fd \<and>
    calls w' = calls w @ cs \<and> closes cs = []"
proof -
  obtain p where cfg: "srv_cfg srv = make_cfg p TelnetConnectedCallback TelnetMessageCallback TelnetTabCallback"
    using assms(1) by (auto simp: server_ok_def)
  define w1 where "w1 = emit (Accept (m_listenSocket srv) fd)
      (emit (Select (m_listenSocket srv) (e_select E (calls (snd (read_clock E w))) (m_listenSocket srv)))
        (snd (read_clock E w)))"
  let ?x = "\<lparr>sess = new_session fd, wrld = w1\<rparr>"
  define y where "y = session_initialise E (srv_cfg srv) ?x"
  have "accounted ?x y"
    unfolding y_def cfg by (rule shipped.session_initialise_frame) simp
  then obtain cs where y: "m_socket (sess y) = fd" "calls (wrld y) = calls w1 @ cs" "closes cs = []"
    by (auto simp: accounted_def)
  have "round_start E srv w = (True, False, srv\<lparr>m_sessions := [sess y]\<rparr>, wrld y)"
    using assms(3-6) by (simp add: round_start_def acceptConnection_def INVALID_SOCKET_def
        MAX_AVAILABLE_SESSION_def Let_def w1_def y_def)
  moreover obtain v ds where pass: "update_each E (srv_cfg srv) (m_stats srv) [sess y] (wrld y) =
      Inr ([reset_stats (sess y)], v)" and v: "calls v = calls (wrld y) @ ds" "closes ds = []"
  proof -
    obtain us where "lastSeenTime (sess y) = e_clock E us"
      using session_initialise_seen unfolding y_def by blast
    then have "steady E (sess y) False"
      using assms(8) by (simp add: steady_def timed_out_def not_less)
    then show thesis
      using silent_each [of "[sess y]" E "\<lambda>_. False" "srv_cfg srv" "m_stats srv" "wrld y"] assms(7) y(1) that
      by auto
  qed
  then have "update_sessions E (srv_cfg srv) (m_stats srv) 0 [sess y] (wrld y) =
      Inr ([reset_stats (sess y)], v)"
    by (subst update_sessions_each) auto
  ultimately obtain t where upd: "server_update E srv w = Inr (srv\<lparr>m_sessions := [reset_stats (sess y)]\<rparr>,
      sessions_stats E (srv\<lparr>m_sessions := [reset_stats (sess y)]\<rparr>) True False t v)"
    using assms(2) by (auto simp: server_update_eq)
  obtain now ms where "calls (sessions_stats E (srv\<lparr>m_sessions := [reset_stats (sess y)]\<rparr>) True False t v) =
      calls v @ Clock now # map Metric ms"
    using sessions_stats_metrics(2) by metis
  moreover have "m_socket (reset_stats (sess y)) = fd" using y(1) by (simp add: reset_stats_def)
  moreover have "\<exists>es. calls w1 = calls w @ es \<and> closes es = []"
    by (simp add: w1_def read_clock_def Let_def)
  ultimately show ?thesis using upd y v by auto
qed

section \<open>Input without a line end\<close>

lemma plain_line_append [simp]: "plain_line (a @ b) \<longleftrightarrow> plain_line a \<and> plain_line b"
  by (auto simp: plain_line_def)

lemma plain_line_Nil [simp]: "plain_line []"
  by (simp add: plain_line_def)

lemma plain_read:
  assumes recv: "e_recv E (calls (wrld x)) (m_socket (sess x)) = RecvData d" and "d \<noteq> []"
    and plain: "plain_line d" "plain_line (m_buffer (sess x))"
    and len: "length (m_buffer (sess x)) + length d < 2 ^ 62"
  shows "\<exists>y. session_update E cfg x = Inr y \<and> m_buffer (sess y) = m_buffer (sess x) @ d \<and>
    m_socket (sess y) = m_socket (sess x)"
proof -
  let ?x = "on_wrld (emit (Recv (m_socket (sess x)) DEFAULT_BUFLEN (int (length d)))) (on_sess reset_stats x)"
  let ?b = "m_buffer (sess x) @ d"
  have "plain_line ?b" using plain by simp
  from plain_lineD [OF this] have p: "ASCII_NBSP \<notin> set ?b" "CHR 0x1B \<notin> set ?b"
    "BS_DEL \<notin> set ?b" "BS_BS \<notin> set ?b" "TAB \<notin> set ?b" "\<not> sublist CRLF ?b" by simp_all
  have "ASCII_NULL \<notin> set d" using plain_lineD(1) [OF plain(1)] by simp
  moreover have "fits ?b" using len by (simp add: fits_def)
  ultimately have buf: "m_buffer (sess (receive_start E d ?x)) = ?b"
    using p(1) by (simp add: receive_start_simps(1) received_buffer_def replace_nulls_id
        stripNVT_eq_nvt_filter nvt_filter_id reset_stats_def del: set_append Un_iff)
  have edit: "edit_buffer E cfg (receive_start E d ?x) = Inr (False, receive_start E d ?x)"
    by (rule edit_buffer_untouched; unfold buf; rule p)
  have "getCompleteLines ?b = ([], ?b)"
    using getCompleteLines_unlines [of "[]" ?b] p(6) by simp
  then have "receive E cfg d ?x = Inr (set_buffer ?b (receive_start E d ?x))"
    by (simp add: receive_eq edit buf)
  moreover have "session_update E cfg x = receive E cfg d ?x"
    using recv assms(2) by (simp add: session_update_def Let_def reset_stats_def)
  moreover have "m_socket (sess (receive_start E d ?x)) = m_socket (sess x)"
    using receive_start_simps(3) [of ?x E d] by (auto simp: accounted_def reset_stats_def)
  ultimately show ?thesis by simp
qed

text \<open>The updates of one session in successive rounds, while it does not expire.\<close>

fun session_updates :: "env \<Rightarrow> telnet_cfg \<Rightarrow> nat \<Rightarrow> ctx \<Rightarrow> fault + ctx" where
  "session_updates E cfg 0 x = Inr x"
| "session_updates E cfg (Suc n) x = bind_sum (session_update E cfg x) (session_updates E cfg n)"

lemma plain_reads:
  assumes "\<And>cs. e_recv E cs (m_socket (sess x)) = RecvData d" and "d \<noteq> []" and "plain_line d"
    and "plain_line (m_buffer (sess x))" and "length (m_buffer (sess x)) + n * length d < 2 ^ 62"
  shows "\<exists>y. session_updates E cfg n x = Inr y \<and>
    m_buffer (sess y) = m_buffer (sess x) @ concat (replicate n d)"
  using assms
proof (induction n arbitrary: x)
  case (Suc n)
  then obtain y where y: "session_update E cfg x = Inr y" "m_buffer (sess y) = m_buffer (sess x) @ d"
    "m_socket (sess y) = m_socket (sess x)"
    using plain_read [of E x d cfg] by auto
  with Suc.IH [of y] Suc.prems show ?case by auto
qed simp

end
