(* ===== verification/TelnetStream.thy ===== *)
theory TelnetStream
  imports TelnetRounds
begin

text \<open>
  A session as the reader of a byte stream: the commands it runs are the lines of what the client
  sent, in order and once each, however TCP cut the stream into reads.
\<close>

section \<open>The lines handed to the callback\<close>

text \<open>
  \<open>TelnetMessageCallback\<close> logs every line at level trace before anything else, and nothing else
  a session does logs at that level: the trace lists the lines it was called with.
\<close>

definition traced :: "call \<Rightarrow> string list" where
  "traced c = (case c of Log trace m \<Rightarrow> [m] | _ \<Rightarrow> [])"

definition messages :: "call list \<Rightarrow> string list" where
  "messages cs = concat (map traced cs)"

lemma messages_simps [simp]:
  "messages [] = []" "messages (cs @ ds) = messages cs @ messages ds"
  "messages (c # cs) = traced c @ messages cs"
  by (simp_all add: messages_def)

lemma traced_simps [simp]:
  "traced (Log trace m) = [m]" "traced (Log info m) = []" "traced (Send s b n) = []" "traced (Recv s k n) = []"
  "traced (Clock t) = []" "traced (SetLevel l) = []"
  by (simp_all add: traced_def)

abbreviation said :: "ctx \<Rightarrow> string list" where
  "said x \<equiv> messages (calls (wrld x))"

lemma said_send [simp]: "said (send_counted E d x) = said x"
  by (simp add: send_counted_def sock_send_def add_upload_def Let_def)

lemma said_output [simp]:
  "said (sendPromptAndBuffer E p x) = said x" "said (eraseLine E x) = said x" "said (echoBack E d x) = said x"
  by (simp_all add: sendPromptAndBuffer_def eraseLine_def echoBack_def Let_def)

lemma said_sendLine [simp]: "said (sendLine E p d x) = said x"
  by (simp add: sendLine_def Let_def)

lemma said_touch [simp]: "said (touch E x) = said x" "said (set_level l x) = said x" "said (markTimeout x) = said x"
  by (simp_all add: touch_def read_clock_def set_level_def markTimeout_def Let_def)

lemma said_fold: "(\<And>e x. said (f e x) = said x) \<Longrightarrow> said (fold f es x) = said x"
  by (induction es arbitrary: x) simp_all

lemma said_commands [simp]: "said (TelnetPrintAvailableCommands E p x) = said x"
  unfolding TelnetPrintAvailableCommands_def Let_def
  by (subst said_fold) (auto split: prod.split)

lemma said_message:
  "said (snd (TelnetMessageCallback E p line x)) = said x @ [''Received message '' @ line]"
proof -
  let ?y = "sendLine E p line (on_wrld (emit (Log trace (''Received message '' @ line))) x)"
  have "said (fold (\<lambda>entry. sendLine E p (status_line entry)) (vCheckFlag (wrld ?y)) ?y) = said ?y"
    by (rule said_fold) simp
  then have "said (snd (TelnetMessageCallback E p line x)) = said ?y"
    unfolding TelnetMessageCallback_def Let_def if_distrib [of snd] snd_conv
      if_distrib [of "\<lambda>x. messages (calls (wrld x))"] by simp
  then show ?thesis by simp
qed

section \<open>What lines do to the history\<close>

definition same_history :: "session \<Rightarrow> session \<Rightarrow> bool" where
  "same_history s t \<longleftrightarrow> m_history t = m_history s"

lemma same_history_add: "same_history s t \<Longrightarrow> same_history (addToHistory l s) (addToHistory l t)"
  by (simp add: same_history_def addToHistory_def Let_def)

lemma same_history_fold: "same_history s t \<Longrightarrow> same_history (fold addToHistory ls s) (fold addToHistory ls t)"
  by (induction ls arbitrary: s t) (simp_all add: same_history_add)

lemma process_lines_run:
  "same_history (fold addToHistory ls (sess x)) (sess (process_lines E (shipped_cfg p) ls x)) \<and>
   said (process_lines E (shipped_cfg p) ls x) = said x @ map (\<lambda>l. ''Received message '' @ l) ls"
proof (induction ls arbitrary: x)
  case Nil
  then show ?case by (simp add: same_history_def)
next
  case (Cons l ls)
  obtain ok y where cb: "TelnetMessageCallback E p l x = (ok, y)" by fastforce
  let ?y = "on_sess (addToHistory l) (on_sess (count_command ok) y)"
  have "same_session (sess x) (sess y)"
    using frame_message [of x E p l] by (simp add: cb session_frame_def)
  then have "same_history (sess x) (count_command ok (sess y))"
    by (simp add: same_history_def same_session_def count_command_def)
  from same_history_add [OF this] have "same_history (addToHistory l (sess x)) (sess ?y)" by simp
  then have "same_history (fold addToHistory ls (addToHistory l (sess x))) (fold addToHistory ls (sess ?y))"
    by (rule same_history_fold)
  moreover have "said ?y = said x @ [''Received message '' @ l]"
    using said_message [of E p l x] by (simp add: cb)
  ultimately show ?case using Cons.IH [of ?y] by (simp add: shipped_cfg_def cb same_history_def)
qed

section \<open>One read\<close>

text \<open>Text with line ends and nulls, but no key that edits the line and no negotiation.\<close>

definition typed :: "string \<Rightarrow> bool" where
  "typed d \<longleftrightarrow> (\<forall>c \<in> set d. c \<notin> {CHR 0x1B, CHR 0xFF, CHR 0x7F, CHR 0x08, CHR 0x09})"

lemma typed_simps [simp]:
  "typed []" "typed (a @ b) \<longleftrightarrow> typed a \<and> typed b" "typed (replace_nulls d) \<longleftrightarrow> typed d"
  "typed (concat ds) \<longleftrightarrow> (\<forall>d \<in> set ds. typed d)"
  by (auto simp: typed_def replace_nulls_def ASCII_LF_def ASCII_NULL_def)

lemma replace_nulls_append: "replace_nulls (a @ b) = replace_nulls a @ replace_nulls b"
  by (simp add: replace_nulls_def)

lemma length_replace_nulls [simp]: "length (replace_nulls b) = length b"
  by (simp add: replace_nulls_def)

lemma typed_lines:
  assumes "getCompleteLines b = (ls, r)" and "typed b"
  shows "typed r" and "length r \<le> length b"
proof -
  have "b = unlines_crlf ls @ r" using getCompleteLines_decompose [OF assms(1)] by blast
  with assms(2) show "typed r" and "length r \<le> length b" by auto
qed

text \<open>The session after one such read: its lines have been processed, the rest is in the buffer.\<close>

definition lines_read :: "env \<Rightarrow> string \<Rightarrow> string \<Rightarrow> string list \<times> string \<Rightarrow> ctx \<Rightarrow> ctx" where
  "lines_read E p d lr x =
     process_lines E (shipped_cfg p) (fst lr) (set_buffer (snd lr) (receive_start E d
       (on_wrld (emit (Recv (m_socket (sess x)) DEFAULT_BUFLEN (int (length d)))) (on_sess reset_stats x))))"

lemma typed_update:
  assumes recv: "e_recv E (calls (wrld x)) (m_socket (sess x)) = RecvData d" and "d \<noteq> []"
    and typed: "typed d" "typed (m_buffer (sess x))" and len: "length (m_buffer (sess x)) + length d < 2 ^ 62"
  shows "session_update E (shipped_cfg p) x =
    Inr (lines_read E p d (getCompleteLines (m_buffer (sess x) @ replace_nulls d)) x)"
proof -
  let ?x = "on_wrld (emit (Recv (m_socket (sess x)) DEFAULT_BUFLEN (int (length d)))) (on_sess reset_stats x)"
  let ?b = "m_buffer (sess x) @ replace_nulls d"
  have "typed ?b" using typed by simp
  then have p: "ASCII_NBSP \<notin> set ?b" "CHR 0x1B \<notin> set ?b" "BS_DEL \<notin> set ?b" "BS_BS \<notin> set ?b" "TAB \<notin> set ?b"
    unfolding typed_def ASCII_NBSP_def BS_DEL_def BS_BS_def TAB_def by blast+
  have "fits ?b" using len by (simp add: fits_def replace_nulls_def)
  then have buf: "m_buffer (sess (receive_start E d ?x)) = ?b"
    using p(1) by (simp add: receive_start_simps(1) received_buffer_def stripNVT_eq_nvt_filter nvt_filter_id
        reset_stats_def del: set_append Un_iff)
  have edit: "edit_buffer E (shipped_cfg p) (receive_start E d ?x) = Inr (False, receive_start E d ?x)"
    by (rule edit_buffer_untouched; unfold buf; rule p)
  have "receive E (shipped_cfg p) d ?x = Inr (lines_read E p d (getCompleteLines ?b) x)"
    by (simp add: receive_eq edit buf lines_read_def case_prod_beta)
  then show ?thesis
    using recv assms(2) by (simp add: session_update_def Let_def reset_stats_def)
qed

lemma lines_read_run:
  assumes "y = lines_read E p d (ls, r) x"
  shows "m_buffer (sess y) = r" and "same_history (fold addToHistory ls (sess x)) (sess y)"
    and "said y = said x @ map (\<lambda>l. ''Received message '' @ l) ls"
    and "m_socket (sess y) = m_socket (sess x)"
proof -
  let ?x = "on_wrld (emit (Recv (m_socket (sess x)) DEFAULT_BUFLEN (int (length d)))) (on_sess reset_stats x)"
  let ?z = "set_buffer r (receive_start E d ?x)"
  have y: "y = process_lines E (shipped_cfg p) ls ?z" using assms by (simp add: lines_read_def)
  show "m_buffer (sess y) = r"
    unfolding y shipped_cfg_def by (simp add: shipped.process_lines_buffer)
  have hist: "same_history (sess x) (sess ?z)"
    by (simp add: same_history_def receive_start_simps reset_stats_def)
  show "same_history (fold addToHistory ls (sess x)) (sess y)"
    using process_lines_run [of ls ?z E p] same_history_fold [OF hist, of ls] unfolding y
    by (simp add: same_history_def)
  have "said ?z = said x" by (simp add: receive_start_def Let_def)
  then show "said y = said x @ map (\<lambda>l. ''Received message '' @ l) ls"
    using process_lines_run [of ls ?z E p] unfolding y by simp
  have "accounted ?z y" unfolding y shipped_cfg_def by (rule shipped.process_lines_accounted)
  then have "m_socket (sess y) = m_socket (sess (receive_start E d ?x))" by (simp add: accounted_def)
  then show "m_socket (sess y) = m_socket (sess x)"
    using receive_start_simps(3) [of ?x E d] by (simp add: accounted_def reset_stats_def)
qed

section \<open>A stream of reads\<close>

text \<open>\<open>feeds E cfg x ds y\<close>: successive updates take \<open>x\<close> to \<open>y\<close> and receive the pieces \<open>ds\<close>.\<close>

inductive feeds :: "env \<Rightarrow> telnet_cfg \<Rightarrow> ctx \<Rightarrow> string list \<Rightarrow> ctx \<Rightarrow> bool" for E cfg where
  quiet: "feeds E cfg x [] x"
| read: "e_recv E (calls (wrld x)) (m_socket (sess x)) = RecvData d \<Longrightarrow> d \<noteq> [] \<Longrightarrow>
    session_update E cfg x = Inr y \<Longrightarrow> feeds E cfg y ds z \<Longrightarrow> feeds E cfg x (d # ds) z"

lemma feeds_snoc:
  assumes "feeds E cfg x ds z" and "e_recv E (calls (wrld z)) (m_socket (sess z)) = RecvData d" and "d \<noteq> []"
    and "session_update E cfg z = Inr y"
  shows "feeds E cfg x (ds @ [d]) y"
  using assms by (induction rule: feeds.induct) (auto intro: feeds.intros)

lemma feeds_lines:
  assumes "feeds E cfg x ds z" and "cfg = shipped_cfg p" and "typed (m_buffer (sess x))" and "\<forall>d \<in> set ds. typed d"
    and "length (m_buffer (sess x)) + length (concat ds) < 2 ^ 62"
    and "getCompleteLines (m_buffer (sess x)) = ([], m_buffer (sess x))"
  shows "\<exists>ls. getCompleteLines (m_buffer (sess x) @ replace_nulls (concat ds)) = (ls, m_buffer (sess z)) \<and>
    said z = said x @ map (\<lambda>l. ''Received message '' @ l) ls \<and>
    same_history (fold addToHistory ls (sess x)) (sess z)"
  using assms
proof (induction rule: feeds.induct)
  case (quiet x)
  then show ?case by (simp add: replace_nulls_def same_history_def)
next
  case (read x d y ds z)
  obtain ls r where lines: "getCompleteLines (m_buffer (sess x) @ replace_nulls d) = (ls, r)" by fastforce
  have "session_update E (shipped_cfg p) x = Inr (lines_read E p d (ls, r) x)"
    using typed_update [OF read.hyps(1,2), of p] read.prems lines by simp
  then have "y = lines_read E p d (ls, r) x" using read.hyps(3) read.prems(1) by simp
  note y = lines_read_run [OF this]
  have r: "typed r" "length r \<le> length (m_buffer (sess x) @ replace_nulls d)"
    using typed_lines [OF lines] read.prems(2,3) by auto
  have "\<not> sublist CRLF r" using getCompleteLines_decompose [OF lines] by blast
  then have "getCompleteLines r = ([], r)" using getCompleteLines_unlines [of "[]" r] by simp
  moreover have "length r + length (concat ds) < 2 ^ 62"
    using r(2) read.prems(4) by (simp add: replace_nulls_def)
  ultimately obtain ms where rest: "getCompleteLines (r @ replace_nulls (concat ds)) = (ms, m_buffer (sess z))"
    "said z = said y @ map (\<lambda>l. ''Received message '' @ l) ms" "same_history (fold addToHistory ms (sess y)) (sess z)"
    using read.IH [OF read.prems(1)] r(1) read.prems(3) y(1) by auto
  have "getCompleteLines (m_buffer (sess x) @ replace_nulls (concat (d # ds))) = (ls @ ms, m_buffer (sess z))"
    using getCompleteLines_append [OF lines rest(1)] by (simp add: replace_nulls_append)
  moreover have "same_history (fold addToHistory (ls @ ms) (sess x)) (sess z)"
    using same_history_fold [OF y(2), of ms] rest(3) by (simp add: same_history_def)
  ultimately show ?case using y(3) rest(2) by auto
qed

end
