(* ===== verification/TelnetSafety.thy ===== *)
theory TelnetSafety
  imports TelnetProperties TelnetShutdown TelnetStream
begin

text \<open>
  The properties of the telnet server over several rounds and while it is shut down, each
  followed by a run it applies to.
\<close>

section \<open>The byte stream of a client\<close>



section \<open>Shutdown while the thread runs\<close>

lemma returned_run: "\<not> m_serverThread srv \<Longrightarrow>
  shutdown_run E ms (ShutdownReturned, srv, w) = Inr (ShutdownReturned, srv, w)"
proof (induction ms)
  case (Cons m ms)
  then show ?case by (cases m) (simp_all add: worker_round_def)
qed simp

text \<open>
  If every round the thread makes ends before \<open>shutdown\<close> starts, the six statements of
  \<open>shutdown\<close> have the effect of one step after those rounds, and nothing that is scheduled
  after its return changes anything: the thread is gone.
\<close>

theorem shutdown_serial:
  assumes "m_serverThread srv"
  shows "shutdown_run E (replicate n Worker @ replicate 6 Owner @ later) (CloseSessions, srv, w) =
    bind_sum (server_rounds E n srv w) (\<lambda>(srv, w). case server_shutdown E srv w of
      (srv, w) \<Rightarrow> Inr (ShutdownReturned, srv, w))"
proof -
  have "shutdown_run E (replicate 6 Owner @ later) (CloseSessions, srv, w) =
      (case server_shutdown E srv w of (srv, w) \<Rightarrow> Inr (ShutdownReturned, srv, w))" for srv w
  proof -
    obtain srv' w' where s: "server_shutdown E srv w = (srv', w')" by (cases "server_shutdown E srv w")
    then have "\<not> m_serverThread srv'" by (auto simp: server_shutdown_def Let_def)
    then show ?thesis
      by (simp add: run_moves_append [of "shutdown_move E" "replicate 6 Owner" later] shutdown_statements s returned_run
          del: replicate.simps)
  qed
  then show ?thesis
    by (simp add: run_moves_append [of "shutdown_move E" "replicate n Worker"] rounds_run [OF assms] bind_sum_def
        case_prod_beta split: sum.split del: replicate.simps)
qed

lemma shutdown_serial_witness:
  "shutdown_run (sample_env (\<lambda>_. RecvAgain) 0) (replicate 2 Worker @ replicate 6 Owner @ [Worker])
      (CloseSessions, full_server, fresh_world) =
    bind_sum (server_rounds (sample_env (\<lambda>_. RecvAgain) 0) 2 full_server fresh_world)
      (\<lambda>(srv, w). case server_shutdown (sample_env (\<lambda>_. RecvAgain) 0) srv w of
        (srv, w) \<Rightarrow> Inr (ShutdownReturned, srv, w))"
  by (rule shutdown_serial) (simp add: full_server_def)

lemma full_server_ok:
  "server_ok TelnetConnectedCallback TelnetMessageCallback TelnetTabCallback full_server"
  "m_initialised full_server" "listen_in_range full_server" "m_serverThread full_server"
  by (simp_all add: full_server_def server_ok_def shipped_server_def new_server_def shipped_cfg_def
      INVALID_SOCKET_def MAX_AVAILABLE_SESSION_def listen_in_range_def FD_SETSIZE_def)

lemma shutdown_faults_late:
  assumes "server_ok TelnetConnectedCallback TelnetMessageCallback TelnetTabCallback srv"
    and "m_initialised srv" and "listen_in_range srv" and "0 < rounds_at sched 4 + rounds_at sched 5"
  shows "\<exists>e. shutdown_run E sched (CloseSessions, srv, w) = Inl e"
  using assms(4) shipped.late_run_faults [OF shutdown_ok_start [OF assms(1-3)], of 4 sched E w]
    shipped.late_run_faults [OF shutdown_ok_start [OF assms(1-3)], of 5 sched E w]
  by auto

text \<open>
  C7. \<open>shutdown\<close> stops the thread last, and that is unsafe. Whatever the clients send, a round that falls
  between the statement that forgets the listening socket and the one that joins the thread
  makes the run fail: it hands -1 to \<open>FD_SET\<close>, unless an earlier round failed already. When the
  clients are quiet, such a round is the only way to fail.
\<close>

theorem shutdown_faults_iff:
  assumes "server_ok TelnetConnectedCallback TelnetMessageCallback TelnetTabCallback srv"
    and "m_initialised srv" and "listen_in_range srv"
  shows "(0 < rounds_at sched 4 + rounds_at sched 5 \<longrightarrow>
      (\<exists>e. shutdown_run E sched (CloseSessions, srv, w) = Inl e)) \<and>
    ((\<forall>cs s. e_recv E cs s = RecvAgain) \<longrightarrow>
      (\<exists>e. shutdown_run E sched (CloseSessions, srv, w) = Inl e) = (0 < rounds_at sched 4 + rounds_at sched 5))"
proof -
  have "\<exists>c. shutdown_run E sched (CloseSessions, srv, w) = Inr c"
    if "\<forall>cs s. e_recv E cs s = RecvAgain" "\<not> 0 < rounds_at sched 4 + rounds_at sched 5"
    using that by (intro shipped.quiet_run [OF shutdown_ok_start [OF assms]]) auto
  with shutdown_faults_late [OF assms, of sched E w] show ?thesis by fastforce
qed

lemma shutdown_faults_iff_witness:
  "\<exists>e. shutdown_run (sample_env (\<lambda>_. RecvAgain) 0) [Owner, Worker, Owner, Owner, Owner, Worker]
      (CloseSessions, full_server, fresh_world) = Inl e"
  using shutdown_faults_iff [OF full_server_ok(1-3), of "[Owner, Worker, Owner, Owner, Owner, Worker]"
      "sample_env (\<lambda>_. RecvAgain) 0" fresh_world]
  by (simp add: eval_nat_numeral rounds_at.simps)

text \<open>
  C6. The descriptors after an interleaved \<open>shutdown\<close>. Take any schedule whose run completes and that makes no
  round while the vector holds closed sessions. The server is then uninitialised, without
  socket and thread, and every descriptor was closed once, except those of the sessions it
  still holds; it holds none if no round came after the vector was cleared.
\<close>

theorem shutdown_ledger:
  assumes "server_ok TelnetConnectedCallback TelnetMessageCallback TelnetTabCallback srv"
    and "m_initialised srv" and "listen_in_range srv" and "balanced srv w" and "no_recv_error E"
    and "rounds_at sched 1 = 0"
    and "shutdown_run E sched (CloseSessions, srv, w) = Inr (ShutdownReturned, srv', w')"
  shows "\<not> m_initialised srv' \<and> \<not> m_serverThread srv' \<and> m_listenSocket srv' = INVALID_SOCKET \<and>
    mset (opens (calls w')) = mset (closes (calls w')) + mset (map m_socket (m_sessions srv')) \<and>
    (rounds_at sched 2 + rounds_at sched 3 = 0 \<longrightarrow> m_sessions srv' = [])"
proof -
  note ok = shutdown_ok_start [OF assms(1-3), of w]
  have "shutdown_balanced (CloseSessions, srv, w)"
    using assms(2,4) by (simp add: shutdown_balanced_def balanced_def owned_def)
  then have bal: "shutdown_balanced (ShutdownReturned, srv', w')"
    using shipped.shutdown_run_balanced [OF ok assms(5) _ _ assms(7)] assms(6) by simp
  have final: "shutdown_ok TelnetConnectedCallback TelnetMessageCallback TelnetTabCallback (ShutdownReturned, srv', w')"
    using shipped.shutdown_run_ok [OF ok assms(7)] by blast
  have "m_sessions srv' = []" if "rounds_at sched 2 + rounds_at sched 3 = 0"
  proof (rule shipped.no_session_left [OF ok _ _ assms(7)])
    fix k :: nat assume "2 \<le> k" "k < 6"
    then have "k \<in> {2, 3, 4, 5}" by auto
    moreover have "rounds_at sched 4 + rounds_at sched 5 = 0"
      using shutdown_faults_late [OF assms(1-3), of sched E w] assms(7) by (metis neq0_conv sum.distinct(1))
    ultimately show "rounds_at sched (k - pc_index CloseSessions) = 0" using that by auto
  qed simp_all
  with bal final show ?thesis by (simp add: shutdown_balanced_def shutdown_ok.simps)
qed

lemma running_server:
  obtains srv w where
    "server_initialise (sample_env r t) 23 None ''> '' False [] shipped_server fresh_world = Inr (True, srv, w)"
    "server_ok TelnetConnectedCallback TelnetMessageCallback TelnetTabCallback srv" "m_initialised srv"
    "listen_in_range srv" "m_sessions srv = []" "m_serverThread srv"
    "no_recv_error (sample_env r t) \<Longrightarrow> balanced srv w"
proof -
  obtain srv w where i: "server_initialise (sample_env r t) 23 None ''> '' False [] shipped_server fresh_world =
      Inr (True, srv, w)" using sample_initialise by blast
  then have "m_listenSocket srv = 3"
    by (auto simp: server_initialise_def shipped_server_def new_server_def Let_def INVALID_SOCKET_def)
  moreover have "server_ok TelnetConnectedCallback TelnetMessageCallback TelnetTabCallback shipped_server"
    "balanced shipped_server fresh_world"
    by (simp_all add: server_ok_def shipped_server_def new_server_def shipped_cfg_def balanced_def owned_def)
  moreover note shipped.server_step_ok [OF server_step.initialise [OF i]] server_initialise_Inr(3,4) [OF i]
  ultimately show thesis
    by (intro that [OF i]) (auto simp: listen_in_range_def FD_SETSIZE_def shipped_server_def new_server_def)
qed

lemma shutdown_ledger_witness:
  "\<exists>srv srv' w w'. server_initialise (sample_env (\<lambda>_. RecvAgain) 0) 23 None ''> '' False [] shipped_server fresh_world =
      Inr (True, srv, w) \<and>
    shutdown_run (sample_env (\<lambda>_. RecvAgain) 0) (Worker # replicate 6 Owner) (CloseSessions, srv, w) =
      Inr (ShutdownReturned, srv', w') \<and> m_sessions srv' = [] \<and> mset (opens (calls w')) = mset (closes (calls w'))"
proof -
  let ?E = "sample_env (\<lambda>_. RecvAgain) 0" and ?s = "Worker # replicate 6 Owner"
  have E: "no_recv_error ?E" by (simp add: no_recv_error_def)
  obtain srv w where srv: "server_initialise ?E 23 None ''> '' False [] shipped_server fresh_world = Inr (True, srv, w)"
    "server_ok TelnetConnectedCallback TelnetMessageCallback TelnetTabCallback srv" "m_initialised srv"
    "listen_in_range srv" "balanced srv w"
    using running_server [of "\<lambda>_. RecvAgain" 0] E by metis
  note ok = shutdown_ok_start [OF srv(2-4), of w]
  have rounds: "rounds_at ?s k = (if k = 0 then 1 else 0)" for k
    by (simp add: eval_nat_numeral rounds_at.simps split: nat.split)
  have "\<exists>c. shutdown_run ?E ?s (CloseSessions, srv, w) = Inr c"
    by (rule shipped.quiet_run [OF ok]) (unfold rounds, auto)
  then obtain c where c: "shutdown_run ?E ?s (CloseSessions, srv, w) = Inr c" ..
  obtain pc srv' w' where cc: "c = (pc, srv', w')" by (cases c)
  have "pc_index pc = 6" using shipped.shutdown_run_ok [OF ok c] cc by (simp add: eval_nat_numeral)
  then have "c = (ShutdownReturned, srv', w')" using cc by (cases pc) simp_all
  with shutdown_ledger [OF srv(2-5) E _ c [unfolded this]] rounds srv(1) c show ?thesis by auto
qed

text \<open>
  A client the thread accepts while \<open>shutdown\<close> is between its second and third statement is stranded.
  \<open>shutdown\<close> returns having closed the sessions it found and the listening socket; the server
  that is left is uninitialised and without thread, and it still holds the new client's session,
  whose descriptor was not closed.
\<close>

theorem shutdown_strands_client:
  assumes "server_ok TelnetConnectedCallback TelnetMessageCallback TelnetTabCallback srv"
    and "m_initialised srv" and "listen_in_range srv"
    and "\<And>cs. e_select E cs (m_listenSocket srv) > 0" and "\<And>cs. e_accept E cs (m_listenSocket srv) = fd"
    and "fd \<noteq> - 1" and "silent E fd" and "\<And>cs ds. \<bar>seconds (e_clock E cs - e_clock E ds)\<bar> \<le> TELNET_TIMEOUT"
  shows "\<exists>srv' w' s cs. shutdown_run E ([Owner, Owner, Worker] @ replicate 4 Owner) (CloseSessions, srv, w) =
      Inr (ShutdownReturned, srv', w') \<and> \<not> m_initialised srv' \<and> \<not> m_serverThread srv' \<and>
    m_sessions srv' = [s] \<and> m_socket s = fd \<and>
    calls w' = calls w @ cs \<and> closes cs = map m_socket (m_sessions srv) @ [m_listenSocket srv]"
proof -
  let ?srv = "srv\<lparr>m_sessions := []\<rparr>"
  have cleared: "server_ok TelnetConnectedCallback TelnetMessageCallback TelnetTabCallback ?srv" "listen_in_range ?srv"
    using assms(1-3) by (simp_all add: server_ok_def listen_in_range_def)
  have "\<exists>s w1 bs. server_update E ?srv (close_sessions E (m_sessions srv) w) = Inr (?srv\<lparr>m_sessions := [s]\<rparr>, w1) \<and>
      m_socket s = fd \<and> calls w1 = calls (close_sessions E (m_sessions srv) w) @ bs \<and> closes bs = []"
    by (rule round_admits_client [OF cleared]) (use assms(4-8) in simp_all)
  then obtain s w1 bs where upd:
    "server_update E ?srv (close_sessions E (m_sessions srv) w) = Inr (srv\<lparr>m_sessions := [s]\<rparr>, w1)"
    and s: "m_socket s = fd" "calls w1 = calls (close_sessions E (m_sessions srv) w) @ bs" "closes bs = []"
    by auto
  obtain as where as: "calls (close_sessions E (m_sessions srv) w) = calls w @ as"
    "closes as = map m_socket (m_sessions srv)" using close_sessions_calls by blast
  obtain cs where cs: "calls (set_flag (m_checkFlag srv) w1) = calls w1 @ cs" "closes cs = []"
    using set_flag_calls by blast
  have "m_serverThread srv" using assms(1,2) by (simp add: server_ok_def)
  then have "shutdown_run E ([Owner, Owner, Worker] @ replicate 4 Owner) (CloseSessions, srv, w) =
      Inr (ShutdownReturned, srv\<lparr>m_sessions := [s], m_listenSocket := INVALID_SOCKET, m_initialised := False,
        m_serverThread := False\<rparr>, emits [Close (m_listenSocket srv), Join] (set_flag (m_checkFlag srv) w1))"
    using upd by (simp add: eval_nat_numeral case_prod_beta worker_round_def emit_emits)
  then show ?thesis using s as cs by auto
qed

lemma shutdown_strands_client_witness:
  "\<exists>srv' w' s. shutdown_run (sample_env (\<lambda>_. RecvAgain) 0) ([Owner, Owner, Worker] @ replicate 4 Owner)
      (CloseSessions, full_server, fresh_world) = Inr (ShutdownReturned, srv', w') \<and> m_sessions srv' = [s] \<and>
    m_socket s = 9 \<and> closes (calls w') = [4, 5, 6, 7, 8, 3]"
  using shutdown_strands_client [OF full_server_ok(1-3), of "sample_env (\<lambda>_. RecvAgain) 0" 9 fresh_world]
  by (auto simp: silent_def seconds_def trunc_div_def TELNET_TIMEOUT_def full_server_def)



section \<open>Silent clients\<close>

text \<open>
  C8. A round without a new connection in which no client sends anything, nor fails. Exactly the sessions
  whose last activity lies more than two minutes back are closed, each once and in order, and
  dropped; the others are kept with their buffer and history, their counters set to zero. A
  client that has closed its side is silent too, and keeps its place until then.
\<close>

theorem silent_round:
  assumes "listen_in_range srv" and "length (m_sessions srv) \<le> 5"
    and "\<And>cs. e_select E cs (m_listenSocket srv) \<le> 0"
    and "\<forall>s \<in> set (m_sessions srv). silent E (m_socket s) \<and> steady E s (late s)"
  shows "\<exists>w' cs. server_update E srv w =
      Inr (srv\<lparr>m_sessions := map reset_stats (filter (\<lambda>s. \<not> late s) (m_sessions srv))\<rparr>, w') \<and>
    calls w' = calls w @ cs \<and> opens cs = [] \<and> closes cs = map m_socket (filter late (m_sessions srv))"
  using assms by (intro silent_server_update) auto

lemma silent_round_witness:
  "\<exists>w' cs. server_update ((sample_env (\<lambda>_. RecvClosed) 200000000000)\<lparr>e_select := \<lambda>_ _. 0\<rparr>)
      (full_server\<lparr>m_sessions := [new_session 4, (new_session 5)\<lparr>lastSeenTime := 150000000000\<rparr>]\<rparr>) fresh_world =
    Inr (full_server\<lparr>m_sessions := [reset_stats ((new_session 5)\<lparr>lastSeenTime := 150000000000\<rparr>)]\<rparr>, w') \<and>
    calls w' = cs \<and> closes cs = [4]"
proof -
  let ?E = "(sample_env (\<lambda>_. RecvClosed) 200000000000)\<lparr>e_select := \<lambda>_ _. 0\<rparr>"
  let ?srv = "full_server\<lparr>m_sessions := [new_session 4, (new_session 5)\<lparr>lastSeenTime := 150000000000\<rparr>]\<rparr>"
  let ?late = "\<lambda>s. lastSeenTime s = 0"
  have "listen_in_range ?srv" "length (m_sessions ?srv) \<le> 5" "\<And>cs. e_select ?E cs (m_listenSocket ?srv) \<le> 0"
    "\<forall>s \<in> set (m_sessions ?srv). silent ?E (m_socket s) \<and> steady ?E s (?late s)"
    using full_server_ok(3)
    by (simp_all add: listen_in_range_def silent_def steady_def timed_out_def new_session_def seconds_def
        trunc_div_def TELNET_TIMEOUT_def)
  from silent_round [OF this, where w = fresh_world] show ?thesis
    by (simp add: new_session_def) blast
qed



section \<open>Input without a line end\<close>

text \<open>
  C38. Nothing bounds the buffer of a session. A client that keeps sending ordinary characters and never a
  line end makes it grow by every byte it sends: after \<open>n\<close> reads of the same data it holds \<open>n\<close>
  copies of it, up to the size of a string.
\<close>

theorem line_buffer_unbounded:
  assumes "\<And>cs. e_recv E cs (m_socket (sess x)) = RecvData d" and "d \<noteq> []" and "plain_line d"
    and "m_buffer (sess x) = []" and "n * length d < 2 ^ 62"
  shows "\<exists>y. session_updates E cfg n x = Inr y \<and> m_buffer (sess y) = concat (replicate n d)"
  using plain_reads [of E x d n cfg] assms by simp

lemma line_buffer_unbounded_witness:
  "\<exists>y. session_updates (sample_env (\<lambda>_. RecvData ''abc'') 0) (shipped_cfg ''> '') 2
      \<lparr>sess = new_session 5, wrld = fresh_world\<rparr> = Inr y \<and> m_buffer (sess y) = ''abcabc''"
proof -
  have "concat (replicate 2 ''abc'') = ''abcabc''" by (simp add: numeral_2_eq_2)
  then show ?thesis
    using line_buffer_unbounded [of "sample_env (\<lambda>_. RecvData ''abc'') 0"
        "\<lparr>sess = new_session 5, wrld = fresh_world\<rparr>" "''abc''" 2 "shipped_cfg ''> ''"]
    by (simp add: plain_line_def new_session_def del: session_updates.simps)
qed

end
