(* ===== verification/LoggingProperties.thy ===== *)
theory LoggingProperties
  imports LoggingSpec TelnetProperties
begin

text \<open>
  Properties of the HTTP client and of the two log sinks behind it, each followed by an input it
  applies to.
\<close>

section \<open>Requests\<close>

text \<open>
  The reference for a request: set the options, make the transfer, return what it delivered. The
  data an earlier transfer left in the object does not occur in it.
\<close>

definition transfer ::
    "http_env \<Rightarrow> curl_call list \<Rightarrow> http \<Rightarrow> world \<Rightarrow> (int \<times> string \<times> int) \<times> http \<times> world" where
  "transfer H options h w =
     (let w = emits (map Curl options) w;
          (retval, blocks, code) = h_perform H (calls w);
          ok = (retval = CURLE_OK)
      in ((retval, concat blocks, if ok then code else h_xxx_max H), h\<lparr>h_data := concat blocks\<rparr>,
          emits (map Curl (CurlPerform retval # (if ok then [CurlInfo ''RESPONSE_CODE''] else []))) w))"

definition body_options :: "string \<Rightarrow> curl_call list" where
  "body_options payload =
     [CurlPostFields payload, CurlLong ''POSTFIELDSIZE_LARGE'' (int (length payload))]"

definition url_options :: "string \<Rightarrow> string \<Rightarrow> curl_call list" where
  "url_options url method = [CurlUrl (c_str url), CurlWriteData, CurlLong method 1]"

lemma setCommonFields_options:
  "setCommonFields url method h w = (h\<lparr>h_data := []\<rparr>, emits (map Curl (url_options url method)) w)"
  "setCommonFieldsPayload url method payload h w =
     (h\<lparr>h_data := []\<rparr>, emits (map Curl (body_options payload @ url_options url method)) w)"
  by (simp_all add: setCommonFields_def setCommonFieldsPayload_def url_options_def body_options_def curl_def
      emit_emits Let_def)

lemma performRequest_transfer:
  assumes "blocks_ok H"
  shows "performRequest H (h\<lparr>h_data := []\<rparr>) (emits (map Curl options) w) = transfer H options h w"
  using performRequest_result [OF assms, of "h\<lparr>h_data := []\<rparr>" "emits (map Curl options) w"]
  by (cases "h_perform H (calls (emits (map Curl options) w))") (simp add: transfer_def Let_def)

text \<open>
  A request returns what its own transfer delivered: whatever earlier requests left in the object,
  the data returned are the blocks of this transfer, in order, the status is the one libcurl reports,
  or \<open>xxx_max\<close> when the transfer failed, and the URL is the host address followed by the index.
\<close>

theorem requests_are_transfers:
  assumes "blocks_ok H"
  shows "sendGETRequest H index h w = transfer H (url_options (h_hostAddr h @ index) ''HTTPGET'') h w \<and>
    sendHEADRequest H index h w = transfer H (url_options (h_hostAddr h @ index) ''NOBODY'') h w \<and>
    sendPOSTRequest H index payload h w =
      transfer H (body_options payload @ url_options (h_hostAddr h @ index) ''POST'') h w \<and>
    sendPUTRequest H index payload h w =
      transfer H (body_options payload @ url_options (h_hostAddr h @ index) ''UPLOAD'') h w"
  unfolding sendGETRequest_def sendHEADRequest_def sendPOSTRequest_def sendPUTRequest_def
    setCommonFields_options Let_def prod.case performRequest_transfer [OF assms]
  by (intro conjI refl)

text \<open>A server that answers every request with two blocks.\<close>

definition two_blocks :: http_env where
  "two_blocks = \<lparr>h_init = (\<lambda>_. True), h_perform = (\<lambda>_. (0, [''he'', ''llo''], 200)), h_info = (\<lambda>_ _. None),
     h_xxx_max = 1023\<rparr>"

lemma requests_are_transfers_witness:
  "fst (sendGETRequest two_blocks ''/i'' \<lparr>h_data = ''old'', h_hostAddr = ''h''\<rparr> fresh_world) = (0, ''hello'', 200)"
proof -
  have "blocks_ok two_blocks" by (simp add: blocks_ok_def two_blocks_def)
  from requests_are_transfers [OF this, of "''/i''" "\<lparr>h_data = ''old'', h_hostAddr = ''h''\<rparr>" fresh_world "[]"]
  show ?thesis by (simp add: transfer_def two_blocks_def CURLE_OK_def Let_def)
qed

section \<open>The records of the logger\<close>

definition alert_level :: "log_level \<Rightarrow> string option" where
  "alert_level l = (case l of warn \<Rightarrow> Some ''warning'' | err \<Rightarrow> Some ''error'' | critical \<Rightarrow> Some ''fatal'' | _ \<Rightarrow> None)"

definition alerts :: "log_msg list \<Rightarrow> sink_call list" where
  "alerts msgs = concat (map (\<lambda>m. case alert_level (lm_level m) of
     None \<Rightarrow> [] | Some level \<Rightarrow> [SentryEvent level (c_str (lm_payload m))]) msgs)"

lemma sentry_sink_alerts: "sentry_sink_it True m w = emits (map Sink (alerts [m])) w"
  by (simp add: sentry_sink_it_def alerts_def alert_level_def sink_call_def split: log_level.split)

lemma to_sinks_alerts:
  "ml_sentry ml \<Longrightarrow> fold to_sinks msgs (ml, w) =
     (ml\<lparr>ml_loki := fold loki_sink_it msgs (ml_loki ml)\<rparr>, emits (map Sink (alerts msgs)) w)"
proof (induction msgs arbitrary: ml w)
  case Nil
  then show ?case by (simp add: alerts_def)
next
  case (Cons m msgs)
  have "alerts (m # msgs) = alerts [m] @ alerts msgs" by (simp add: alerts_def)
  with Cons show ?case by (simp add: to_sinks_def sentry_sink_alerts emits_emits)
qed

text \<open>
  C18. No record is lost between spdlog and the sinks, and none is doubled: of the records it hands on, the Loki
  sink keeps all those of the levels debug to critical for its next flush, in order and by level, and
  Sentry receives one event for each warning, error and critical record, in order, and no other.
\<close>

theorem records_reach_sinks:
  assumes "loki_holds (ml_loki ml) waiting" and "ml_sentry ml"
  shows "case fold to_sinks msgs (ml, w) of (ml', w') \<Rightarrow>
    loki_holds (ml_loki ml') (waiting @ msgs) \<and> w' = emits (map Sink (alerts msgs)) w"
  using loki_fold(1) [OF assms(1), of msgs] by (simp add: to_sinks_alerts assms(2))

definition empty_loki :: loki_sink where
  "empty_loki = \<lparr>lokiAvailable = True, connHandler = Some \<lparr>h_data = [], h_hostAddr = ''l''\<rparr>, basicInformation = [],
     internalLogBuffer = map (\<lambda>(l, name). (name, [])) loki_levels\<rparr>"

lemma empty_loki_holds: "loki_holds empty_loki []"
  by (simp add: empty_loki_def loki_holds_def)

lemma records_reach_sinks_witness:
  "snd (fold to_sinks [\<lparr>lm_level = info, lm_time = 1, lm_payload = ''a''\<rparr>, \<lparr>lm_level = err, lm_time = 2, lm_payload = ''b''\<rparr>]
      (\<lparr>ml_name = ''n'', ml_loki = empty_loki, ml_sentry = True\<rparr>, fresh_world)) =
    emits [Sink (SentryEvent ''error'' ''b'')] fresh_world"
  using records_reach_sinks [of "\<lparr>ml_name = ''n'', ml_loki = empty_loki, ml_sentry = True\<rparr>" "[]"
      "[\<lparr>lm_level = info, lm_time = 1, lm_payload = ''a''\<rparr>, \<lparr>lm_level = err, lm_time = 2, lm_payload = ''b''\<rparr>]" fresh_world]
  by (auto simp: empty_loki_holds alerts_def alert_level_def c_str_def)

text \<open>The text that closes one record of a Loki request and opens the next.\<close>

definition next_record :: "nanos \<Rightarrow> string" where
  "next_record time = QUOTE @ ''],['' @ QUOTE @ dec_of_int time @ QUOTE @ '','' @ QUOTE"

text \<open>
  C37. A log line can forge others. Its text goes into the JSON of the Loki request unescaped, so for the last
  two records of a level there is one record in whose place the flush is the same, request and all:
  the server cannot tell a line that holds the text between two records from two lines.
\<close>

theorem record_forges_two:
  assumes "loki_holds s (old @ [\<lparr>lm_level = l, lm_time = t, lm_payload = a\<rparr>, \<lparr>lm_level = l, lm_time = u, lm_payload = b\<rparr>])"
    and "loki_holds s' (old @ [\<lparr>lm_level = l, lm_time = t, lm_payload = a @ next_record u @ b\<rparr>])"
    and "connHandler s' = connHandler s" and "basicInformation s' = basicInformation s"
  shows "loki_flush H s' w = loki_flush H s w"
proof -
  let ?m = "\<lparr>lm_level = l, lm_time = t, lm_payload = a\<rparr>" and ?n = "\<lparr>lm_level = l, lm_time = u, lm_payload = b\<rparr>"
  let ?f = "\<lparr>lm_level = l, lm_time = t, lm_payload = a @ next_record u @ b\<rparr>"
  have join: "join_with '','' (xs @ [x, y]) = join_with '','' (xs @ [x @ '','' @ y])" for xs :: "string list" and x y
    by (induction xs) (simp_all add: join_with_Cons)
  have vals: "join_with '','' (map value_entry (of_level k (old @ [?m, ?n]))) =
      join_with '','' (map value_entry (of_level k (old @ [?f])))" for k
    by (simp add: join) (simp add: value_entry_def next_record_def)
  have entry: "stream_entry labels (name, of_level k (old @ [?m, ?n])) =
      stream_entry labels (name, of_level k (old @ [?f]))" for labels name k
    using vals by (simp add: stream_entry_def del: of_level_simps)
  have empty: "of_level k (old @ [?m, ?n]) = [] \<longleftrightarrow> of_level k (old @ [?f]) = []" for k
    by simp
  have payload: "loki_payload labels (old @ [?m, ?n]) = loki_payload labels (old @ [?f])" for labels
    unfolding loki_payload_def entry empty ..
  have wanted: "loki_wanted (old @ [?m, ?n]) = loki_wanted (old @ [?f])"
    by (auto simp: loki_wanted_def)
  have "s'\<lparr>internalLogBuffer := []\<rparr> = s\<lparr>internalLogBuffer := []\<rparr>"
    using assms by (cases s; cases s') (simp add: loki_holds_def)
  then have same: "s'\<lparr>internalLogBuffer := buf\<rparr> = s\<lparr>internalLogBuffer := buf\<rparr>" for buf
    by (cases s; cases s') simp
  show ?thesis
    unfolding loki_flush_holds [OF assms(1)] loki_flush_holds [OF assms(2)] assms(3,4) payload wanted same ..
qed

lemma record_forges_two_witness:
  "loki_flush two_blocks (loki_sink_it \<lparr>lm_level = warn, lm_time = 1, lm_payload = ''a'' @ next_record 2 @ ''b''\<rparr> empty_loki)
      fresh_world =
    loki_flush two_blocks (loki_sink_it \<lparr>lm_level = warn, lm_time = 2, lm_payload = ''b''\<rparr>
      (loki_sink_it \<lparr>lm_level = warn, lm_time = 1, lm_payload = ''a''\<rparr> empty_loki)) fresh_world"
proof (rule record_forges_two [where old = "[]" and l = warn and t = 1 and u = 2 and a = "''a''" and b = "''b''"])
  show "loki_holds (loki_sink_it \<lparr>lm_level = warn, lm_time = 2, lm_payload = ''b''\<rparr>
      (loki_sink_it \<lparr>lm_level = warn, lm_time = 1, lm_payload = ''a''\<rparr> empty_loki))
      ([] @ [\<lparr>lm_level = warn, lm_time = 1, lm_payload = ''a''\<rparr>, \<lparr>lm_level = warn, lm_time = 2, lm_payload = ''b''\<rparr>])"
    using loki_holds_sink_it [OF loki_holds_sink_it [OF empty_loki_holds]] by fastforce
qed (use loki_holds_sink_it [OF empty_loki_holds] in \<open>simp_all add: loki_sink_it_rest\<close>)

end
