(* ===== verification/Spec2Isabelle.thy ===== *)
theory Spec2Isabelle
  imports ProgramProperties TelnetSafety LoggingProperties
begin

text \<open>
  Repo-Init is a C++ service template: \<open>src/main.cpp\<close> reads a command line and a JSON
  configuration, starts a crash handler with its watchdog, a Prometheus endpoint, a self monitor, a
  ZeroMQ request server and a telnet server, waits for an interrupt and takes everything down. This
  development models that code as HOL functions and states what makes it correct.

  \<^bold>\<open>How the code is modelled.\<close> An object is a record with the members of the
  class, named as in the source; an operation is a function from the object and the
  \<open>world\<close> (\<open>World\<close>) to its result, the new object and the new world. A world
  is the trace of the calls made so far and the flag table \<open>vCheckFlag\<close>, the one piece of
  state the components share. What the sources call but do not define (kernel, clock, libzmq, libcurl,
  rapidjson, prometheus-cpp, crashpad, spdlog) is a function of the trace, passed in a record
  (\<open>env\<close>, \<open>zmq_env\<close>, \<open>http_env\<close>, \<open>raw_env\<close>,
  \<open>json_lib\<close>, \<open>log_setup\<close>, \<open>program_env\<close>); what the code relies
  on is a named hypothesis (\<open>zmq_env_ok\<close>, \<open>json_law\<close>,
  \<open>gauge_law\<close>, \<open>blocks_ok\<close>, \<open>regex_law\<close>). An exception is an
  \<open>Inl\<close> text; a step the standard leaves undefined is an \<open>Inl\<close> of
  \<open>fault\<close> (\<open>Prelude\<close>). \<open>size_t\<close> and the counters are 64-bit
  words and wrap; doubles are integers rounded as binary64 rounds them (\<open>dbl\<close>).

  \<^bold>\<open>The theories and the code.\<close>
  \<^item> \<open>Prelude\<close>, \<open>CppString\<close>, \<open>ErrorHelpers\<close>, \<open>World\<close>: faults and sums, \<open>std::string\<close> and
    formats, the text of an error, calls and trace with the flag table.
  \<^item> \<open>Hasher\<close>, \<open>CommandLine\<close>, \<open>ConfigParser\<close>, \<open>FileWatch\<close>: \<open>include/utils/Hasher.hpp\<close>,
    \<open>InputParser.hpp\<close>, \<open>src/utils/ConfigParser.cpp\<close>, \<open>FileHelpers.cpp\<close>.
  \<^item> \<open>BaseStats\<close>, \<open>TelnetStats\<close>, \<open>Metrics\<close>, \<open>ProcessMetrics\<close>: the statistics the servers report,
    \<open>src/metrics\<close>.
  \<^item> \<open>TelnetEdit\<close>, \<open>TelnetSession\<close>, \<open>TelnetCommands\<close>, \<open>TelnetServer\<close>: \<open>src/telnet\<close>; the editing of the
    receive buffer, the session, the callbacks the program installs, the server. \<open>TelnetLines\<close> and
    \<open>TelnetLife\<close> prove what a command line and a round do; \<open>server_reach\<close> is the life of a server.
  \<^item> \<open>Interleave\<close>: an owner that makes the statements of a function and a thread that makes rounds, under
    a schedule (\<open>run_moves\<close>). \<open>TelnetShutdown\<close>: \<open>TelnetServer::shutdown\<close> one statement at a time
    (\<open>shutdown_stmt\<close>), called by an owner (\<open>worker_round\<close>) or by the destructor (\<open>orphan_round\<close>), and a
    server that only its sessions keep alive (\<open>abandoned_rounds\<close>).
    \<open>TelnetRounds\<close>, \<open>TelnetStream\<close>: a session over many rounds, silent, or fed piece by piece (\<open>feeds\<close>).
  \<^item> \<open>ZeroMQ\<close>, \<open>ZeroMQServer\<close>, \<open>ZeroMQSpec\<close>: \<open>src/zeromq\<close>; socket, monitor, request server.
    \<open>ZeroMQShutdown\<close>: its \<open>shutdown\<close> one statement at a time, against the running thread.
  \<^item> \<open>Tracer\<close>: \<open>src/utils/Tracer.cpp\<close>, the crash handler and its watchdog.
  \<^item> \<open>Http\<close>, \<open>Logging\<close>, \<open>LoggingSpec\<close>, \<open>RawSocket\<close>: \<open>src/connection\<close>, \<open>src/logging\<close>.
  \<^item> \<open>Program\<close>: the pieces of \<open>main\<close> and its \<open>stages\<close>. \<open>ProgramRun\<close>: \<open>main\<close> among its threads; a round of
    one of them or an alarm (\<open>program_step\<close>), the start with rounds between its stages (\<open>startup\<close>), the
    wait loop. \<open>ProgramLife\<close>: the destructors with rounds between them (\<open>unwinds\<close>) and the whole
    (\<open>main_runs\<close>). \<open>ProgramSpec\<close>, \<open>ProgramEnd\<close>, \<open>ProgramLedger\<close>: what holds in every state of it.
  \<^item> \<open>TelnetProperties\<close>, \<open>TelnetSafety\<close>, \<open>LoggingProperties\<close>, \<open>ServiceProperties\<close>, \<open>ProgramProperties\<close>
    and this theory: the properties, each with a run it applies to.

  \<^bold>\<open>Interfaces.\<close> \<open>telnet_callbacks\<close> is the contract between the
  telnet server and its three callbacks (they keep the session's socket and history, and touch no
  other socket); all lemmas on sessions and rounds are proved in it and it is interpreted on the
  shipped callbacks. \<open>kv_store\<close> (configuration), \<open>registry_store\<close>
  (Prometheus registries) and \<open>minmax_gauges\<close> (minimum, average and maximum of a
  duration, interpreted three times) follow the same pattern. \<open>service\<close> is the contract
  between the program and its four threads (a round that ends leaves the table alone and the component
  well formed), interpreted on watchdog, self monitor, request server and telnet server.
  \<open>program_invariant\<close> is what a property of the program's states needs in order to hold
  through start and run; it is interpreted on the parts that exist, the flag table, the logger and the
  ledger of descriptors. \<open>stops_first\<close> is the contract of a shutdown that joins its thread first, and gives that
  every schedule is serial; it is interpreted on the request server, and the telnet server breaks it.

  \<^bold>\<open>What is shown.\<close> Telnet: every reachable server keeps at most five sessions,
  well formed histories and a balanced ledger of descriptors as long as no receive fails; a round
  always ends and has a meaning except for one key sequence; the buffer passes equal reference
  functions; a command line runs its command once; the commands of a client are the lines of its byte
  stream however it is cut into reads; a silent client is dropped when its last word is more than two
  minutes old, and not before. A \<open>shutdown\<close> that no round interrupts is one step; for the
  others the schedules that end in undefined behaviour are named, and the descriptors that stay open
  are counted. ZeroMQ: one reply for every request, with the code the request deserves; a socket is
  attached exactly while it is active; the server can be shut down at any moment. Registries: they
  refine a table without sharing. Log sinks: the Loki sink refines a queue of batches and Sentry gets
  each alert once. Flag table: it refines the set of services heard of since the last alarm, over
  every interleaving of rounds. Program: what a start leaves behind, that its states stay well formed and
  its threads can always go on, that it waits for an interrupt and for nothing else, how it can end,
  crashes included, and that it closes what it opened unless a client is there at its end.
  Configuration: what is saved loads back. Where the code does not do what it means to, a property
  states what it does: an arrow key after a command is undefined behaviour, a late round of an
  interrupted \<open>shutdown\<close> is too, a client accepted while the telnet server is destroyed
  is leaked, a telnet server released with clients connected ends the process, libcurl is used after
  its clean-up, a log line can forge others, a line without end is kept whole.

  \<^bold>\<open>Bounds and fuel.\<close> A thread is a number of rounds or a list of probes, for
  every such number or list; a schedule of \<open>shutdown\<close> is any list of moves. The loop of
  \<open>processTab\<close> may repeat as long as the callback changes the text:
  \<open>tab_loop\<close> is a \<open>partial_function (option)\<close>, and
  \<open>processTab_returns\<close> shows that with the shipped callback it returns. Every other loop
  is a terminating function. Sizes are assumed below \<open>2 ^ 63\<close> where the source adds to a
  \<open>size_t\<close> (\<open>fits\<close>).

  \<^bold>\<open>Not modelled.\<close> Threads interleave in whole rounds, with the statements of
  \<open>shutdown\<close> too: what happens when two threads touch one object at the same instant is
  outside the model. The records that were logged since the last flush, which in the code flow through
  spdlog from every thread, are an argument of the end (\<open>pending\<close>).
  \<open>std::bad_alloc\<close> and the handlers only draft versions of libzmq 4.2 call are left out;
  so are the tests, fuzzers, benchmarks and scripts of the repository. A stage of the start, and a
  destructor other than that of the telnet server, is one step for the threads of the other components.
\<close>

section \<open>Properties that span components\<close>

text \<open>\<open>set_flag\<close> on a table, and the table after an alarm.\<close>

lemma set_flag_table:
  "vCheckFlag w = before @ (name, f) # after \<Longrightarrow>
     vCheckFlag (set_flag (Some (length before)) w) = before @ (name, True) # after"
  by (simp add: set_flag_def)

lemma set_flag_fold_table:
  "vCheckFlag w = before @ (name, f) # after \<Longrightarrow> xs \<noteq> [] \<Longrightarrow>
     vCheckFlag (fold (\<lambda>_. set_flag (Some (length before))) xs w) = before @ (name, True) # after"
proof (induction xs arbitrary: w f)
  case (Cons x xs)
  then show ?case using set_flag_table [OF Cons.prems(1)] by (cases xs) auto
qed simp

definition cleared :: "(string \<times> bool) list \<Rightarrow> (string \<times> bool) list" where
  "cleared flags = map (\<lambda>(name, flag). (name, False)) flags"

lemma clear_flags_table:
  "vCheckFlag (clear_flags w) = cleared (vCheckFlag w)"
  "vCheckFlag w = before @ (name, f) # after \<Longrightarrow>
     vCheckFlag (clear_flags w) = cleared before @ (name, False) # cleared after"
  by (simp_all add: clear_flags_def cleared_def)

lemma length_cleared [simp]: "length (cleared flags) = length flags"
  by (simp add: cleared_def)

text \<open>
  Both status commands report a dead crash handler as running: the alarm clears the flags, and one
  round of the watchdog later the status reply of the request server has the entry of the handler
  at 1, whatever the checks of the handler found.
\<close>

theorem dead_handler_reported_alive:
  assumes "vCheckFlag w = before @ (name, f) # after" and "probes \<noteq> []"
    and "w' = snd (tracer_threadFunc (Some (length before)) probes (clear_flags w))"
  shows "status_reply (vCheckFlag w') =
     ''{'' @ join_with '','' (map json_entry (cleared before @ (name, True) # cleared after)) @ ''}''"
  using set_flag_fold_table [OF clear_flags_table(2) [OF assms(1)] assms(2)] assms(3)
  by (simp add: tracer_threadFunc_def tracer_loop_zero status_reply_join)

lemma dead_handler_reported_alive_witness:
  "status_reply (vCheckFlag (snd (tracer_threadFunc (Some 0)
      [\<lparr>cp_handler = None, cp_getsockopt = (\<lambda>_. (0, 0)), cp_peek = (\<lambda>_. 0), cp_kill = (\<lambda>_. - 1)\<rparr>]
      (clear_flags \<lparr>calls = [], vCheckFlag = [(''T'', False)]\<rparr>)))) =
   [CHR ''{'', CHR 0x22, CHR ''T'', CHR 0x22, CHR '':'', CHR ''1'', CHR ''}'']"
  using dead_handler_reported_alive [of "\<lparr>calls = [], vCheckFlag = [(''T'', False)]\<rparr>" "[]" "''T''" False "[]"
      "[\<lparr>cp_handler = None, cp_getsockopt = (\<lambda>_. (0, 0)), cp_peek = (\<lambda>_. 0), cp_kill = (\<lambda>_. - 1)\<rparr>]", OF _ _ refl]
  by (simp add: json_entry_def cleared_def)

lemma server_rounds_flags:
  assumes "server_rounds E n srv w = Inr (srv', w')"
    and "server_ok TelnetConnectedCallback TelnetMessageCallback TelnetTabCallback srv" and "m_initialised srv"
    and "m_checkFlag srv = Some (length before)" and "vCheckFlag w = before @ (name, f) # after"
  shows "vCheckFlag w' = before @ (name, if n = 0 then f else True) # after"
  using assms
proof (induction n arbitrary: srv w f)
  case (Suc n)
  then obtain srv1 w1 where one: "server_update E srv w = Inr (srv1, w1)"
    "server_rounds E n srv1 (set_flag (m_checkFlag srv1) w1) = Inr (srv', w')" by auto
  note upd = shipped.server_update_Inr [OF one(1) Suc.prems(2,3)]
  have flag: "m_checkFlag srv1 = Some (length before)" using upd(6) Suc.prems(4) by auto
  have "vCheckFlag (set_flag (m_checkFlag srv1) w1) = before @ (name, True) # after"
    unfolding flag by (rule set_flag_table [of _ _ _ f]) (use upd(3) Suc.prems(5) in simp)
  from Suc.IH [OF one(2) upd(1,2) flag this] show ?case by simp
qed simp

text \<open>
  The flag of the telnet server tells whether its thread made a round since the last alarm: with the
  flags cleared and \<open>n\<close> rounds made, exactly its own entry is set, and only if \<open>n\<close> is not 0.
\<close>

theorem telnet_flag_tells_rounds:
  assumes "server_ok TelnetConnectedCallback TelnetMessageCallback TelnetTabCallback srv" and "m_initialised srv"
    and "m_checkFlag srv = Some (length before)" and "vCheckFlag w = before @ (name, f) # after"
    and "server_threadFunc E n srv (clear_flags w) = Inr (srv', w')"
  shows "vCheckFlag w' = cleared before @ (name, n \<noteq> 0) # cleared after"
proof -
  obtain srv1 w1 where r: "server_rounds E n srv (emit (Log info ''Telnet server started'') (clear_flags w)) = Inr (srv1, w1)"
    and w': "vCheckFlag w' = vCheckFlag w1" using assms(5) by (auto simp: server_threadFunc_def)
  have "vCheckFlag (emit (Log info ''Telnet server started'') (clear_flags w)) =
      cleared before @ (name, False) # cleared after"
    using clear_flags_table(2) [OF assms(4)] by simp
  moreover have "m_checkFlag srv = Some (length (cleared before))" using assms(3) by simp
  ultimately show ?thesis using server_rounds_flags [OF r assms(1,2)] w' by (cases "n = 0") auto
qed

lemma telnet_flag_tells_rounds_witness:
  "\<exists>srv w. server_threadFunc (sample_env (\<lambda>_. RecvAgain) 0) 1 (full_server\<lparr>m_checkFlag := Some 0\<rparr>)
      (clear_flags \<lparr>calls = [], vCheckFlag = [(''Telnet Server'', False)]\<rparr>) = Inr (srv, w) \<and>
     vCheckFlag w = [(''Telnet Server'', True)]"
proof -
  let ?E = "sample_env (\<lambda>_. RecvAgain) 0" and ?srv = "full_server\<lparr>m_checkFlag := Some 0\<rparr>"
  let ?w = "clear_flags \<lparr>calls = [], vCheckFlag = [(''Telnet Server'', False)]\<rparr>"
  have ok: "server_ok TelnetConnectedCallback TelnetMessageCallback TelnetTabCallback ?srv" "m_initialised ?srv"
    "m_checkFlag ?srv = Some (length ([] :: (string \<times> bool) list))" and range: "listen_in_range ?srv"
    by (simp_all add: full_server_def server_ok_def shipped_server_def new_server_def shipped_cfg_def
        INVALID_SOCKET_def MAX_AVAILABLE_SESSION_def listen_in_range_def FD_SETSIZE_def)
  obtain srv w where "server_threadFunc ?E 1 ?srv ?w = Inr (srv, w)"
    using shipped.quiet_round [OF ok(1,2) range, where E = ?E and w = "emit (Log info ''Telnet server started'') ?w"]
    by (auto simp: server_threadFunc_def)
  from telnet_flag_tells_rounds [OF ok _ this, of "''Telnet Server''" False "[]"] this show ?thesis
    by (simp add: cleared_def)
qed

end
